theory Spec2Isabelle
  imports Complex_Main "HOL-Library.Char_ord" "HOL-Library.List_Lexorder"
    "HOL-Library.Product_Lexorder" "HOL-Library.Log_Nat"
begin

section \<open>The store\<close>

text \<open>
  The relational schema (the DDL with the \<open>bill_status\<close> view and
  \<open>calculate_expected_cash\<close>). A table is the list of its rows. \<open>DECIMAL(15,2)\<close>
  values are exact decimals and are modelled as rationals; a \<open>DATE\<close> is a day number, a
  \<open>TIMESTAMP\<close> a tick count. A nullable column is an \<open>option\<close>.
\<close>

type_synonym amount = rat
type_synonym date = int
type_synonym timestamp = nat
type_synonym user_id = string

subsection \<open>Column types\<close>

text \<open>
  What a column does to the value an \<open>INSERT\<close> gives it; \<open>None\<close> when the statement raises.
  \<open>VARCHAR(n)\<close> takes a string of at most \<open>n\<close> characters and refuses a longer one. (A
  longer string whose excess is spaces only would be cut to \<open>n\<close> characters instead; the
  XML service trims the values it sends, and for the rows of the ODBC answer that case is
  not modelled.)
\<close>

definition varchar :: "nat \<Rightarrow> string \<Rightarrow> string option" where
  "varchar n s = (if length s \<le> n then Some s else None)"

text \<open>
  \<open>DECIMAL(15,2)\<close> rounds to two decimals, half away from zero, and raises (numeric field
  overflow) when the rounded value needs more than 13 digits before the point.
  \<open>hundredths\<close> is the rounded value counted in hundredths.
\<close>

definition hundredths :: "amount \<Rightarrow> int" where
  "hundredths a = (if a \<ge> 0 then \<lfloor>a * 100 + 1 / 2\<rfloor> else - \<lfloor>- a * 100 + 1 / 2\<rfloor>)"

definition decimal_15_2 :: "amount \<Rightarrow> amount option" where
  "decimal_15_2 a =
     (if \<bar>hundredths a\<bar> < 10 ^ 15 then Some (of_int (hundredths a) / 100) else None)"

text \<open>
  The text PostgreSQL sends for a numeric value of scale 2: a minus sign when it is
  negative, the digits of the integer part, a dot and two digits. node-postgres hands
  \<open>NUMERIC\<close> columns to JavaScript as this text, and the repository reads them so (it
  applies \<open>parseFloat\<close> wherever it computes with one).
\<close>

definition digit_char :: "nat \<Rightarrow> char" where
  "digit_char d = ''0123456789'' ! d"

fun digits :: "nat \<Rightarrow> string" where
  "digits n = (if n < 10 then [digit_char n] else digits (n div 10) @ [digit_char (n mod 10)])"

declare digits.simps [simp del]

definition numeric_text :: "amount \<Rightarrow> string" where
  "numeric_text a =
     (let c = hundredths a; n = nat \<bar>c\<bar> in
      (if c < 0 then ''-'' else []) @ digits (n div 100) @ ''.''
        @ [digit_char (n div 10 mod 10), digit_char (n mod 10)])"

datatype pay_mode = CASH | CHEQUE | DIGITAL

record bill =
  bill_no :: string
  bill_date :: date
  party_name :: string
  amount :: amount
  last_sync_ts :: timestamp
  created_at :: timestamp

record receipt =
  receipt_id :: string
  receipt_date :: date
  r_party_name :: string
  r_amount :: amount
  mode :: pay_mode
  ref_text :: "string option"
  bill_reference :: "string option"
  r_last_sync_ts :: timestamp
  r_created_at :: timestamp

subsection \<open>The view \<open>bill_status\<close>\<close>

datatype pay_status = DUE | PAID | PART_PAID

record bill_status_row =
  bs_bill_no :: string
  bs_bill_date :: date
  bs_party_name :: string
  bill_amount :: amount
  receipt_total :: amount
  remaining_due :: amount
  status :: pay_status

text \<open>
  The subquery \<open>r\<close> of the view: the receipts whose \<open>bill_reference\<close> is not null, grouped
  by it, each group with the sum of its amounts.
\<close>

definition receipt_totals :: "receipt list \<Rightarrow> (string \<times> amount) list" where
  "receipt_totals rs =
     map (\<lambda>k. (k, sum_list (map r_amount (filter (\<lambda>r. bill_reference r = Some k) rs))))
       (remdups (List.map_filter bill_reference rs))"

text \<open>
  One row of \<open>bill b LEFT JOIN r ON b.bill_no = r.bill_no\<close>: \<open>COALESCE\<close> turns the
  missing group into 0, and the \<open>CASE\<close> is tried in the order it is written.
\<close>

definition bill_status_of :: "(string \<times> amount) list \<Rightarrow> bill \<Rightarrow> bill_status_row" where
  "bill_status_of r b =
     (let total = (case map_of r (bill_no b) of None \<Rightarrow> 0 | Some t \<Rightarrow> t) in
      \<lparr>bs_bill_no = bill_no b, bs_bill_date = bill_date b, bs_party_name = party_name b,
       bill_amount = amount b, receipt_total = total, remaining_due = amount b - total,
       status = (if total = 0 then DUE else if total \<ge> amount b then PAID else PART_PAID)\<rparr>)"

definition bill_status_view :: "bill list \<Rightarrow> receipt list \<Rightarrow> bill_status_row list" where
  "bill_status_view bs rs = map (bill_status_of (receipt_totals rs)) bs"

text \<open>
  The derived status in the words of the specification: the total of the receipts mapped to
  the bill, the remaining due, and the three-way status.
\<close>

definition spec_receiptTotal :: "receipt list \<Rightarrow> string \<Rightarrow> amount" where
  "spec_receiptTotal rs k = (\<Sum>r\<leftarrow>filter (\<lambda>r. bill_reference r = Some k) rs. r_amount r)"

definition spec_status :: "amount \<Rightarrow> amount \<Rightarrow> pay_status" where
  "spec_status billAmount receiptTotal =
     (if receiptTotal = 0 then DUE else if receiptTotal \<ge> billAmount then PAID else PART_PAID)"

definition spec_bill_status :: "receipt list \<Rightarrow> bill \<Rightarrow> bill_status_row" where
  "spec_bill_status rs b =
     \<lparr>bs_bill_no = bill_no b, bs_bill_date = bill_date b, bs_party_name = party_name b,
      bill_amount = amount b, receipt_total = spec_receiptTotal rs (bill_no b),
      remaining_due = amount b - spec_receiptTotal rs (bill_no b),
      status = spec_status (amount b) (spec_receiptTotal rs (bill_no b))\<rparr>"

section \<open>The auto-mapping engines\<close>

text \<open>
  The store as the synchronisation services see it: the two tables they write. The view
  is recomputed by every query that reads it.
\<close>

record store =
  bill_tbl :: "bill list"
  receipt_tbl :: "receipt list"

definition bill_status :: "store \<Rightarrow> bill_status_row list" where
  "bill_status db = bill_status_view (bill_tbl db) (receipt_tbl db)"

text \<open>\<open>UPDATE receipt SET bill_reference = $1 WHERE receipt_id = $2\<close>\<close>

definition set_bill_reference :: "string \<Rightarrow> string \<Rightarrow> store \<Rightarrow> store" where
  "set_bill_reference k rid db =
     db\<lparr>receipt_tbl :=
          map (\<lambda>r. if receipt_id r = rid then r\<lparr>bill_reference := Some k\<rparr> else r)
            (receipt_tbl db)\<rparr>"

text \<open>
  \<open>ORDER BY bill_date LIMIT 1\<close>: the rows sorted by date, the first one kept. Rows of
  equal date come in an order SQL leaves open; the stable sort fixes one such order.
\<close>

definition oldest_first :: "bill_status_row list \<Rightarrow> bill_status_row list" where
  "oldest_first rows = take 1 (sort_key bs_bill_date rows)"

subsection \<open>\<open>TallyODBCService.autoMapReceipts\<close> (and \<open>TallyXMLETL.autoMapReceipts\<close>)\<close>

text \<open>
  The receipts with no bill reference (null or, for the ODBC service, empty), ordered by
  \<open>receipt_date, receipt_id\<close>. The XML service's query has the null test only; the flag
  says which one runs.
\<close>

definition unmappedReceipts_odbc :: "bool \<Rightarrow> store \<Rightarrow> receipt list" where
  "unmappedReceipts_odbc empty_too db =
     sort_key (\<lambda>r. (receipt_date r, receipt_id r))
       (filter (\<lambda>r. bill_reference r = None \<or> (empty_too \<and> bill_reference r = Some []))
          (receipt_tbl db))"

text \<open>
  The bills of the receipt's party with \<open>remaining_due > 0 AND remaining_due >= amount\<close>,
  oldest first, at most one.
\<close>

definition matchingBills_odbc :: "store \<Rightarrow> receipt \<Rightarrow> bill_status_row list" where
  "matchingBills_odbc db r =
     oldest_first
       (filter (\<lambda>bs. bs_party_name bs = r_party_name r \<and> remaining_due bs > 0
                  \<and> remaining_due bs \<ge> r_amount r)
          (bill_status db))"

text \<open>
  The loop over the receipts read before it starts; each turn queries the view again, so a
  link made in one turn is seen by the next. The count is \<open>mappedCount\<close>.
\<close>

fun map_loop_odbc :: "receipt list \<Rightarrow> store \<Rightarrow> nat \<Rightarrow> store \<times> nat" where
  "map_loop_odbc [] db n = (db, n)"
| "map_loop_odbc (r # rs) db n =
     (case matchingBills_odbc db r of
        [] \<Rightarrow> map_loop_odbc rs db n
      | b # _ \<Rightarrow> map_loop_odbc rs (set_bill_reference (bs_bill_no b) (receipt_id r) db) (n + 1))"

text \<open>
  This method releases its client after the loop on every path that returns a count; it is
  modelled from the point where it holds the client.
\<close>

definition autoMapReceipts_odbc :: "bool \<Rightarrow> store \<Rightarrow> store \<times> nat" where
  "autoMapReceipts_odbc empty_too db = map_loop_odbc (unmappedReceipts_odbc empty_too db) db 0"

subsection \<open>\<open>TallyETL.autoMapReceipts\<close>\<close>

text \<open>The receipts with a null bill reference, \<open>ORDER BY party_name, receipt_date\<close>.\<close>

definition unmappedReceipts_etl :: "store \<Rightarrow> receipt list" where
  "unmappedReceipts_etl db =
     sort_key (\<lambda>r. (r_party_name r, receipt_date r))
       (filter (\<lambda>r. bill_reference r = None) (receipt_tbl db))"

text \<open>
  The candidate: the oldest bill of the party with \<open>remaining_due > 0\<close> and
  \<open>bill_date <= receipt_date\<close>. The amount is not part of this query.
\<close>

definition candidateBill_etl :: "store \<Rightarrow> receipt \<Rightarrow> bill_status_row list" where
  "candidateBill_etl db r =
     oldest_first
       (filter (\<lambda>bs. bs_party_name bs = r_party_name r \<and> remaining_due bs > 0
                  \<and> bs_bill_date bs \<le> receipt_date r)
          (bill_status db))"

text \<open>
  The receipt is linked when there is a candidate and
  \<open>candidateBill.rows[0].remaining_due >= receipt.amount\<close> holds. The test is made in
  JavaScript on the two values as the rows hold them: both are strings, the texts of the two
  numeric values, and \<open>>=\<close> on two strings compares them code unit by code unit.
\<close>

fun map_loop_etl :: "receipt list \<Rightarrow> store \<Rightarrow> nat \<Rightarrow> store \<times> nat" where
  "map_loop_etl [] db n = (db, n)"
| "map_loop_etl (r # rs) db n =
     (case candidateBill_etl db r of
        [] \<Rightarrow> map_loop_etl rs db n
      | b # _ \<Rightarrow>
          if numeric_text (remaining_due b) \<ge> numeric_text (r_amount r)
          then map_loop_etl rs (set_bill_reference (bs_bill_no b) (receipt_id r) db) (n + 1)
          else map_loop_etl rs db n)"

text \<open>
  The connection pool of \<open>config/database\<close>, a file that is not among these sources: a
  node-postgres pool of at most \<open>max_clients\<close> clients, \<open>checked_out\<close> of them held by a
  caller. \<open>pool.connect()\<close> gives a client when one is left; when none is, its promise
  stays pending (the library's default is to wait without a timeout), which is \<open>None\<close>.
  \<open>client.release()\<close> gives one back.
\<close>

record pg_pool =
  max_clients :: nat
  checked_out :: nat

definition pool_connect :: "pg_pool \<Rightarrow> pg_pool option" where
  "pool_connect pool =
     (if checked_out pool < max_clients pool
      then Some (pool\<lparr>checked_out := checked_out pool + 1\<rparr>) else None)"

definition pool_release :: "pg_pool \<Rightarrow> pg_pool" where
  "pool_release pool = pool\<lparr>checked_out := checked_out pool - 1\<rparr>"

text \<open>
  The method takes a client first. With no unmapped receipt it returns 0 at once, before
  \<open>client.release()\<close>, and the client stays checked out; otherwise the loop runs and the
  client is released after it. \<open>None\<close>: the method waits for a client for ever.
\<close>

definition autoMapReceipts_etl :: "pg_pool \<Rightarrow> store \<Rightarrow> ((store \<times> nat) \<times> pg_pool) option" where
  "autoMapReceipts_etl pool db =
     (case pool_connect pool of
        None \<Rightarrow> None
      | Some pool' \<Rightarrow>
          (let unmapped = unmappedReceipts_etl db in
           if unmapped = [] then Some ((db, 0), pool')
           else Some (map_loop_etl unmapped db 0, pool_release pool')))"

section \<open>Ingestion\<close>

subsection \<open>The upsert statement\<close>

text \<open>
  \<open>INSERT INTO t (...) VALUES (...) ON CONFLICT (key) DO UPDATE SET ...\<close>, for a proposed
  row \<open>excluded\<close>: a stored row with the same key is overwritten by the \<open>SET\<close> clause,
  which reads \<open>EXCLUDED\<close> and the stored row; without one the proposed row is added.
\<close>

definition insert_on_conflict_update ::
  "('r \<Rightarrow> 'k) \<Rightarrow> ('r \<Rightarrow> 'r \<Rightarrow> 'r) \<Rightarrow> 'r \<Rightarrow> 'r list \<Rightarrow> 'r list" where
  "insert_on_conflict_update key set_clause excluded tbl =
     (if key excluded \<in> key ` set tbl
      then map (\<lambda>old. if key old = key excluded then set_clause excluded old else old) tbl
      else tbl @ [excluded])"

text \<open>
  A voucher row as the upstream query returns it: any field may be null, and \<open>None\<close>
  also stands for a value that is not of the column's kind (an amount that is not a number,
  a date that is no date).
\<close>

record raw_bill =
  rb_bill_no :: "string option"
  rb_bill_date :: "date option"
  rb_party_name :: "string option"
  rb_amount :: "amount option"

record raw_receipt =
  rr_receipt_id :: "string option"
  rr_receipt_date :: "date option"
  rr_party_name :: "string option"
  rr_amount :: "amount option"
  rr_mode :: "pay_mode option"
  rr_ref_text :: "string option"
  rr_bill_reference :: "string option"

text \<open>
  The row an \<open>INSERT INTO bill\<close> proposes, with \<open>CURRENT_TIMESTAMP\<close> in \<open>last_sync_ts\<close>
  and in the defaulted \<open>created_at\<close>; \<open>None\<close> when the statement raises because the
  primary key or a \<open>NOT NULL\<close> column would be null, or because \<open>bill_no VARCHAR(50)\<close>,
  \<open>party_name VARCHAR(200)\<close> or \<open>amount DECIMAL(15,2)\<close> refuses its value.
\<close>

definition proposed_bill :: "timestamp \<Rightarrow> raw_bill \<Rightarrow> bill option" where
  "proposed_bill now row =
     (case (Option.bind (rb_bill_no row) (varchar 50), rb_bill_date row,
            Option.bind (rb_party_name row) (varchar 200),
            Option.bind (rb_amount row) decimal_15_2) of
        (Some k, Some d, Some p, Some a) \<Rightarrow>
          Some \<lparr>bill_no = k, bill_date = d, party_name = p, amount = a,
                last_sync_ts = now, created_at = now\<rparr>
      | _ \<Rightarrow> None)"

text \<open>
  \<open>DO UPDATE SET bill_date = EXCLUDED.bill_date, party_name = EXCLUDED.party_name,
  amount = EXCLUDED.amount, last_sync_ts = CURRENT_TIMESTAMP\<close>
\<close>

definition set_clause_bill :: "bill \<Rightarrow> bill \<Rightarrow> bill" where
  "set_clause_bill excluded old =
     old\<lparr>bill_date := bill_date excluded, party_name := party_name excluded,
         amount := amount excluded, last_sync_ts := last_sync_ts excluded\<rparr>"

definition upsert_bill :: "timestamp \<Rightarrow> raw_bill \<Rightarrow> bill list \<Rightarrow> bill list option" where
  "upsert_bill now row tbl =
     map_option (\<lambda>e. insert_on_conflict_update bill_no set_clause_bill e tbl)
       (proposed_bill now row)"

text \<open>
  The receipt table's \<open>mode\<close> has a \<open>CHECK\<close> for the three modes; \<open>ref_text\<close>, of type
  \<open>TEXT\<close>, and \<open>bill_reference VARCHAR(50)\<close> may be null; \<open>receipt_id VARCHAR(50)\<close>,
  \<open>party_name VARCHAR(200)\<close> and \<open>amount DECIMAL(15,2)\<close> are as in the bill table.
\<close>

definition proposed_receipt :: "timestamp \<Rightarrow> raw_receipt \<Rightarrow> receipt option" where
  "proposed_receipt now row =
     (case (Option.bind (rr_receipt_id row) (varchar 50), rr_receipt_date row,
            Option.bind (rr_party_name row) (varchar 200),
            Option.bind (rr_amount row) decimal_15_2, rr_mode row,
            (case rr_bill_reference row of None \<Rightarrow> Some None
             | Some ref \<Rightarrow> map_option Some (varchar 50 ref))) of
        (Some k, Some d, Some p, Some a, Some m, Some ref) \<Rightarrow>
          Some \<lparr>receipt_id = k, receipt_date = d, r_party_name = p, r_amount = a, mode = m,
                ref_text = rr_ref_text row, bill_reference = ref,
                r_last_sync_ts = now, r_created_at = now\<rparr>
      | _ \<Rightarrow> None)"

text \<open>
  \<open>DO UPDATE SET receipt_date, party_name, amount, mode, ref_text, bill_reference\<close> from
  \<open>EXCLUDED\<close>, and \<open>last_sync_ts = CURRENT_TIMESTAMP\<close>.
\<close>

definition set_clause_receipt :: "receipt \<Rightarrow> receipt \<Rightarrow> receipt" where
  "set_clause_receipt excluded old =
     old\<lparr>receipt_date := receipt_date excluded, r_party_name := r_party_name excluded,
         r_amount := r_amount excluded, mode := mode excluded, ref_text := ref_text excluded,
         bill_reference := bill_reference excluded,
         r_last_sync_ts := r_last_sync_ts excluded\<rparr>"

definition upsert_receipt ::
  "timestamp \<Rightarrow> raw_receipt \<Rightarrow> receipt list \<Rightarrow> receipt list option" where
  "upsert_receipt now row tbl =
     map_option (\<lambda>e. insert_on_conflict_update receipt_id set_clause_receipt e tbl)
       (proposed_receipt now row)"

text \<open>
  The loop \<open>for (const row of result) { await client.query(...); syncedCount++ }\<close>: a
  statement that raises ends the loop with the exception (\<open>None\<close>).
\<close>

fun upsert_loop ::
  "('i \<Rightarrow> 'r list \<Rightarrow> 'r list option) \<Rightarrow> 'i list \<Rightarrow> 'r list \<Rightarrow> nat \<Rightarrow> ('r list \<times> nat) option" where
  "upsert_loop stmt [] tbl syncedCount = Some (tbl, syncedCount)"
| "upsert_loop stmt (row # rows) tbl syncedCount =
     (case stmt row tbl of
        None \<Rightarrow> None
      | Some tbl' \<Rightarrow> upsert_loop stmt rows tbl' (syncedCount + 1))"

subsection \<open>\<open>TallyETL.syncBills\<close> and \<open>TallyETL.syncReceipts\<close>\<close>

datatype sync_error = QueryFailed | RolledBack

text \<open>
  \<open>result\<close> is what \<open>connection.query\<close> gives: the rows, or \<open>None\<close> when it rejects. With
  no rows the method returns 0 before it opens a transaction. Otherwise all upserts run in
  one transaction whose \<open>CURRENT_TIMESTAMP\<close> is \<open>now\<close>; \<open>COMMIT\<close> keeps the new table, a
  raised statement leads to \<open>ROLLBACK\<close> and the error is thrown again. The transaction
  runs on a client of the pool, given back in \<open>finally\<close>: the two methods (and the XML
  service's \<open>syncBills\<close> below) are modelled from the point where they hold it, and
  \<open>runETL\<close> models the wait for it.
\<close>

definition syncBills ::
  "raw_bill list option \<Rightarrow> timestamp \<Rightarrow> store \<Rightarrow> (sync_error + nat) \<times> store" where
  "syncBills result now db =
     (case result of
        None \<Rightarrow> (Inl QueryFailed, db)
      | Some rows \<Rightarrow>
          if length rows = 0 then (Inr 0, db)
          else (case upsert_loop (upsert_bill now) rows (bill_tbl db) 0 of
                  None \<Rightarrow> (Inl RolledBack, db)
                | Some (tbl, syncedCount) \<Rightarrow> (Inr syncedCount, db\<lparr>bill_tbl := tbl\<rparr>)))"

definition syncReceipts ::
  "raw_receipt list option \<Rightarrow> timestamp \<Rightarrow> store \<Rightarrow> (sync_error + nat) \<times> store" where
  "syncReceipts result now db =
     (case result of
        None \<Rightarrow> (Inl QueryFailed, db)
      | Some rows \<Rightarrow>
          if length rows = 0 then (Inr 0, db)
          else (case upsert_loop (upsert_receipt now) rows (receipt_tbl db) 0 of
                  None \<Rightarrow> (Inl RolledBack, db)
                | Some (tbl, syncedCount) \<Rightarrow> (Inr syncedCount, db\<lparr>receipt_tbl := tbl\<rparr>)))"

text \<open>A table with its \<open>last_sync_ts\<close> column blanked: what is compared across two runs.\<close>

definition bills_but_sync_ts :: "bill list \<Rightarrow> bill list" where
  "bills_but_sync_ts tbl = map (\<lambda>b. b\<lparr>last_sync_ts := 0\<rparr>) tbl"

definition receipts_but_sync_ts :: "receipt list \<Rightarrow> receipt list" where
  "receipts_but_sync_ts tbl = map (\<lambda>r. r\<lparr>r_last_sync_ts := 0\<rparr>) tbl"

subsection \<open>\<open>TallyETL.runETL\<close>\<close>

text \<open>
  The upstream source for one cycle: whether \<open>connect\<close> succeeds, and what the two
  queries return. The service object holds the \<open>isRunning\<close> flag.
\<close>

record upstream =
  connect_ok :: bool
  bills_result :: "raw_bill list option"
  receipts_result :: "raw_receipt list option"

record etl_service =
  isRunning :: bool

text \<open>
  What the method's promise resolves to. \<open>runETL\<close> has no \<open>return\<close> with a value, so every
  path that ends resolves to \<open>undefined\<close>; \<open>Stats\<close> is the object the specification's
  contract names. A promise that stays pending for ever is \<open>None\<close>.
\<close>

datatype js_result = Undefined | Stats nat nat nat

text \<open>
  The lines \<open>runETL\<close> itself writes to the log (its duration left out); the lines of the
  methods it calls are not modelled.
\<close>

datatype log_line =
  Warn_already_running
  | Info_starting
  | Error_could_not_connect
  | Info_cycle_completed nat nat nat
  | Error_cycle_failed sync_error

text \<open>A sync method asks the pool for a client when the upstream answer has a row.\<close>

definition takes_client :: "'a list option \<Rightarrow> bool" where
  "takes_client result \<longleftrightarrow> (case result of Some (_ # _) \<Rightarrow> True | _ \<Rightarrow> False)"

text \<open>
  A cycle that finds the flag set returns at once. Otherwise the flag is set, the three
  steps run in turn inside \<open>try\<close>, an exception of a step is caught and logged, and
  \<open>finally\<close> clears the flag. The transactions of the two syncs start at \<open>t\<^sub>b\<close> and \<open>t\<^sub>r\<close>.
  A step that waits for a client of an exhausted pool never ends: the cycle stays where it
  is, with what it has logged and stored, and the flag stays set.
\<close>

definition runETL ::
  "upstream \<Rightarrow> timestamp \<Rightarrow> timestamp \<Rightarrow> etl_service \<Rightarrow> pg_pool \<Rightarrow> store
     \<Rightarrow> js_result option \<times> log_line list \<times> etl_service \<times> store \<times> pg_pool" where
  "runETL up t\<^sub>b t\<^sub>r svc pool db =
     (if isRunning svc then (Some Undefined, [Warn_already_running], svc, db, pool)
      else if \<not> connect_ok up
      then (Some Undefined, [Info_starting, Error_could_not_connect],
            svc\<lparr>isRunning := False\<rparr>, db, pool)
      else if takes_client (bills_result up) \<and> pool_connect pool = None
      then (None, [Info_starting], svc\<lparr>isRunning := True\<rparr>, db, pool)
      else
        (case syncBills (bills_result up) t\<^sub>b db of
           (Inl e, db\<^sub>1) \<Rightarrow>
             (Some Undefined, [Info_starting, Error_cycle_failed e],
              svc\<lparr>isRunning := False\<rparr>, db\<^sub>1, pool)
         | (Inr billsCount, db\<^sub>1) \<Rightarrow>
             if takes_client (receipts_result up) \<and> pool_connect pool = None
             then (None, [Info_starting], svc\<lparr>isRunning := True\<rparr>, db\<^sub>1, pool)
             else
               (case syncReceipts (receipts_result up) t\<^sub>r db\<^sub>1 of
                  (Inl e, db\<^sub>2) \<Rightarrow>
                    (Some Undefined, [Info_starting, Error_cycle_failed e],
                     svc\<lparr>isRunning := False\<rparr>, db\<^sub>2, pool)
                | (Inr receiptsCount, db\<^sub>2) \<Rightarrow>
                    (case autoMapReceipts_etl pool db\<^sub>2 of
                       None \<Rightarrow> (None, [Info_starting], svc\<lparr>isRunning := True\<rparr>, db\<^sub>2, pool)
                     | Some ((db\<^sub>3, mappedCount), pool') \<Rightarrow>
                         (Some Undefined,
                          [Info_starting,
                           Info_cycle_completed billsCount receiptsCount mappedCount],
                          svc\<lparr>isRunning := False\<rparr>, db\<^sub>3, pool')))))"

subsection \<open>\<open>TallyXMLETL.parseVouchersFromXML\<close> and \<open>TallyXMLETL.syncBills\<close>\<close>

text \<open>
  One \<open><VOUCHER>\<close> element of the response, as the four calls of \<open>extractXMLValue\<close>
  leave it: the trimmed text of each tag, empty when the tag is missing or empty.
\<close>

record xml_voucher =
  voucherNumber :: string
  date_text :: string
  partyName :: string
  amount_text :: string

text \<open>\<open>tallyDate.split('-')\<close>\<close>

fun split_dash :: "string \<Rightarrow> string list" where
  "split_dash [] = [[]]"
| "split_dash (c # cs) =
     (if c = CHR ''-'' then [] # split_dash cs
      else (case split_dash cs of [] \<Rightarrow> [[c]] | w # ws \<Rightarrow> (c # w) # ws))"

text \<open>
  \<open>formatTallyDate\<close> of the XML service: \<open>YYYYMMDD\<close> or \<open>DD-MM-YYYY\<close> rewritten as
  \<open>YYYY-MM-DD\<close>, anything else replaced by today's date.
\<close>

definition formatTallyDate :: "string \<Rightarrow> string \<Rightarrow> string" where
  "formatTallyDate today tallyDate =
     (if length tallyDate = 8
      then take 4 tallyDate @ ''-'' @ take 2 (drop 4 tallyDate) @ ''-'' @ take 2 (drop 6 tallyDate)
      else if CHR ''-'' \<in> set tallyDate
      then (case split_dash tallyDate of
              [d, m, y] \<Rightarrow> y @ ''-'' @ m @ ''-'' @ d
            | _ \<Rightarrow> today)
      else today)"

text \<open>
  The bill object the parser pushes. \<open>parseFloat\<close> is JavaScript's (\<open>None\<close> for \<open>NaN\<close>), applied
  to the amount text stripped of every character but digits, dot and minus; \<open>|| 0\<close> turns
  \<open>NaN\<close> into 0.
\<close>

record xml_bill =
  xb_bill_no :: string
  xb_bill_date :: string
  xb_party_name :: string
  xb_amount :: amount

definition amount_chars :: "string \<Rightarrow> string" where
  "amount_chars s = filter (\<lambda>c. c \<in> set ''0123456789.-'') s"

text \<open>
  The test \<open>voucherNumber && date && partyName && amount\<close>: each is a string, truthy when
  it is not empty.
\<close>

definition all_four_truthy :: "xml_voucher \<Rightarrow> bool" where
  "all_four_truthy v \<longleftrightarrow>
     voucherNumber v \<noteq> [] \<and> date_text v \<noteq> [] \<and> partyName v \<noteq> [] \<and> amount_text v \<noteq> []"

definition pushed_bill :: "(string \<Rightarrow> amount option) \<Rightarrow> string \<Rightarrow> xml_voucher \<Rightarrow> xml_bill" where
  "pushed_bill parseFloat today v =
     \<lparr>xb_bill_no = voucherNumber v,
      xb_bill_date = formatTallyDate today (date_text v),
      xb_party_name = partyName v,
      xb_amount = (case parseFloat (amount_chars (amount_text v)) of None \<Rightarrow> 0 | Some a \<Rightarrow> a)\<rparr>"

text \<open>
  The loop of \<open>parseVouchersFromXML\<close>. A voucher is pushed when the test holds; otherwise
  the loop goes on to the next one. The second component collects the \<open>logger.warn\<close>
  calls: the only one is in the \<open>catch\<close>, and nothing in the \<open>try\<close> block throws on
  strings, so none is made.
\<close>

fun parseVouchersFromXML ::
  "(string \<Rightarrow> amount option) \<Rightarrow> string \<Rightarrow> xml_voucher list \<Rightarrow> xml_bill list \<times> string list" where
  "parseVouchersFromXML parseFloat today [] = ([], [])"
| "parseVouchersFromXML parseFloat today (v # vs) =
     (case parseVouchersFromXML parseFloat today vs of
        (bills, warnings) \<Rightarrow>
          if all_four_truthy v
          then (pushed_bill parseFloat today v # bills, warnings)
          else (bills, warnings))"

text \<open>
  The parameters of the XML service's \<open>INSERT\<close>: the date goes to the database as text,
  and \<open>pg_date\<close> is PostgreSQL's reading of it (\<open>None\<close> when it is no date). The amount is
  the number \<open>parseFloat\<close> gave, which the column rounds to two decimals.
\<close>

definition xml_insert_values :: "(string \<Rightarrow> date option) \<Rightarrow> xml_bill \<Rightarrow> raw_bill" where
  "xml_insert_values pg_date b =
     \<lparr>rb_bill_no = Some (xb_bill_no b), rb_bill_date = pg_date (xb_bill_date b),
      rb_party_name = Some (xb_party_name b), rb_amount = Some (xb_amount b)\<rparr>"

text \<open>
  \<open>TallyXMLETL.syncBills\<close>: \<open>response\<close> is the vouchers of the XML answer, or \<open>None\<close> when
  the request fails. With a bill to store the method takes a client of the pool, and gives
  it back in \<open>finally\<close>; the result is \<open>None\<close> when it waits for a client for ever.
\<close>

definition xml_syncBills ::
  "(string \<Rightarrow> amount option) \<Rightarrow> (string \<Rightarrow> date option) \<Rightarrow> string \<Rightarrow> xml_voucher list option
     \<Rightarrow> timestamp \<Rightarrow> pg_pool \<Rightarrow> store \<Rightarrow> ((sync_error + nat) \<times> store) option" where
  "xml_syncBills parseFloat pg_date today response now pool db =
     (case response of
        None \<Rightarrow> Some (Inl QueryFailed, db)
      | Some vouchers \<Rightarrow>
          (let bills = fst (parseVouchersFromXML parseFloat today vouchers) in
           if length bills = 0 then Some (Inr 0, db)
           else (case pool_connect pool of
                   None \<Rightarrow> None
                 | Some _ \<Rightarrow>
                     (case upsert_loop (upsert_bill now) (map (xml_insert_values pg_date) bills)
                             (bill_tbl db) 0 of
                        None \<Rightarrow> Some (Inl RolledBack, db)
                      | Some (tbl, syncedCount) \<Rightarrow>
                          Some (Inr syncedCount, db\<lparr>bill_tbl := tbl\<rparr>)))))"

section \<open>The whole database\<close>

text \<open>
  The tables the request handlers use besides \<open>bill\<close> and \<open>receipt\<close>. Columns that no
  modelled query reads or writes are left out. The sources set the database up in two
  ways: the SQL schema, which also creates the audit triggers on the release tables, and
  \<open>createTables()\<close>, which creates the same tables and views and no trigger;
  \<open>audit_triggers\<close> says whether the triggers are there.
\<close>

datatype role = CASHIER_ROLE | DISPATCHER | SECURITY | ADMIN | MANAGER

record user_row =
  uid :: user_id
  user_role :: role
  active :: bool
  pin_hash :: "string option"

record release_self_row =
  rs_bill_no :: "string option"
  rs_gatepass_id :: string
  rs_approved_by_manager_id :: "user_id option"
  rs_dispatcher_id :: user_id
  receiver_name :: string
  receiver_phone :: "string option"
  signature_path :: "string option"
  photo_path :: "string option"
  released_ts :: timestamp

record release_transporter_row =
  rt_bill_no :: "string option"
  rt_gatepass_id :: string
  rt_approved_by_manager_id :: "user_id option"
  rt_dispatcher_id :: user_id
  transporter_name :: string
  lr_no :: string
  vehicle_no :: string
  driver_name :: string
  driver_phone :: string
  driver_id_type :: "string option"
  driver_id_last4 :: "string option"
  pkg_count :: int
  gross_weight :: "amount option"
  net_weight :: "amount option"
  pickup_ts :: timestamp
  pod_uploaded :: bool
  delivered_ts :: "timestamp option"

datatype session_status = ACTIVE | CLOSED | APPROVED

record cashier_session =
  cs_id :: string
  cashier_id :: user_id
  start_ts :: timestamp
  end_ts :: "timestamp option"
  start_float :: amount
  counted_cash :: "amount option"
  expected_cash :: "amount option"
  variance :: "amount option"
  closed_by :: "user_id option"
  cs_status :: session_status

record payment_hint =
  ph_bill_no :: "string option"
  cash_amt :: "amount option"
  ph_cashier_id :: user_id
  ph_created_at :: timestamp

record petty_cash =
  pc_session_id :: "string option"
  pc_amount :: amount

datatype till_type = ADD_TO_TILL | REMOVE_FROM_TILL

record till_adjustment =
  ta_session_id :: "string option"
  ta_type :: till_type
  ta_amount :: amount

record database = store +
  users :: "user_row list"
  release_self :: "release_self_row list"
  release_transporter :: "release_transporter_row list"
  cashier_session_tbl :: "cashier_session list"
  payment_hint_tbl :: "payment_hint list"
  petty_cash_tbl :: "petty_cash list"
  till_adjustment_tbl :: "till_adjustment list"
  audit_triggers :: bool

definition bill_status_db :: "database \<Rightarrow> bill_status_row list" where
  "bill_status_db db = bill_status_view (bill_tbl db) (receipt_tbl db)"

text \<open>An HTTP answer: the status code and the \<open>error\<close> or \<open>message\<close> text of its body.\<close>

datatype response = Reply nat string

text \<open>A middleware either answers the request itself or calls \<open>next()\<close>.\<close>

datatype 'a middleware_result = Respond response | Next 'a

section \<open>Release\<close>

text \<open>
  A request to \<open>POST /release/self\<close> or \<open>POST /release/transporter\<close> once
  \<open>authenticateToken\<close> and \<open>requireRole\<close> have let it through: \<open>req.params\<close> (an object
  from names to values, or \<open>undefined\<close>), the fields of \<open>req.body\<close> (each may be absent),
  the paths of the uploaded files, and the id of \<open>req.user\<close>, a row of \<open>users\<close>.
  \<open>otp_verified\<close> is the truthiness of that body field.
\<close>

record release_request =
  params :: "(string \<rightharpoonup> string) option"
  bill_no_field :: "string option"
  gatepass_id :: "string option"
  manager_pin :: "string option"
  otp_verified :: bool
  receiver_name_field :: "string option"
  receiver_phone_field :: "string option"
  signature_file :: "string option"
  photo_file :: "string option"
  transporter_name_field :: "string option"
  lr_no_field :: "string option"
  vehicle_no_field :: "string option"
  driver_name_field :: "string option"
  driver_phone_field :: "string option"
  driver_id_type_field :: "string option"
  driver_id_last4_field :: "string option"
  pkg_count_field :: "int option"
  gross_weight_field :: "amount option"
  net_weight_field :: "amount option"
  user :: user_id

text \<open>
  \<open>const { bill_no } = req.params || req.body\<close>: an object is truthy, so the body is read
  only when \<open>req.params\<close> is \<open>undefined\<close>. A name the chosen object does not have gives
  \<open>undefined\<close>, which reaches the database as \<open>NULL\<close>. On the two release routes, whose
  paths have no parameter, the router sets \<open>req.params\<close> to the empty object,
  \<open>Some Map.empty\<close> here.
\<close>

definition destructured_bill_no :: "release_request \<Rightarrow> string option" where
  "destructured_bill_no req =
     (case params req of Some p \<Rightarrow> p ''bill_no'' | None \<Rightarrow> bill_no_field req)"

text \<open>A string is truthy when it is there and not empty.\<close>

definition truthy :: "string option \<Rightarrow> bool" where
  "truthy s \<longleftrightarrow> (case s of None \<Rightarrow> False | Some t \<Rightarrow> t \<noteq> [])"

text \<open>
  \<open>SELECT ... FROM release_self WHERE bill_no = $1 UNION ALL SELECT ... FROM
  release_transporter WHERE bill_no = $1\<close>, as the number of its rows (a \<open>NULL\<close> parameter
  matches no row), and the same for \<open>gatepass_id\<close>.
\<close>

definition releases_of_bill :: "database \<Rightarrow> string option \<Rightarrow> nat" where
  "releases_of_bill db k =
     (case k of
        None \<Rightarrow> 0
      | Some b \<Rightarrow> length (filter (\<lambda>r. rs_bill_no r = Some b) (release_self db))
                  + length (filter (\<lambda>r. rt_bill_no r = Some b) (release_transporter db)))"

definition releases_with_gatepass :: "database \<Rightarrow> string option \<Rightarrow> nat" where
  "releases_with_gatepass db g =
     (case g of
        None \<Rightarrow> 0
      | Some p \<Rightarrow> length (filter (\<lambda>r. rs_gatepass_id r = p) (release_self db))
                  + length (filter (\<lambda>r. rt_gatepass_id r = p) (release_transporter db)))"

text \<open>
  \<open>validateRelease\<close>: the bill's row of \<open>bill_status\<close> (joined with \<open>bill\<close>, which adds
  nothing the later code reads), the test for an existing release, and the test for an
  outstanding due without manager PIN or OTP flag. On success the row is kept as
  \<open>req.billData\<close>.
\<close>

definition validateRelease :: "database \<Rightarrow> release_request \<Rightarrow> bill_status_row middleware_result" where
  "validateRelease db req =
     (case filter (\<lambda>bs. Some (bs_bill_no bs) = destructured_bill_no req) (bill_status_db db) of
        [] \<Rightarrow> Respond (Reply 404 ''Bill not found'')
      | bill # _ \<Rightarrow>
          if releases_of_bill db (destructured_bill_no req) > 0
          then Respond (Reply 400 ''Bill already released'')
          else if remaining_due bill > 0 \<and> \<not> truthy (manager_pin req) \<and> \<not> otp_verified req
          then Respond (Reply 400 ''Outstanding due requires manager PIN or customer OTP'')
          else Next bill)"

text \<open>\<open>validateGatepassId\<close>, a query on the pool, outside any transaction.\<close>

definition validateGatepassId :: "database \<Rightarrow> release_request \<Rightarrow> unit middleware_result" where
  "validateGatepassId db req =
     (if releases_with_gatepass db (gatepass_id req) > 0
      then Respond (Reply 400 ''Gatepass ID already used'')
      else Next ())"

text \<open>
  \<open>enforceUniqueRelease\<close>: \<open>BEGIN\<close>, the row lock on the bill, and the second look for a
  release of the bill. With a release it rolls back and answers; without one it leaves
  the transaction open for the handler.
\<close>

definition enforceUniqueRelease :: "database \<Rightarrow> release_request \<Rightarrow> unit middleware_result" where
  "enforceUniqueRelease db req =
     (if releases_of_bill db (destructured_bill_no req) > 0
      then Respond (Reply 400 ''Bill already has a release record'')
      else Next ())"

text \<open>
  The handler's search for the manager whose PIN was given: the active managers in the
  order of the query, the first whose \<open>pin_hash\<close> is set and matches. \<open>compare\<close> is
  \<open>bcrypt.compare\<close>.
\<close>

definition approving_manager ::
  "(string \<Rightarrow> string \<Rightarrow> bool) \<Rightarrow> database \<Rightarrow> string \<Rightarrow> user_id option" where
  "approving_manager compare db pin =
     map_option uid
       (find (\<lambda>m. case pin_hash m of None \<Rightarrow> False | Some h \<Rightarrow> compare pin h)
          (filter (\<lambda>u. user_role u = MANAGER \<and> active u) (users db)))"

text \<open>
  The approval block both handlers share, on \<open>req.billData\<close>: the result is
  \<open>approvedBy\<close>, or the answer sent after the rollback.
\<close>

definition approval ::
  "(string \<Rightarrow> string \<Rightarrow> bool) \<Rightarrow> database \<Rightarrow> release_request \<Rightarrow> bill_status_row
     \<Rightarrow> user_id option middleware_result" where
  "approval compare db req billData =
     (if remaining_due billData > 0
      then (if truthy (manager_pin req)
            then (case approving_manager compare db (the (manager_pin req)) of
                    None \<Rightarrow> Respond (Reply 400 ''Invalid manager PIN'')
                  | Some m \<Rightarrow> Next (Some m))
            else if \<not> otp_verified req
            then Respond (Reply 400 ''Outstanding due requires manager PIN or verified OTP'')
            else Next None)
      else Next None)"

text \<open>
  The constraints an \<open>INSERT\<close> into either release table checks on \<open>bill_no\<close>: unique
  within the table, and a bill of that number exists; a null passes both.
\<close>

definition bill_no_insertable :: "database \<Rightarrow> string option list \<Rightarrow> string option \<Rightarrow> bool" where
  "bill_no_insertable db taken k =
     (case k of
        None \<Rightarrow> True
      | Some b \<Rightarrow> Some b \<notin> set taken \<and> b \<in> bill_no ` set (bill_tbl db))"

text \<open>
  The trigger function \<open>audit_trigger\<close>, which the SQL schema attaches \<open>AFTER INSERT\<close> to
  both release tables, reads \<open>NEW.id\<close>. It raises, and the insert with it, on a table whose
  rows have no column \<open>id\<close>; the key of the release tables is called \<open>release_id\<close>.
\<close>

definition audit_trigger :: "string list \<Rightarrow> bool" where
  "audit_trigger columns \<longleftrightarrow> ''id'' \<in> set columns"

definition release_self_columns :: "string list" where
  "release_self_columns =
     [''release_id'', ''bill_no'', ''gatepass_id'', ''approved_by_manager_id'', ''dispatcher_id'',
      ''receiver_name'', ''receiver_phone'', ''signature_path'', ''photo_path'', ''released_ts'',
      ''created_at'']"

definition release_transporter_columns :: "string list" where
  "release_transporter_columns =
     [''release_id'', ''bill_no'', ''gatepass_id'', ''approved_by_manager_id'', ''dispatcher_id'',
      ''transporter_name'', ''lr_no'', ''vehicle_no'', ''driver_name'', ''driver_phone'',
      ''driver_id_type'', ''driver_id_last4'', ''pkg_count'', ''gross_weight'', ''net_weight'',
      ''pickup_ts'', ''pod_uploaded'', ''pod_path'', ''delivered_ts'', ''created_at'']"

text \<open>
  \<open>INSERT INTO release_self\<close> with the body's \<open>bill_no\<close>: \<open>None\<close> when a constraint fails
  (\<open>gatepass_id\<close> and \<open>receiver_name\<close> are \<open>NOT NULL\<close>) or a trigger that is there
  raises.
\<close>

definition insert_release_self ::
  "timestamp \<Rightarrow> database \<Rightarrow> release_request \<Rightarrow> user_id option \<Rightarrow> database option" where
  "insert_release_self now db req approvedBy =
     (case (gatepass_id req, receiver_name_field req) of
        (Some g, Some n) \<Rightarrow>
          if bill_no_insertable db (map rs_bill_no (release_self db)) (bill_no_field req)
             \<and> (if audit_triggers db then audit_trigger release_self_columns else True)
          then Some (db\<lparr>release_self := release_self db @
                 [\<lparr>rs_bill_no = bill_no_field req, rs_gatepass_id = g,
                   rs_approved_by_manager_id = approvedBy, rs_dispatcher_id = user req,
                   receiver_name = n, receiver_phone = receiver_phone_field req,
                   signature_path = signature_file req, photo_path = photo_file req,
                   released_ts = now\<rparr>]\<rparr>)
          else None
      | _ \<Rightarrow> None)"

text \<open>
  \<open>INSERT INTO release_transporter\<close>: six more \<open>NOT NULL\<close> columns, the \<open>CHECK\<close> on
  \<open>driver_id_type\<close>, and the trigger likewise.
\<close>

definition insert_release_transporter ::
  "timestamp \<Rightarrow> database \<Rightarrow> release_request \<Rightarrow> user_id option \<Rightarrow> database option" where
  "insert_release_transporter now db req approvedBy =
     (case (gatepass_id req, transporter_name_field req, lr_no_field req, vehicle_no_field req,
            driver_name_field req, driver_phone_field req, pkg_count_field req) of
        (Some g, Some t, Some l, Some v, Some d, Some p, Some c) \<Rightarrow>
          if bill_no_insertable db (map rt_bill_no (release_transporter db)) (bill_no_field req)
             \<and> (case driver_id_type_field req of
                   None \<Rightarrow> True
                 | Some ty \<Rightarrow> ty \<in> set [''AADHAR'', ''PAN'', ''LICENSE''])
             \<and> (if audit_triggers db then audit_trigger release_transporter_columns else True)
          then Some (db\<lparr>release_transporter := release_transporter db @
                 [\<lparr>rt_bill_no = bill_no_field req, rt_gatepass_id = g,
                   rt_approved_by_manager_id = approvedBy, rt_dispatcher_id = user req,
                   transporter_name = t, lr_no = l, vehicle_no = v, driver_name = d,
                   driver_phone = p, driver_id_type = driver_id_type_field req,
                   driver_id_last4 = driver_id_last4_field req, pkg_count = c,
                   gross_weight = gross_weight_field req, net_weight = net_weight_field req,
                   pickup_ts = now, pod_uploaded = False, delivered_ts = None\<rparr>]\<rparr>)
          else None
      | _ \<Rightarrow> None)"

datatype variant = Self | Transporter

text \<open>
  The two route handlers, inside the transaction that \<open>enforceUniqueRelease\<close> opened: the
  approval block, the insert and \<open>COMMIT\<close>; a failed insert is caught, rolled back and
  answered with 500.
\<close>

definition release_handler ::
  "(string \<Rightarrow> string \<Rightarrow> bool) \<Rightarrow> timestamp \<Rightarrow> variant \<Rightarrow> database \<Rightarrow> release_request
     \<Rightarrow> bill_status_row \<Rightarrow> database \<times> response" where
  "release_handler compare now v db req billData =
     (case approval compare db req billData of
        Respond r \<Rightarrow> (db, r)
      | Next approvedBy \<Rightarrow>
          (case v of
             Self \<Rightarrow>
               (case insert_release_self now db req approvedBy of
                  None \<Rightarrow> (db, Reply 500 ''Failed to release bill'')
                | Some db' \<Rightarrow> (db', Reply 200 ''Bill released to customer successfully''))
           | Transporter \<Rightarrow>
               (case insert_release_transporter now db req approvedBy of
                  None \<Rightarrow> (db, Reply 500 ''Failed to release bill to transporter'')
                | Some db' \<Rightarrow> (db', Reply 200 ''Bill released to transporter successfully''))))"

text \<open>
  A request goes through two stretches. The first runs on the pool, with no lock held:
  \<open>validateRelease\<close>, then \<open>validateGatepassId\<close>. The second runs on one client inside a
  transaction, holding the row lock on the bill: \<open>enforceUniqueRelease\<close>, then the
  handler. (The file upload between them, for the self route, is taken to succeed.)
\<close>

definition unlocked_checks :: "database \<Rightarrow> release_request \<Rightarrow> bill_status_row middleware_result" where
  "unlocked_checks db req =
     (case validateRelease db req of
        Respond r \<Rightarrow> Respond r
      | Next billData \<Rightarrow>
          (case validateGatepassId db req of
             Respond r \<Rightarrow> Respond r
           | Next _ \<Rightarrow> Next billData))"

definition locked_section ::
  "(string \<Rightarrow> string \<Rightarrow> bool) \<Rightarrow> timestamp \<Rightarrow> variant \<Rightarrow> database \<Rightarrow> release_request
     \<Rightarrow> bill_status_row \<Rightarrow> database \<times> response" where
  "locked_section compare now v db req billData =
     (case enforceUniqueRelease db req of
        Respond r \<Rightarrow> (db, r)
      | Next _ \<Rightarrow> release_handler compare now v db req billData)"

text \<open>One release attempt with no other request in between.\<close>

definition release_route ::
  "(string \<Rightarrow> string \<Rightarrow> bool) \<Rightarrow> timestamp \<Rightarrow> variant \<Rightarrow> database \<Rightarrow> release_request
     \<Rightarrow> database \<times> response" where
  "release_route compare now v db req =
     (case unlocked_checks db req of
        Respond r \<Rightarrow> (db, r)
      | Next billData \<Rightarrow> locked_section compare now v db req billData)"

text \<open>
  A sequence of attempts, one after the other, each at its own time; the answers are
  collected in order.
\<close>

fun release_attempts ::
  "(string \<Rightarrow> string \<Rightarrow> bool) \<Rightarrow> database \<Rightarrow> (timestamp \<times> variant \<times> release_request) list
     \<Rightarrow> database \<times> response list" where
  "release_attempts compare db [] = (db, [])"
| "release_attempts compare db ((now, v, req) # rest) =
     (case release_route compare now v db req of
        (db', r) \<Rightarrow>
          (case release_attempts compare db' rest of
             (db'', rs) \<Rightarrow> (db'', r # rs)))"

section \<open>Session close\<close>

text \<open>
  PostgreSQL's reading of a text as a \<open>UUID\<close>, the type of \<open>cashier_session.id\<close>: an
  optional opening brace, sixteen bytes of two hexadecimal digits each, a hyphen allowed
  after every second byte but the last, the closing brace when there was an opening one,
  and nothing more. The result is the value as PostgreSQL writes it, in lower case with
  four hyphens; \<open>None\<close> when the text is no UUID and the query that was given it raises.
\<close>

definition hex_digit :: "char \<Rightarrow> bool" where
  "hex_digit c \<longleftrightarrow> c \<in> set ''0123456789abcdefABCDEF''"

definition lower_hex :: "char \<Rightarrow> char" where
  "lower_hex c = (case map_of (zip ''ABCDEF'' ''abcdef'') c of None \<Rightarrow> c | Some l \<Rightarrow> l)"

text \<open>\<open>uuid_bytes n s\<close> reads the last \<open>n\<close> of the sixteen bytes from \<open>s\<close>.\<close>

fun uuid_bytes :: "nat \<Rightarrow> string \<Rightarrow> (string \<times> string) option" where
  "uuid_bytes 0 s = Some ([], s)"
| "uuid_bytes (Suc n) (a # b # s) =
     (if hex_digit a \<and> hex_digit b
      then (let i = 15 - n;
                s' = (case s of
                        c # t \<Rightarrow> if c = CHR ''-'' \<and> odd i \<and> i < 15 then t else s
                      | [] \<Rightarrow> s)
            in map_option (\<lambda>(ds, rest). (lower_hex a # lower_hex b # ds, rest)) (uuid_bytes n s'))
      else None)"
| "uuid_bytes (Suc n) _ = None"

definition uuid_out :: "string \<Rightarrow> string" where
  "uuid_out ds =
     take 8 ds @ ''-'' @ take 4 (drop 8 ds) @ ''-'' @ take 4 (drop 12 ds) @ ''-''
       @ take 4 (drop 16 ds) @ ''-'' @ drop 20 ds"

definition uuid_in :: "string \<Rightarrow> string option" where
  "uuid_in s =
     (case s of
        c # t \<Rightarrow>
          if c = CHR ''{''
          then (case uuid_bytes 16 t of
                  Some (ds, rest) \<Rightarrow> if rest = ''}'' then Some (uuid_out ds) else None
                | None \<Rightarrow> None)
          else (case uuid_bytes 16 s of
                  Some (ds, rest) \<Rightarrow> if rest = [] then Some (uuid_out ds) else None
                | None \<Rightarrow> None)
      | [] \<Rightarrow> None)"

text \<open>
  The SQL function \<open>calculate_expected_cash(session_id)\<close> is written in PL/pgSQL, and its
  parameter has the name of the column \<open>session_id\<close> of \<open>petty_cash\<close> and
  \<open>till_adjustment\<close>. What \<open>WHERE session_id = session_id\<close> means in its last two queries is
  set by the server's \<open>plpgsql.variable_conflict\<close>: with \<open>error\<close>, the default, the
  statement raises; with \<open>use_variable\<close> both sides are the parameter; with \<open>use_column\<close> both
  sides are the column. The function has no \<open>#variable_conflict\<close> line of its own. Only
  the SQL schema defines the function; in a database set up by \<open>createTables()\<close> the call
  raises as well (\<open>raise_error\<close> stands for that case too).
\<close>

datatype variable_conflict = raise_error | use_variable | use_column

text \<open>
  The function evaluated at \<open>now\<close>, for a session id that is a UUID. The start float is
  that of the session (null when there is none, which makes the result null); the cash is
  summed over the payment hints of the session's cashier created between the start of the
  session and its end (or now). Petty cash and till adjustments are summed over the rows
  for which \<open>session_id = session_id\<close> is true: every row when both sides are the
  parameter, every row with a session when both are the column.
\<close>

definition calculate_expected_cash ::
  "variable_conflict \<Rightarrow> timestamp \<Rightarrow> database \<Rightarrow> string \<Rightarrow> sync_error + amount option" where
  "calculate_expected_cash conflict now db session_id =
     (let sessions = filter (\<lambda>cs. cs_id cs = session_id) (cashier_session_tbl db);
          start_float' = (case sessions of [] \<Rightarrow> None | cs # _ \<Rightarrow> Some (start_float cs));
          cash_in = (\<Sum>cs\<leftarrow>sessions.
                       \<Sum>ph\<leftarrow>filter (\<lambda>ph. ph_cashier_id ph = cashier_id cs
                                   \<and> start_ts cs \<le> ph_created_at ph
                                   \<and> ph_created_at ph \<le> (case end_ts cs of None \<Rightarrow> now | Some e \<Rightarrow> e))
                               (payment_hint_tbl db).
                          (case cash_amt ph of None \<Rightarrow> 0 | Some a \<Rightarrow> a));
          same_session = (\<lambda>column :: string option.
                            (case conflict of
                               use_variable \<Rightarrow> True
                             | use_column \<Rightarrow> column \<noteq> None
                             | raise_error \<Rightarrow> False));
          petty_out = (\<Sum>p\<leftarrow>filter (\<lambda>p. same_session (pc_session_id p)) (petty_cash_tbl db).
                         pc_amount p);
          adjustments = (\<Sum>a\<leftarrow>filter (\<lambda>a. same_session (ta_session_id a))
                                  (till_adjustment_tbl db).
                           (if ta_type a = ADD_TO_TILL then ta_amount a else - ta_amount a))
      in if conflict = raise_error then Inl QueryFailed
         else Inr (map_option (\<lambda>f. f + cash_in - petty_out + adjustments) start_float'))"

text \<open>
  A request to \<open>POST /session/:session_id/close\<close> after authentication: the path
  parameter, the body's \<open>counted_cash\<close> (the value of the JavaScript number, or \<open>None\<close> when
  absent), whether \<open>denominations\<close> is an object, and the user.
\<close>

record close_request =
  session_id_param :: string
  counted_cash_field :: "amount option"
  denominations_given :: bool
  closing_user :: user_id

text \<open>
  \<open>validateSessionClose\<close>: the session must exist and be active, and no bill that this
  cashier took a payment for since the session began may be paid and not released. A path
  parameter that is no UUID makes the first query raise; the \<open>catch\<close> answers 500.
\<close>

definition unreleasedPaid :: "timestamp \<Rightarrow> database \<Rightarrow> cashier_session \<Rightarrow> string list" where
  "unreleasedPaid now db session =
     concat (map (\<lambda>ph.
        (case ph_bill_no ph of
           None \<Rightarrow> []
         | Some k \<Rightarrow>
             map bs_bill_no
               (filter (\<lambda>bs. bs_bill_no bs = k \<and> status bs = PAID
                          \<and> releases_of_bill db (Some k) = 0)
                  (bill_status_db db))))
       (filter (\<lambda>ph. ph_cashier_id ph = cashier_id session
                  \<and> start_ts session \<le> ph_created_at ph \<and> ph_created_at ph \<le> now)
          (payment_hint_tbl db)))"

definition validateSessionClose ::
  "timestamp \<Rightarrow> database \<Rightarrow> close_request \<Rightarrow> cashier_session middleware_result" where
  "validateSessionClose now db req =
     (case uuid_in (session_id_param req) of
        None \<Rightarrow> Respond (Reply 500 ''Session close validation failed'')
      | Some session_id \<Rightarrow>
          (case filter (\<lambda>cs. cs_id cs = session_id) (cashier_session_tbl db) of
             [] \<Rightarrow> Respond (Reply 404 ''Session not found'')
           | session # _ \<Rightarrow>
               if cs_status session \<noteq> ACTIVE then Respond (Reply 400 ''Session already closed'')
               else if unreleasedPaid now db session \<noteq> []
               then Respond (Reply 400 ''Cannot close session with unreleased paid bills'')
               else Next session))"

text \<open>
  JavaScript numbers are IEEE 754 doubles. \<open>double q\<close> is the double nearest to \<open>q\<close>, ties
  to the even mantissa: \<open>q\<close> lies in the binade \<open>2\<^sup>e \<le> |q| < 2\<^sup>e\<^sup>+\<^sup>1\<close> and is rounded to a multiple
  of \<open>2\<^sup>e\<^sup>-\<^sup>5\<^sup>2\<close>. (Subnormal numbers and overflow, beyond any amount of money, are left out.)
  \<open>parseFloat\<close> of a numeric text, and each arithmetic operation, gives the double of the
  exact result.
\<close>

definition pow2 :: "int \<Rightarrow> rat" where
  "pow2 e = (if e \<ge> 0 then 2 ^ nat e else 1 / 2 ^ nat (- e))"

definition binade :: "rat \<Rightarrow> int" where
  "binade q = (let (a, b) = quotient_of \<bar>q\<bar>; e = bitlen a - bitlen b in
               if pow2 e \<le> \<bar>q\<bar> then e else e - 1)"

definition round_half_even :: "rat \<Rightarrow> int" where
  "round_half_even x =
     (let f = \<lfloor>x\<rfloor>; r = x - of_int f in
      if r < 1 / 2 then f else if r > 1 / 2 then f + 1 else if even f then f else f + 1)"

definition double :: "rat \<Rightarrow> rat" where
  "double q =
     (if q = 0 then 0
      else (let e = binade q - 52; m = round_half_even (\<bar>q\<bar> / pow2 e) in
            sgn q * of_int m * pow2 e))"

text \<open>
  \<open>parseFloat(result.rows[0].expected_cash) || 0\<close>, the middleware's \<open>expectedCash\<close>, and its
  \<open>varianceThreshold\<close>, \<open>parseFloat(process.env.CASH_VARIANCE_THRESHOLD || '100')\<close>:
  \<open>threshold_env\<close> is the number written in the variable, \<open>None\<close> when it is not set.
\<close>

definition parsed_expected_cash :: "variable_conflict \<Rightarrow> timestamp \<Rightarrow> database \<Rightarrow> string
     \<Rightarrow> sync_error + amount" where
  "parsed_expected_cash conflict now db session_id =
     map_sum id (\<lambda>expected_cash'. case expected_cash' of None \<Rightarrow> 0 | Some e \<Rightarrow> double e)
       (calculate_expected_cash conflict now db session_id)"

definition varianceThreshold :: "amount option \<Rightarrow> amount" where
  "varianceThreshold threshold_env = (case threshold_env of None \<Rightarrow> 100 | Some t \<Rightarrow> double t)"

text \<open>
  \<open>validateCashVariance\<close>. A query that raises, for the function or for a path parameter
  that is no UUID, is caught and answered with 500. The three fields of \<open>req\<close> are
  assigned inside the \<open>if\<close> only: the middleware passes on \<open>Some\<close> of the variance and the
  expected cash when the variance is beyond the threshold, and \<open>None\<close>, the fields left
  \<open>undefined\<close>, otherwise. A missing counted cash makes the variance \<open>NaN\<close>, which is
  beyond nothing.
\<close>

definition validateCashVariance ::
  "variable_conflict \<Rightarrow> amount option \<Rightarrow> timestamp \<Rightarrow> database \<Rightarrow> close_request
     \<Rightarrow> (amount \<times> amount) option middleware_result" where
  "validateCashVariance conflict threshold_env now db req =
     (case (case uuid_in (session_id_param req) of
              None \<Rightarrow> Inl QueryFailed
            | Some session_id \<Rightarrow> parsed_expected_cash conflict now db session_id) of
        Inl _ \<Rightarrow> Respond (Reply 500 ''Variance validation failed'')
      | Inr expected \<Rightarrow>
          (case counted_cash_field req of
             None \<Rightarrow> Next None
           | Some counted \<Rightarrow>
               (let variance = double (counted - expected)
                in if \<bar>variance\<bar> > varianceThreshold threshold_env
                   then Next (Some (variance, expected))
                   else Next None)))"

text \<open>
  What the handler sends back on success: \<open>variance\<close>, \<open>expectedCash\<close> and
  \<open>requiresApproval\<close>.
\<close>

datatype close_response =
  Session_closed amount amount bool
  | Close_failed response

text \<open>
  The \<open>UPDATE\<close> of the handler. Its parameters reach PostgreSQL untyped, and the types are
  deduced from the places where they stand, the expressions of the \<open>SET\<close> list first, the
  assignments to the columns after them: \<open>$3\<close> and \<open>$5\<close> in \<open>ABS($3) > $5\<close>, where an untyped
  argument of \<open>ABS\<close> is taken as \<open>double precision\<close>; then \<open>counted_cash = $1\<close>,
  \<open>expected_cash = $2\<close>, \<open>variance = $3\<close> (numeric columns) and \<open>closed_by = $4\<close>, and at last
  \<open>id = $6\<close> (UUID columns). A parameter for which two types are deduced makes the
  statement fail (\<open>inconsistent types deduced for parameter\<close>).
\<close>

datatype sql_type = Numeric | Double_precision | Uuid

definition update_parameter_types :: "(nat \<times> sql_type) list" where
  "update_parameter_types =
     [(3, Double_precision), (5, Double_precision),
      (1, Numeric), (2, Numeric), (3, Numeric), (4, Uuid), (6, Uuid)]"

definition types_deduced :: "(nat \<times> sql_type) list \<Rightarrow> bool" where
  "types_deduced uses \<longleftrightarrow> distinct (map fst (remdups uses))"

text \<open>
  The three amounts as the \<open>DECIMAL(15,2)\<close> columns take them (\<open>counted_cash\<close> may be
  null); \<open>None\<close> when one of them is out of range.
\<close>

definition update_values ::
  "close_request \<Rightarrow> amount \<Rightarrow> amount \<Rightarrow> (amount option \<times> amount \<times> amount) option" where
  "update_values req expectedCash variance' =
     (case (case counted_cash_field req of
              None \<Rightarrow> Some None
            | Some counted \<Rightarrow> map_option Some (decimal_15_2 counted),
            decimal_15_2 expectedCash, decimal_15_2 variance') of
        (Some c, Some e, Some v) \<Rightarrow> Some (c, e, v)
      | _ \<Rightarrow> None)"

text \<open>
  What the statement would do to the row of the session: the status is \<open>CLOSED\<close> in both
  branches of its \<open>CASE\<close>.
\<close>

definition update_session ::
  "timestamp \<Rightarrow> close_request \<Rightarrow> amount option \<times> amount \<times> amount \<Rightarrow> cashier_session
     \<Rightarrow> cashier_session" where
  "update_session now req values cs =
     (if Some (cs_id cs) = uuid_in (session_id_param req)
      then (case values of
              (c, e, v) \<Rightarrow>
                cs\<lparr>end_ts := Some now, counted_cash := c, expected_cash := Some e,
                   variance := Some v, closed_by := Some (closing_user req),
                   cs_status := CLOSED\<rparr>)
      else cs)"

text \<open>
  The handler. \<open>req.expectedCash || 0\<close> and \<open>req.variance || 0\<close> are 0 when the
  middleware left the fields \<open>undefined\<close>. A failed \<open>UPDATE\<close> is caught and answered with
  500. After the \<open>UPDATE\<close>, when \<open>denominations\<close> is given, the insert into \<open>audit_log\<close>
  with action \<open>CLOSE\<close> fails the table's \<open>CHECK\<close>, and the answer is 500 as well.
\<close>

definition close_handler ::
  "timestamp \<Rightarrow> database \<Rightarrow> close_request \<Rightarrow> (amount \<times> amount) option
     \<Rightarrow> database \<times> close_response" where
  "close_handler now db req flagged =
     (let expectedCash = (case flagged of None \<Rightarrow> 0 | Some (v, e) \<Rightarrow> e);
          variance' = (case flagged of None \<Rightarrow> 0 | Some (v, e) \<Rightarrow> v)
      in if \<not> types_deduced update_parameter_types
         then (db, Close_failed (Reply 500 ''Failed to close session''))
         else
           (case update_values req expectedCash variance' of
              None \<Rightarrow> (db, Close_failed (Reply 500 ''Failed to close session''))
            | Some values \<Rightarrow>
                (let db' = db\<lparr>cashier_session_tbl :=
                             map (update_session now req values) (cashier_session_tbl db)\<rparr>
                 in if denominations_given req
                    then (db', Close_failed (Reply 500 ''Failed to close session''))
                    else (db', Session_closed variance' expectedCash (flagged \<noteq> None)))))"

text \<open>The route: the two middlewares, then the handler.\<close>

definition close_session ::
  "variable_conflict \<Rightarrow> amount option \<Rightarrow> timestamp \<Rightarrow> database \<Rightarrow> close_request
     \<Rightarrow> database \<times> close_response" where
  "close_session conflict threshold_env now db req =
     (case validateSessionClose now db req of
        Respond r \<Rightarrow> (db, Close_failed r)
      | Next _ \<Rightarrow>
          (case validateCashVariance conflict threshold_env now db req of
             Respond r \<Rightarrow> (db, Close_failed r)
           | Next flagged \<Rightarrow> close_handler now db req flagged))"

subsection \<open>Notions for the proofs about the upsert\<close>

text \<open>
  All the upserts of a run, as a fold over the proposed rows; what they make of one stored
  row; and the last proposed row with a given key.
\<close>

definition upsert_all :: "('r \<Rightarrow> 'k) \<Rightarrow> ('r \<Rightarrow> 'r \<Rightarrow> 'r) \<Rightarrow> 'r list \<Rightarrow> 'r list \<Rightarrow> 'r list" where
  "upsert_all key sc es tbl = foldl (\<lambda>t e. insert_on_conflict_update key sc e t) tbl es"

definition overwritten :: "('r \<Rightarrow> 'k) \<Rightarrow> ('r \<Rightarrow> 'r \<Rightarrow> 'r) \<Rightarrow> 'r list \<Rightarrow> 'r \<Rightarrow> 'r" where
  "overwritten key sc es b = foldl (\<lambda>b e. if key b = key e then sc e b else b) b es"

definition last_with :: "('r \<Rightarrow> 'k) \<Rightarrow> 'r list \<Rightarrow> 'k \<Rightarrow> 'r option" where
  "last_with key es k = find (\<lambda>e. key e = k) (rev es)"

definition proposed_bills :: "timestamp \<Rightarrow> raw_bill list \<Rightarrow> bill list" where
  "proposed_bills now rows = map (\<lambda>row. the (proposed_bill now row)) rows"

definition proposed_receipts :: "timestamp \<Rightarrow> raw_receipt list \<Rightarrow> receipt list" where
  "proposed_receipts now rows = map (\<lambda>row. the (proposed_receipt now row)) rows"

text \<open>A sync method run twice on the same upstream answer, at \<open>t\<^sub>1\<close> and then at \<open>t\<^sub>2\<close>.\<close>

definition twice ::
  "(timestamp \<Rightarrow> store \<Rightarrow> 'a \<times> store) \<Rightarrow> timestamp \<Rightarrow> timestamp \<Rightarrow> store
     \<Rightarrow> ('a \<times> store) \<times> ('a \<times> store)" where
  "twice sync t\<^sub>1 t\<^sub>2 db = (sync t\<^sub>1 db, sync t\<^sub>2 (snd (sync t\<^sub>1 db)))"

subsection \<open>Rows for the worked examples\<close>

definition a_bill :: "string \<Rightarrow> date \<Rightarrow> string \<Rightarrow> amount \<Rightarrow> bill" where
  "a_bill k d p a =
     \<lparr>bill_no = k, bill_date = d, party_name = p, amount = a, last_sync_ts = 0, created_at = 0\<rparr>"

text \<open>A pool as node-postgres makes it by default, with none of its ten clients taken.\<close>

definition fresh_pool :: pg_pool where
  "fresh_pool = \<lparr>max_clients = 10, checked_out = 0\<rparr>"

text \<open>A database set up from the SQL schema, with nothing in it.\<close>

definition empty_database :: database where
  "empty_database =
     \<lparr>bill_tbl = [], receipt_tbl = [], users = [], release_self = [], release_transporter = [],
      cashier_session_tbl = [], payment_hint_tbl = [], petty_cash_tbl = [],
      till_adjustment_tbl = [], audit_triggers = True\<rparr>"

text \<open>The ids of a session and of its cashier.\<close>

definition session_1 :: string where
  "session_1 = ''11111111-1111-1111-1111-111111111111''"

definition cashier_1 :: user_id where
  "cashier_1 = ''22222222-2222-2222-2222-222222222222''"

definition a_session :: "string \<Rightarrow> user_id \<Rightarrow> timestamp \<Rightarrow> amount \<Rightarrow> cashier_session" where
  "a_session k c t f =
     \<lparr>cs_id = k, cashier_id = c, start_ts = t, end_ts = None, start_float = f,
      counted_cash = None, expected_cash = None, variance = None, closed_by = None,
      cs_status = ACTIVE\<rparr>"

definition a_hint :: "string \<Rightarrow> amount \<Rightarrow> user_id \<Rightarrow> timestamp \<Rightarrow> payment_hint" where
  "a_hint k cash c t = \<lparr>ph_bill_no = Some k, cash_amt = Some cash, ph_cashier_id = c, ph_created_at = t\<rparr>"

definition a_close :: "string \<Rightarrow> user_id \<Rightarrow> amount \<Rightarrow> close_request" where
  "a_close k c counted =
     \<lparr>session_id_param = k, counted_cash_field = Some counted, denominations_given = False,
      closing_user = c\<rparr>"

definition a_release_request ::
  "(string \<rightharpoonup> string) option \<Rightarrow> string \<Rightarrow> string \<Rightarrow> release_request" where
  "a_release_request p k g =
     \<lparr>params = p, bill_no_field = Some k, gatepass_id = Some g, manager_pin = None,
      otp_verified = False, receiver_name_field = Some ''Receiver'',
      receiver_phone_field = None, signature_file = None, photo_file = None,
      transporter_name_field = Some ''Carrier'', lr_no_field = Some ''LR-1'',
      vehicle_no_field = Some ''V-1'', driver_name_field = Some ''Driver'',
      driver_phone_field = Some ''98'', driver_id_type_field = None,
      driver_id_last4_field = None, pkg_count_field = Some 1, gross_weight_field = None,
      net_weight_field = None, user = ''D1''\<rparr>"

definition a_release_self :: "string \<Rightarrow> string \<Rightarrow> release_self_row" where
  "a_release_self k g =
     \<lparr>rs_bill_no = Some k, rs_gatepass_id = g, rs_approved_by_manager_id = None,
      rs_dispatcher_id = ''D1'', receiver_name = ''Receiver'', receiver_phone = None,
      signature_path = None, photo_path = None, released_ts = 5\<rparr>"

definition a_receipt :: "string \<Rightarrow> date \<Rightarrow> string \<Rightarrow> amount \<Rightarrow> string option \<Rightarrow> receipt" where
  "a_receipt k d p a ref =
     \<lparr>receipt_id = k, receipt_date = d, r_party_name = p, r_amount = a, mode = CASH,
      ref_text = None, bill_reference = ref, r_last_sync_ts = 0, r_created_at = 0\<rparr>"

text \<open>Two bills of 500, each paid in full by one receipt; and one bill of 500 with no receipt.\<close>

definition paid_bills :: database where
  "paid_bills =
     empty_database\<lparr>bill_tbl := [a_bill ''B1'' 1 ''P'' 500, a_bill ''B2'' 2 ''P'' 500],
       receipt_tbl := [a_receipt ''R1'' 3 ''P'' 500 (Some ''B1''),
                       a_receipt ''R2'' 3 ''P'' 500 (Some ''B2'')]\<rparr>"

definition due_bill :: database where
  "due_bill = empty_database\<lparr>bill_tbl := [a_bill ''B1'' 1 ''P'' 500]\<rparr>"

section \<open>Status derivation\<close>

lemma set_map_filter_iff:
  "k \<in> set (List.map_filter f xs) \<longleftrightarrow> (\<exists>x \<in> set xs. f x = Some k)"
  by (induction xs) (auto simp: List.map_filter_simps split: option.splits)

lemma map_of_receipt_totals:
  "map_of (receipt_totals rs) k =
     (if \<exists>r \<in> set rs. bill_reference r = Some k
      then Some (sum_list (map r_amount (filter (\<lambda>r. bill_reference r = Some k) rs)))
      else None)"
  unfolding receipt_totals_def map_of_map_restrict
  by (simp add: restrict_map_def set_map_filter_iff)

lemma sum_list_no_group:
  "\<not> (\<exists>r \<in> set rs. bill_reference r = Some k) \<Longrightarrow>
     filter (\<lambda>r. bill_reference r = Some k) rs = []"
  by (induction rs) auto

lemma bill_status_of_spec: "bill_status_of (receipt_totals rs) b = spec_bill_status rs b"
  by (auto simp: bill_status_of_def spec_bill_status_def spec_receiptTotal_def
      spec_status_def map_of_receipt_totals Let_def sum_list_no_group)

text \<open>
  C4. Every bill has exactly one row in \<open>bill_status\<close>; its \<open>receipt_total\<close> is the sum of
  the amounts of the receipts whose \<open>bill_reference\<close> is that bill, its \<open>remaining_due\<close> is
  the bill amount minus that total, and its status is DUE when the total is 0, otherwise
  PAID when the total reaches the bill amount, otherwise PART-PAID. With amount 1000 a
  total of 1000 is PAID, a total of 400 is PART-PAID, and a total of 0 is DUE.
\<close>

theorem bill_status_derivation:
  "bill_status_view bs rs = map (spec_bill_status rs) bs
   \<and> spec_status 1000 1000 = PAID
   \<and> spec_status 1000 400 = PART_PAID \<and> (1000 - 400 :: amount) = 600
   \<and> spec_status 1000 0 = DUE"
  by (simp add: bill_status_view_def bill_status_of_spec spec_status_def)

text \<open>
  The three examples on the view itself: a bill of 1000 with receipts of 600 and 400 mapped
  to it, one with a single receipt of 400, and one with no mapped receipt (the receipt of 50
  has no bill reference).
\<close>

theorem bill_status_derivation_witness:
  "map (\<lambda>row. (bs_bill_no row, receipt_total row, remaining_due row, status row))
     (bill_status_view
        [\<lparr>bill_no = ''B1'', bill_date = 1, party_name = ''P'', amount = 1000,
           last_sync_ts = 0, created_at = 0\<rparr>,
         \<lparr>bill_no = ''B2'', bill_date = 2, party_name = ''P'', amount = 1000,
           last_sync_ts = 0, created_at = 0\<rparr>,
         \<lparr>bill_no = ''B3'', bill_date = 3, party_name = ''P'', amount = 1000,
           last_sync_ts = 0, created_at = 0\<rparr>]
        [\<lparr>receipt_id = ''R1'', receipt_date = 4, r_party_name = ''P'', r_amount = 600,
           mode = CASH, ref_text = None, bill_reference = Some ''B1'',
           r_last_sync_ts = 0, r_created_at = 0\<rparr>,
         \<lparr>receipt_id = ''R2'', receipt_date = 4, r_party_name = ''P'', r_amount = 400,
           mode = CASH, ref_text = None, bill_reference = Some ''B1'',
           r_last_sync_ts = 0, r_created_at = 0\<rparr>,
         \<lparr>receipt_id = ''R3'', receipt_date = 4, r_party_name = ''P'', r_amount = 400,
           mode = CHEQUE, ref_text = None, bill_reference = Some ''B2'',
           r_last_sync_ts = 0, r_created_at = 0\<rparr>,
         \<lparr>receipt_id = ''R4'', receipt_date = 4, r_party_name = ''P'', r_amount = 50,
           mode = CASH, ref_text = None, bill_reference = None,
           r_last_sync_ts = 0, r_created_at = 0\<rparr>])
   = [(''B1'', 1000, 0, PAID), (''B2'', 400, 600, PART_PAID), (''B3'', 0, 1000, DUE)]"
  using bill_status_derivation
  by (simp add: spec_bill_status_def spec_receiptTotal_def spec_status_def)

section \<open>Auto-mapping\<close>

lemma oldest_first_Nil: "oldest_first rows = [] \<longleftrightarrow> rows = []"
  by (cases "sort_key bs_bill_date rows")
    (auto simp: oldest_first_def dest: arg_cong[where f=set])

lemma oldest_first_Cons:
  assumes "oldest_first rows = b # rest"
  shows "rest = [] \<and> b \<in> set rows \<and> (\<forall>b' \<in> set rows. bs_bill_date b \<le> bs_bill_date b')"
proof -
  obtain tl where s: "sort_key bs_bill_date rows = b # tl" and r: "rest = []"
    using assms by (cases "sort_key bs_bill_date rows") (auto simp: oldest_first_def)
  have "set (b # tl) = set rows"
    using s set_sort[of bs_bill_date rows] by simp
  moreover have "sorted (map bs_bill_date (b # tl))"
    using s sorted_sort_key[of bs_bill_date rows] by simp
  ultimately show ?thesis using r by auto
qed

lemma oldest_first_cases:
  "(rows = [] \<and> oldest_first rows = []) \<or>
   (\<exists>b. oldest_first rows = [b] \<and> b \<in> set rows
        \<and> (\<forall>b' \<in> set rows. bs_bill_date b \<le> bs_bill_date b'))"
proof (cases "oldest_first rows")
  case Nil
  then show ?thesis by (simp add: oldest_first_Nil)
next
  case (Cons b rest)
  from oldest_first_Cons[OF this] Cons show ?thesis by auto
qed

text \<open>One turn of the ODBC loop, on the store as it is when the receipt's turn comes.\<close>

lemma turn_odbc:
  "if \<exists>bs \<in> set (bill_status db). bs_party_name bs = r_party_name r
         \<and> remaining_due bs > 0 \<and> remaining_due bs \<ge> r_amount r
   then \<exists>b \<in> set (bill_status db). bs_party_name b = r_party_name r
          \<and> remaining_due b > 0 \<and> remaining_due b \<ge> r_amount r
          \<and> (\<forall>b' \<in> set (bill_status db). bs_party_name b' = r_party_name r
                 \<and> remaining_due b' > 0 \<and> remaining_due b' \<ge> r_amount r
                 \<longrightarrow> bs_bill_date b \<le> bs_bill_date b')
          \<and> map_loop_odbc [r] db 0 = (set_bill_reference (bs_bill_no b) (receipt_id r) db, 1)
   else map_loop_odbc [r] db 0 = (db, 0)"
  using oldest_first_cases[of "filter (\<lambda>bs. bs_party_name bs = r_party_name r
      \<and> remaining_due bs > 0 \<and> remaining_due bs \<ge> r_amount r) (bill_status db)"]
  by (auto simp: matchingBills_odbc_def filter_empty_conv)

text \<open>
  One turn of the \<open>TallyETL\<close> loop: the oldest bill of the party with something due that
  is dated no later than the receipt is the only one looked at.
\<close>

lemma turn_etl:
  "if \<exists>bs \<in> set (bill_status db). bs_party_name bs = r_party_name r
         \<and> remaining_due bs > 0 \<and> bs_bill_date bs \<le> receipt_date r
   then \<exists>b \<in> set (bill_status db). bs_party_name b = r_party_name r
          \<and> remaining_due b > 0 \<and> bs_bill_date b \<le> receipt_date r
          \<and> (\<forall>b' \<in> set (bill_status db). bs_party_name b' = r_party_name r
                 \<and> remaining_due b' > 0 \<and> bs_bill_date b' \<le> receipt_date r
                 \<longrightarrow> bs_bill_date b \<le> bs_bill_date b')
          \<and> map_loop_etl [r] db 0 =
               (if numeric_text (remaining_due b) \<ge> numeric_text (r_amount r)
                then (set_bill_reference (bs_bill_no b) (receipt_id r) db, 1) else (db, 0))
   else map_loop_etl [r] db 0 = (db, 0)"
  using oldest_first_cases[of "filter (\<lambda>bs. bs_party_name bs = r_party_name r
      \<and> remaining_due bs > 0 \<and> bs_bill_date bs \<le> receipt_date r) (bill_status db)"]
  by (auto simp: candidateBill_etl_def filter_empty_conv)

lemma turn_etl_one_bill:
  "if \<exists>bs \<in> set (bill_status db). bs_party_name bs = r_party_name r
         \<and> remaining_due bs > 0 \<and> bs_bill_date bs \<le> receipt_date r
   then \<exists>b \<in> set (bill_status db). bs_party_name b = r_party_name r
          \<and> remaining_due b > 0 \<and> bs_bill_date b \<le> receipt_date r
          \<and> (\<forall>b' \<in> set (bill_status db). bs_party_name b' = r_party_name r
                 \<and> remaining_due b' > 0 \<and> bs_bill_date b' \<le> receipt_date r
                 \<longrightarrow> bs_bill_date b \<le> bs_bill_date b')
          \<and> (map_loop_etl [r] db 0 = (set_bill_reference (bs_bill_no b) (receipt_id r) db, 1)
               \<or> map_loop_etl [r] db 0 = (db, 0))
   else map_loop_etl [r] db 0 = (db, 0)"
proof (cases "\<exists>bs \<in> set (bill_status db). bs_party_name bs = r_party_name r
         \<and> remaining_due bs > 0 \<and> bs_bill_date bs \<le> receipt_date r")
  case False
  with turn_etl[of db r] show ?thesis by (simp only: if_False)
next
  case True
  with turn_etl[of db r] obtain b where b: "b \<in> set (bill_status db)"
      "bs_party_name b = r_party_name r" "remaining_due b > 0" "bs_bill_date b \<le> receipt_date r"
      "\<forall>b' \<in> set (bill_status db). bs_party_name b' = r_party_name r
                 \<and> remaining_due b' > 0 \<and> bs_bill_date b' \<le> receipt_date r
                 \<longrightarrow> bs_bill_date b \<le> bs_bill_date b'"
    and t: "map_loop_etl [r] db 0 =
               (if numeric_text (remaining_due b) \<ge> numeric_text (r_amount r)
                then (set_bill_reference (bs_bill_no b) (receipt_id r) db, 1) else (db, 0))"
    by (simp only: if_True) blast
  from t have "map_loop_etl [r] db 0 = (set_bill_reference (bs_bill_no b) (receipt_id r) db, 1)
               \<or> map_loop_etl [r] db 0 = (db, 0)"
    by (simp split: if_splits)
  with b have "\<exists>b \<in> set (bill_status db). bs_party_name b = r_party_name r
          \<and> remaining_due b > 0 \<and> bs_bill_date b \<le> receipt_date r
          \<and> (\<forall>b' \<in> set (bill_status db). bs_party_name b' = r_party_name r
                 \<and> remaining_due b' > 0 \<and> bs_bill_date b' \<le> receipt_date r
                 \<longrightarrow> bs_bill_date b \<le> bs_bill_date b')
          \<and> (map_loop_etl [r] db 0 = (set_bill_reference (bs_bill_no b) (receipt_id r) db, 1)
               \<or> map_loop_etl [r] db 0 = (db, 0))"
    by blast
  with True show ?thesis by (simp only: if_True)
qed

text \<open>Either loop is its turns one after the other, each on the store the last one left.\<close>

lemma map_loop_odbc_turns:
  "map_loop_odbc (r # rs) db n =
     (case map_loop_odbc [r] db 0 of (db', k) \<Rightarrow> map_loop_odbc rs db' (n + k))"
  by (auto split: list.splits)

lemma map_loop_etl_turns:
  "map_loop_etl (r # rs) db n =
     (case map_loop_etl [r] db 0 of (db', k) \<Rightarrow> map_loop_etl rs db' (n + k))"
  by (auto split: list.splits)

text \<open>
  In the ODBC engine the amount is tested by PostgreSQL, on numbers: a turn links the
  receipt only to a bill of its party whose remaining due covers the amount, and does
  nothing when no bill of the party with something due covers it.
\<close>

lemma no_partial_fit_odbc:
  "map_loop_odbc [r] db 0 = (db, 0)
    \<or> (\<exists>b \<in> set (bill_status db). bs_party_name b = r_party_name r
          \<and> remaining_due b \<ge> r_amount r
          \<and> map_loop_odbc [r] db 0 = (set_bill_reference (bs_bill_no b) (receipt_id r) db, 1))"
  using turn_odbc[of db r] by (auto split: if_splits)

lemma insufficient_odbc:
  assumes H: "\<forall>b \<in> set (bill_status db). bs_party_name b = r_party_name r \<and> remaining_due b > 0
          \<longrightarrow> remaining_due b < r_amount r"
  shows "map_loop_odbc [r] db 0 = (db, 0)"
proof -
  have no: "\<not> (\<exists>bs \<in> set (bill_status db). bs_party_name bs = r_party_name r
         \<and> remaining_due bs > 0 \<and> remaining_due bs \<ge> r_amount r)"
    using H by (meson not_le)
  from turn_odbc[of db r] no show "map_loop_odbc [r] db 0 = (db, 0)"
    by (simp only: if_False)
qed

text \<open>Evaluating the text of an amount.\<close>

lemma floor_divide_numeral_rat:
  "\<lfloor>numeral a / numeral b :: rat\<rfloor> = numeral a div numeral b"
  "\<lfloor>1 / numeral b :: rat\<rfloor> = 1 div numeral b"
  by (metis floor_divide_of_int_eq of_int_numeral, metis floor_divide_of_int_eq of_int_numeral of_int_1)

lemmas digits_eval =
  digits.simps[of "numeral k" for k] digits.simps[of 0] digits.simps[of 1]
  digits.simps[of "Suc 0"]

lemmas numeric_text_eval =
  numeric_text_def hundredths_def digit_char_def Let_def digits_eval floor_divide_numeral_rat

lemma pool_release_connect:
  "pool_connect pool = Some pool' \<Longrightarrow> pool_release pool' = pool"
  by (auto simp: pool_connect_def pool_release_def split: if_splits)

lemmas mapping_defs =
  autoMapReceipts_odbc_def unmappedReceipts_odbc_def matchingBills_odbc_def
  autoMapReceipts_etl_def unmappedReceipts_etl_def candidateBill_etl_def oldest_first_def
  bill_status_def bill_status_view_def bill_status_of_def receipt_totals_def
  set_bill_reference_def a_bill_def a_receipt_def
  pool_connect_def pool_release_def fresh_pool_def

text \<open>
  C5, as amended. When a receipt's turn comes, \<open>TallyODBCService.autoMapReceipts\<close> (and the
  XML service's copy of it) links it to a bill of the same party with \<open>remaining_due > 0\<close>
  and \<open>remaining_due \<ge> amount\<close> whose bill date is the earliest among such bills, and
  leaves it alone when there is none. \<open>TallyETL.autoMapReceipts\<close> looks at one bill only,
  the earliest-dated bill of the party with \<open>remaining_due > 0\<close> that is dated on or before
  the receipt, and links the receipt to that bill or to none. With B1 (date d1, due 500)
  and B2 (date d2 > d1, due 500) of one party and an unreferenced receipt of 500, both
  link the receipt to B1, the latter when the receipt is dated d1 or later and the pool
  has a client for it.
\<close>

theorem fifo_oldest_candidate:
  "(if \<exists>bs \<in> set (bill_status db). bs_party_name bs = r_party_name r
         \<and> remaining_due bs > 0 \<and> remaining_due bs \<ge> r_amount r
    then \<exists>b \<in> set (bill_status db). bs_party_name b = r_party_name r
          \<and> remaining_due b > 0 \<and> remaining_due b \<ge> r_amount r
          \<and> (\<forall>b' \<in> set (bill_status db). bs_party_name b' = r_party_name r
                 \<and> remaining_due b' > 0 \<and> remaining_due b' \<ge> r_amount r
                 \<longrightarrow> bs_bill_date b \<le> bs_bill_date b')
          \<and> map_loop_odbc [r] db 0 = (set_bill_reference (bs_bill_no b) (receipt_id r) db, 1)
    else map_loop_odbc [r] db 0 = (db, 0))
   \<and> (if \<exists>bs \<in> set (bill_status db). bs_party_name bs = r_party_name r
         \<and> remaining_due bs > 0 \<and> bs_bill_date bs \<le> receipt_date r
    then \<exists>b \<in> set (bill_status db). bs_party_name b = r_party_name r
          \<and> remaining_due b > 0 \<and> bs_bill_date b \<le> receipt_date r
          \<and> (\<forall>b' \<in> set (bill_status db). bs_party_name b' = r_party_name r
                 \<and> remaining_due b' > 0 \<and> bs_bill_date b' \<le> receipt_date r
                 \<longrightarrow> bs_bill_date b \<le> bs_bill_date b')
          \<and> (map_loop_etl [r] db 0 = (set_bill_reference (bs_bill_no b) (receipt_id r) db, 1)
               \<or> map_loop_etl [r] db 0 = (db, 0))
    else map_loop_etl [r] db 0 = (db, 0))
   \<and> (d1 < d2 \<longrightarrow>
        autoMapReceipts_odbc e
          \<lparr>bill_tbl = [a_bill ''B2'' d2 p 500, a_bill ''B1'' d1 p 500],
           receipt_tbl = [a_receipt ''R1'' d p 500 None]\<rparr>
        = (\<lparr>bill_tbl = [a_bill ''B2'' d2 p 500, a_bill ''B1'' d1 p 500],
            receipt_tbl = [a_receipt ''R1'' d p 500 (Some ''B1'')]\<rparr>, 1))
   \<and> (d1 < d2 \<and> d1 \<le> d \<and> checked_out pool < max_clients pool \<longrightarrow>
        autoMapReceipts_etl pool
          \<lparr>bill_tbl = [a_bill ''B2'' d2 p 500, a_bill ''B1'' d1 p 500],
           receipt_tbl = [a_receipt ''R1'' d p 500 None]\<rparr>
        = Some ((\<lparr>bill_tbl = [a_bill ''B2'' d2 p 500, a_bill ''B1'' d1 p 500],
                  receipt_tbl = [a_receipt ''R1'' d p 500 (Some ''B1'')]\<rparr>, 1), pool))"
proof (intro conjI)
  show "d1 < d2 \<longrightarrow>
        autoMapReceipts_odbc e
          \<lparr>bill_tbl = [a_bill ''B2'' d2 p 500, a_bill ''B1'' d1 p 500],
           receipt_tbl = [a_receipt ''R1'' d p 500 None]\<rparr>
        = (\<lparr>bill_tbl = [a_bill ''B2'' d2 p 500, a_bill ''B1'' d1 p 500],
            receipt_tbl = [a_receipt ''R1'' d p 500 (Some ''B1'')]\<rparr>, 1)"
    by (simp add: mapping_defs)
  show "d1 < d2 \<and> d1 \<le> d \<and> checked_out pool < max_clients pool \<longrightarrow>
        autoMapReceipts_etl pool
          \<lparr>bill_tbl = [a_bill ''B2'' d2 p 500, a_bill ''B1'' d1 p 500],
           receipt_tbl = [a_receipt ''R1'' d p 500 None]\<rparr>
        = Some ((\<lparr>bill_tbl = [a_bill ''B2'' d2 p 500, a_bill ''B1'' d1 p 500],
                  receipt_tbl = [a_receipt ''R1'' d p 500 (Some ''B1'')]\<rparr>, 1), pool)"
    by (simp add: mapping_defs)
qed (rule turn_odbc turn_etl_one_bill)+

theorem fifo_oldest_candidate_witness:
  "(1 :: date) < 2 \<and> (1 :: date) \<le> 3 \<and> checked_out fresh_pool < max_clients fresh_pool
   \<and> map_loop_odbc [a_receipt ''R1'' 3 ''P'' 500 None]
        \<lparr>bill_tbl = [a_bill ''B2'' 2 ''P'' 500, a_bill ''B1'' 1 ''P'' 500],
         receipt_tbl = [a_receipt ''R1'' 3 ''P'' 500 None]\<rparr> 0
      = (\<lparr>bill_tbl = [a_bill ''B2'' 2 ''P'' 500, a_bill ''B1'' 1 ''P'' 500],
          receipt_tbl = [a_receipt ''R1'' 3 ''P'' 500 (Some ''B1'')]\<rparr>, 1)
   \<and> autoMapReceipts_odbc True
        \<lparr>bill_tbl = [a_bill ''B2'' 2 ''P'' 500, a_bill ''B1'' 1 ''P'' 500],
         receipt_tbl = [a_receipt ''R1'' 3 ''P'' 500 None]\<rparr>
      = (\<lparr>bill_tbl = [a_bill ''B2'' 2 ''P'' 500, a_bill ''B1'' 1 ''P'' 500],
          receipt_tbl = [a_receipt ''R1'' 3 ''P'' 500 (Some ''B1'')]\<rparr>, 1)
   \<and> autoMapReceipts_etl fresh_pool
        \<lparr>bill_tbl = [a_bill ''B2'' 2 ''P'' 500, a_bill ''B1'' 1 ''P'' 500],
         receipt_tbl = [a_receipt ''R1'' 3 ''P'' 500 None]\<rparr>
      = Some ((\<lparr>bill_tbl = [a_bill ''B2'' 2 ''P'' 500, a_bill ''B1'' 1 ''P'' 500],
                receipt_tbl = [a_receipt ''R1'' 3 ''P'' 500 (Some ''B1'')]\<rparr>, 1), fresh_pool)"
proof -
  note t = fifo_oldest_candidate[where
      db = "\<lparr>bill_tbl = [a_bill ''B2'' 2 ''P'' 500, a_bill ''B1'' 1 ''P'' 500],
        receipt_tbl = [a_receipt ''R1'' 3 ''P'' 500 None]\<rparr>"
      and r = "a_receipt ''R1'' 3 ''P'' 500 None" and ?d1.0 = 1 and ?d2.0 = 2 and e = True
      and p = "''P''" and d = 3 and pool = fresh_pool]
  have free: "checked_out fresh_pool < max_clients fresh_pool"
    by (simp add: fresh_pool_def)
  have odbc: "autoMapReceipts_odbc True
        \<lparr>bill_tbl = [a_bill ''B2'' 2 ''P'' 500, a_bill ''B1'' 1 ''P'' 500],
         receipt_tbl = [a_receipt ''R1'' 3 ''P'' 500 None]\<rparr>
      = (\<lparr>bill_tbl = [a_bill ''B2'' 2 ''P'' 500, a_bill ''B1'' 1 ''P'' 500],
          receipt_tbl = [a_receipt ''R1'' 3 ''P'' 500 (Some ''B1'')]\<rparr>, 1)"
    using t[THEN conjunct2, THEN conjunct2, THEN conjunct1] by simp
  have etl: "autoMapReceipts_etl fresh_pool
        \<lparr>bill_tbl = [a_bill ''B2'' 2 ''P'' 500, a_bill ''B1'' 1 ''P'' 500],
         receipt_tbl = [a_receipt ''R1'' 3 ''P'' 500 None]\<rparr>
      = Some ((\<lparr>bill_tbl = [a_bill ''B2'' 2 ''P'' 500, a_bill ''B1'' 1 ''P'' 500],
                receipt_tbl = [a_receipt ''R1'' 3 ''P'' 500 (Some ''B1'')]\<rparr>, 1), fresh_pool)"
    using t[THEN conjunct2, THEN conjunct2, THEN conjunct2] free by simp
  have turn: "map_loop_odbc [a_receipt ''R1'' 3 ''P'' 500 None]
        \<lparr>bill_tbl = [a_bill ''B2'' 2 ''P'' 500, a_bill ''B1'' 1 ''P'' 500],
         receipt_tbl = [a_receipt ''R1'' 3 ''P'' 500 None]\<rparr> 0
      = (\<lparr>bill_tbl = [a_bill ''B2'' 2 ''P'' 500, a_bill ''B1'' 1 ''P'' 500],
          receipt_tbl = [a_receipt ''R1'' 3 ''P'' 500 (Some ''B1'')]\<rparr>, 1)"
    by (simp add: mapping_defs)
  show ?thesis using odbc etl turn free by simp
qed

text \<open>
  The claim as stated fails for \<open>TallyETL.autoMapReceipts\<close>. In its own example, a
  receipt dated before B1 finds no candidate and stays unmapped. And with B1 (due 300)
  older than B2 (due 500), a receipt of 500 dated after both is left unmapped, because
  only B1 is looked at, although B2 is the earliest bill that passes the eligibility rule;
  the ODBC engine links that receipt to B2.
\<close>

theorem fifo_oldest_eligible_counterexample:
  "autoMapReceipts_etl fresh_pool
     \<lparr>bill_tbl = [a_bill ''B1'' 10 ''P'' 500, a_bill ''B2'' 20 ''P'' 500],
      receipt_tbl = [a_receipt ''R1'' 5 ''P'' 500 None]\<rparr>
   = Some ((\<lparr>bill_tbl = [a_bill ''B1'' 10 ''P'' 500, a_bill ''B2'' 20 ''P'' 500],
             receipt_tbl = [a_receipt ''R1'' 5 ''P'' 500 None]\<rparr>, 0), fresh_pool)
   \<and> autoMapReceipts_etl fresh_pool
     \<lparr>bill_tbl = [a_bill ''B1'' 1 ''P'' 300, a_bill ''B2'' 2 ''P'' 500],
      receipt_tbl = [a_receipt ''R1'' 3 ''P'' 500 None]\<rparr>
   = Some ((\<lparr>bill_tbl = [a_bill ''B1'' 1 ''P'' 300, a_bill ''B2'' 2 ''P'' 500],
             receipt_tbl = [a_receipt ''R1'' 3 ''P'' 500 None]\<rparr>, 0), fresh_pool)
   \<and> autoMapReceipts_odbc True
     \<lparr>bill_tbl = [a_bill ''B1'' 1 ''P'' 300, a_bill ''B2'' 2 ''P'' 500],
      receipt_tbl = [a_receipt ''R1'' 3 ''P'' 500 None]\<rparr>
   = (\<lparr>bill_tbl = [a_bill ''B1'' 1 ''P'' 300, a_bill ''B2'' 2 ''P'' 500],
       receipt_tbl = [a_receipt ''R1'' 3 ''P'' 500 (Some ''B2'')]\<rparr>, 1)"
  by (simp add: mapping_defs numeric_text_eval)

text \<open>
  C6. An engine links a receipt only to a bill whose remaining due is at least the
  receipt's amount, and leaves unmapped a receipt whose amount exceeds the remaining due of
  every candidate bill of its party.

  \<open>TallyODBCService.autoMapReceipts\<close> does so (\<open>no_partial_fit_odbc\<close>,
  \<open>insufficient_odbc\<close>). \<open>TallyETL.autoMapReceipts\<close> misses it: it makes the test in
  JavaScript, on the texts of the two amounts, and as texts \<open>500.00\<close> is not below
  \<open>1000.00\<close>. A receipt of 1000 against the only bill B1, with 500 due, is linked to B1,
  where the ODBC engine leaves it unmapped. The example of the claim, 700 against two bills
  with 500 due each, stays unmapped in both, the two texts being of one length.
\<close>

theorem partial_fit_by_text_comparison:
  "numeric_text 500 = ''500.00'' \<and> numeric_text 1000 = ''1000.00''
   \<and> autoMapReceipts_etl fresh_pool
       \<lparr>bill_tbl = [a_bill ''B1'' 1 ''P'' 500],
        receipt_tbl = [a_receipt ''R1'' 2 ''P'' 1000 None]\<rparr>
     = Some ((\<lparr>bill_tbl = [a_bill ''B1'' 1 ''P'' 500],
               receipt_tbl = [a_receipt ''R1'' 2 ''P'' 1000 (Some ''B1'')]\<rparr>, 1), fresh_pool)
   \<and> autoMapReceipts_odbc True
       \<lparr>bill_tbl = [a_bill ''B1'' 1 ''P'' 500],
        receipt_tbl = [a_receipt ''R1'' 2 ''P'' 1000 None]\<rparr>
     = (\<lparr>bill_tbl = [a_bill ''B1'' 1 ''P'' 500],
         receipt_tbl = [a_receipt ''R1'' 2 ''P'' 1000 None]\<rparr>, 0)
   \<and> autoMapReceipts_etl fresh_pool
       \<lparr>bill_tbl = [a_bill ''B1'' 1 ''P'' 500, a_bill ''B2'' 2 ''P'' 500],
        receipt_tbl = [a_receipt ''R1'' 3 ''P'' 700 None]\<rparr>
     = Some ((\<lparr>bill_tbl = [a_bill ''B1'' 1 ''P'' 500, a_bill ''B2'' 2 ''P'' 500],
               receipt_tbl = [a_receipt ''R1'' 3 ''P'' 700 None]\<rparr>, 0), fresh_pool)
   \<and> autoMapReceipts_odbc True
       \<lparr>bill_tbl = [a_bill ''B1'' 1 ''P'' 500, a_bill ''B2'' 2 ''P'' 500],
        receipt_tbl = [a_receipt ''R1'' 3 ''P'' 700 None]\<rparr>
     = (\<lparr>bill_tbl = [a_bill ''B1'' 1 ''P'' 500, a_bill ''B2'' 2 ''P'' 500],
         receipt_tbl = [a_receipt ''R1'' 3 ''P'' 700 None]\<rparr>, 0)"
  by (simp add: mapping_defs numeric_text_eval)

section \<open>Idempotent upsert\<close>

subsection \<open>The upsert statement in general\<close>

lemma keys_map_sc:
  assumes K: "\<And>e b. key (sc e b) = key b"
  shows "key ` set (map (\<lambda>old. if P old then sc e old else old) T) = key ` set T"
  by (induction T) (simp_all add: K)

lemma keys_iocu:
  assumes K: "\<And>e b. key (sc e b) = key b"
  shows "key ` set (insert_on_conflict_update key sc e T) = insert (key e) (key ` set T)"
proof (cases "key e \<in> key ` set T")
  case True
  then show ?thesis
    unfolding insert_on_conflict_update_def
    by (simp only: if_True keys_map_sc[where key=key and sc=sc, OF K] insert_absorb)
next
  case False
  then show ?thesis
    unfolding insert_on_conflict_update_def by simp
qed

lemma keys_upsert_all:
  assumes K: "\<And>e b. key (sc e b) = key b"
  shows "key ` set (upsert_all key sc es T) = key ` set es \<union> key ` set T"
proof (induction es arbitrary: T)
  case Nil
  then show ?case by (simp add: upsert_all_def)
next
  case (Cons e es)
  have "upsert_all key sc (e # es) T = upsert_all key sc es (insert_on_conflict_update key sc e T)"
    by (simp add: upsert_all_def)
  then show ?case
    by (simp add: Cons.IH keys_iocu[where key=key and sc=sc, OF K])
qed

lemma key_overwritten:
  assumes K: "\<And>e b. key (sc e b) = key b"
  shows "key (overwritten key sc es b) = key b"
  unfolding overwritten_def
  by (induction es arbitrary: b) (simp_all add: K)

lemma upsert_all_covered:
  assumes K: "\<And>e b. key (sc e b) = key b"
    and cov: "key ` set es \<subseteq> key ` set T"
  shows "upsert_all key sc es T = map (overwritten key sc es) T"
  using cov
proof (induction es arbitrary: T)
  case Nil
  then show ?case by (simp add: upsert_all_def overwritten_def)
next
  case (Cons e es)
  let ?f = "\<lambda>old. if key old = key e then sc e old else old"
  have step: "insert_on_conflict_update key sc e T = map ?f T"
    using Cons.prems by (simp add: insert_on_conflict_update_def)
  have keys: "key ` set (map ?f T) = key ` set T"
    by (rule keys_map_sc[where key=key and sc=sc, OF K])
  have cov': "key ` set es \<subseteq> key ` set (map ?f T)"
    using Cons.prems unfolding keys by simp
  have "upsert_all key sc (e # es) T = upsert_all key sc es (map ?f T)"
    by (simp add: upsert_all_def step)
  also have "\<dots> = map (overwritten key sc es) (map ?f T)"
    by (rule Cons.IH[OF cov'])
  also have "\<dots> = map (overwritten key sc (e # es)) T"
    by (simp add: overwritten_def)
  finally show ?case .
qed

lemma last_with_snoc:
  "last_with key (es @ [e]) k = (if key e = k then Some e else last_with key es k)"
  by (simp add: last_with_def)

lemma overwritten_snoc:
  "overwritten key sc (es @ [e]) b =
     (if key (overwritten key sc es b) = key e then sc e (overwritten key sc es b)
      else overwritten key sc es b)"
  by (simp add: overwritten_def)

lemma overwritten_last:
  assumes K: "\<And>e b. key (sc e b) = key b"
    and O: "\<And>e e' b. sc e (sc e' b) = sc e b"
  shows "overwritten key sc es b =
     (case last_with key es (key b) of None \<Rightarrow> b | Some e \<Rightarrow> sc e b)"
proof (induction es rule: rev_induct)
  case Nil
  then show ?case by (simp add: overwritten_def last_with_def)
next
  case (snoc e es)
  have k: "key (overwritten key sc es b) = key b"
    by (rule key_overwritten[where key=key and sc=sc, OF K])
  show ?case
  proof (cases "key e = key b")
    case True
    have "overwritten key sc (es @ [e]) b = sc e (overwritten key sc es b)"
      using True k by (simp add: overwritten_snoc)
    also have "\<dots> = sc e (case last_with key es (key b) of None \<Rightarrow> b | Some x \<Rightarrow> sc x b)"
      by (simp only: snoc)
    also have "\<dots> = sc e b"
      by (cases "last_with key es (key b)") (simp_all add: O)
    finally show ?thesis
      using True by (simp add: last_with_snoc)
  next
    case False
    then have "overwritten key sc (es @ [e]) b = overwritten key sc es b"
      using k by (simp add: overwritten_snoc)
    then show ?thesis
      using False by (simp add: snoc last_with_snoc)
  qed
qed

lemma in_iocu:
  assumes K: "\<And>e b. key (sc e b) = key b"
    and b: "b \<in> set (insert_on_conflict_update key sc e T)"
  shows "(key b = key e \<and> ((\<exists>old \<in> set T. b = sc e old) \<or> b = e))
         \<or> (key b \<noteq> key e \<and> b \<in> set T)"
proof (cases "key e \<in> key ` set T")
  case True
  with b obtain old where old: "old \<in> set T"
    and eq: "b = (if key old = key e then sc e old else old)"
    by (auto simp: insert_on_conflict_update_def)
  show ?thesis
  proof (cases "key old = key e")
    case True
    with eq old show ?thesis by (auto simp: K)
  next
    case False
    with eq old show ?thesis by auto
  qed
next
  case False
  with b have "b \<in> set T \<or> b = e"
    by (auto simp: insert_on_conflict_update_def)
  moreover have "b \<in> set T \<Longrightarrow> key b \<noteq> key e"
    using False by (metis imageI)
  ultimately show ?thesis by blast
qed

lemma upsert_all_snoc:
  "upsert_all key sc (es @ [e]) T = insert_on_conflict_update key sc e (upsert_all key sc es T)"
  by (simp add: upsert_all_def)

lemma upsert_all_stable:
  assumes K: "\<And>e b. key (sc e b) = key b"
    and O: "\<And>e e' b. sc e (sc e' b) = sc e b"
    and N: "\<And>e. sc e e = e"
  shows "b \<in> set (upsert_all key sc es T) \<Longrightarrow> last_with key es (key b) = Some e0 \<Longrightarrow> sc e0 b = b"
proof (induction es arbitrary: b e0 rule: rev_induct)
  case Nil
  then show ?case by (simp add: last_with_def)
next
  case (snoc e es)
  from snoc.prems(1) have mem: "b \<in> set (insert_on_conflict_update key sc e (upsert_all key sc es T))"
    by (simp only: upsert_all_snoc)
  from in_iocu[where key=key and sc=sc, OF K mem]
  consider (same) "key b = key e"
      "(\<exists>old \<in> set (upsert_all key sc es T). b = sc e old) \<or> b = e"
    | (other) "key b \<noteq> key e" "b \<in> set (upsert_all key sc es T)"
    by blast
  then show ?case
  proof cases
    case same
    have "e0 = e" using snoc.prems(2) same(1) by (simp add: last_with_snoc)
    with same(2) show ?thesis by (auto simp: O N)
  next
    case other
    have "last_with key es (key b) = Some e0"
      using snoc.prems(2) other(1) by (simp add: last_with_snoc)
    from snoc.IH[OF other(2) this] show ?thesis .
  qed
qed

lemma upsert_all_idem:
  assumes K: "\<And>e b. key (sc e b) = key b"
    and O: "\<And>e e' b. sc e (sc e' b) = sc e b"
    and N: "\<And>e. sc e e = e"
  shows "upsert_all key sc es (upsert_all key sc es T) = upsert_all key sc es T"
proof -
  let ?T = "upsert_all key sc es T"
  have cov: "key ` set es \<subseteq> key ` set ?T"
    by (simp add: keys_upsert_all[where key=key and sc=sc, OF K])
  have "upsert_all key sc es ?T = map (overwritten key sc es) ?T"
    by (rule upsert_all_covered[where key=key and sc=sc, OF K cov])
  also have "\<dots> = map (\<lambda>b. b) ?T"
  proof (rule map_cong[OF refl])
    fix b assume b: "b \<in> set ?T"
    show "overwritten key sc es b = b"
    proof (cases "last_with key es (key b)")
      case None
      then show ?thesis
        by (simp add: overwritten_last[where key=key and sc=sc, OF K O])
    next
      case (Some e0)
      from upsert_all_stable[where key=key and sc=sc, OF K O N b Some] Some
      show ?thesis
        by (simp add: overwritten_last[where key=key and sc=sc, OF K O])
    qed
  qed
  finally show ?thesis by simp
qed

lemma upsert_all_cong_covered:
  assumes K: "\<And>e b. key (sc e b) = key b"
    and rel: "list_all2 (\<lambda>e e'. key e = key e' \<and> sc e = sc e') es es'"
    and cov: "key ` set es \<subseteq> key ` set T"
  shows "upsert_all key sc es T = upsert_all key sc es' T"
  using rel cov
proof (induction es es' arbitrary: T rule: list_all2_induct)
  case Nil
  then show ?case by simp
next
  case (Cons e es e' es')
  have s: "insert_on_conflict_update key sc e T = insert_on_conflict_update key sc e' T"
    using Cons.hyps(1) Cons.prems by (simp add: insert_on_conflict_update_def)
  have "key ` set es \<subseteq> key ` set (insert_on_conflict_update key sc e T)"
    using Cons.prems by (auto simp: keys_iocu[where key=key and sc=sc, OF K])
  from Cons.IH[OF this] show ?case
    by (simp add: upsert_all_def s)
qed

lemma upsert_loop_all:
  "upsert_loop (\<lambda>row tbl. map_option (\<lambda>e. insert_on_conflict_update key sc e tbl) (prop row)) rows tbl n =
     (if \<forall>row \<in> set rows. prop row \<noteq> None
      then Some (upsert_all key sc (map (\<lambda>row. the (prop row)) rows) tbl, n + length rows)
      else None)"
proof (induction rows arbitrary: tbl n)
  case Nil
  then show ?case by (simp add: upsert_all_def)
next
  case (Cons row rows)
  show ?case
  proof (cases "prop row")
    case None
    then show ?thesis by simp
  next
    case (Some e)
    then show ?thesis by (simp add: Cons.IH upsert_all_def)
  qed
qed

lemma upsert_all_stamp:
  assumes K: "\<And>e b. key (sc e b) = key b"
    and S: "\<And>e old. f (sc e old) = f e"
  shows "b \<in> set (upsert_all key sc es T) \<Longrightarrow> key b \<in> key ` set es \<Longrightarrow> f b \<in> f ` set es"
proof (induction es arbitrary: b rule: rev_induct)
  case Nil
  then show ?case by simp
next
  case (snoc e es)
  from snoc.prems(1) have mem: "b \<in> set (insert_on_conflict_update key sc e (upsert_all key sc es T))"
    by (simp only: upsert_all_snoc)
  from in_iocu[where key=key and sc=sc, OF K mem]
  consider (same) "(\<exists>old \<in> set (upsert_all key sc es T). b = sc e old) \<or> b = e"
    | (other) "key b \<noteq> key e" "b \<in> set (upsert_all key sc es T)"
    by blast
  then show ?case
  proof cases
    case same
    then have "f b = f e" by (auto simp: S)
    then show ?thesis by simp
  next
    case other
    with snoc.prems(2) have "key b \<in> key ` set es" by auto
    from snoc.IH[OF other(2) this] show ?thesis by auto
  qed
qed

lemma distinct_iocu:
  assumes K: "\<And>e b. key (sc e b) = key b"
    and d: "distinct (map key T)"
  shows "distinct (map key (insert_on_conflict_update key sc e T))"
proof (cases "key e \<in> key ` set T")
  case True
  have m: "map key (map (\<lambda>old. if key old = key e then sc e old else old) T) = map key T"
    by (induction T) (simp_all add: K)
  show ?thesis
    unfolding insert_on_conflict_update_def using True d by (simp only: if_True m)
next
  case False
  with d show ?thesis by (simp add: insert_on_conflict_update_def)
qed

lemma distinct_upsert_all:
  assumes K: "\<And>e b. key (sc e b) = key b"
  shows "distinct (map key T) \<Longrightarrow> distinct (map key (upsert_all key sc es T))"
proof (induction es arbitrary: T)
  case Nil
  then show ?case by (simp add: upsert_all_def)
next
  case (Cons e es)
  have "upsert_all key sc (e # es) T = upsert_all key sc es (insert_on_conflict_update key sc e T)"
    by (simp add: upsert_all_def)
  with Cons.IH[OF distinct_iocu[where key=key and sc=sc, OF K Cons.prems]]
  show ?case by simp
qed

text \<open>Blanking a column commutes with the upserts when the set clause does.\<close>

lemma upsert_all_blank:
  assumes K: "\<And>e b. key (sc e b) = key b"
    and Z: "\<And>b. key (z b) = key b"
    and C: "\<And>e b. z (sc e b) = sc (z e) (z b)"
  shows "map z (upsert_all key sc es T) = upsert_all key sc (map z es) (map z T)"
proof (induction es arbitrary: T)
  case Nil
  then show ?case by (simp add: upsert_all_def)
next
  case (Cons e es)
  have keys: "key ` set (map z T) = key ` set T"
    by (induction T) (simp_all add: Z)
  have step: "map z (insert_on_conflict_update key sc e T)
      = insert_on_conflict_update key sc (z e) (map z T)"
    by (simp add: insert_on_conflict_update_def keys Z C del: set_map)
  have "map z (upsert_all key sc (e # es) T)
      = map z (upsert_all key sc es (insert_on_conflict_update key sc e T))"
    by (simp add: upsert_all_def)
  also have "\<dots> = upsert_all key sc (map z es) (map z (insert_on_conflict_update key sc e T))"
    by (rule Cons.IH)
  also have "\<dots> = upsert_all key sc (map z (e # es)) (map z T)"
    by (simp add: step upsert_all_def)
  finally show ?case .
qed

text \<open>
  Two runs of the same proposed rows, the second with other values in columns that the
  set clause does not read and the blanking removes: after blanking, the second run
  changes nothing.
\<close>

lemma upsert_all_twice:
  assumes K: "\<And>e b. key (sc e b) = key b"
    and O: "\<And>e e' b. sc e (sc e' b) = sc e b"
    and N: "\<And>e. sc e e = e"
    and Z: "\<And>b. key (z b) = key b"
    and C: "\<And>e b. z (sc e b) = sc (z e) (z b)"
    and rel: "list_all2 (\<lambda>e e'. key e = key e' \<and> sc (z e) = sc (z e')) es2 es1"
  shows "map z (upsert_all key sc es2 (upsert_all key sc es1 T)) = map z (upsert_all key sc es1 T)"
proof -
  let ?T1 = "upsert_all key sc (map z es1) (map z T)"
  have T1: "map z (upsert_all key sc es1 T) = ?T1"
    by (rule upsert_all_blank[where key=key and sc=sc, OF K Z C])
  have rel': "list_all2 (\<lambda>e e'. key e = key e' \<and> sc e = sc e') (map z es2) (map z es1)"
    using rel by (simp add: list_all2_map1 list_all2_map2 Z)
  have keys: "key ` set (map z es2) = key ` set (map z es1)"
    using rel' by (induction rule: list_all2_induct) auto
  have cov: "key ` set (map z es2) \<subseteq> key ` set ?T1"
    unfolding keys by (simp add: keys_upsert_all[where key=key and sc=sc, OF K] del: set_map)
  have "map z (upsert_all key sc es2 (upsert_all key sc es1 T))
      = upsert_all key sc (map z es2) (map z (upsert_all key sc es1 T))"
    by (rule upsert_all_blank[where key=key and sc=sc, OF K Z C])
  also have "\<dots> = upsert_all key sc (map z es2) ?T1"
    by (simp only: T1)
  also have "\<dots> = upsert_all key sc (map z es1) ?T1"
    by (rule upsert_all_cong_covered[where key=key and sc=sc, OF K rel' cov])
  also have "\<dots> = ?T1"
    by (rule upsert_all_idem[where key=key and sc=sc, OF K O N])
  finally show ?thesis by (simp only: T1)
qed

lemma length_upsert_all_covered:
  assumes K: "\<And>e b. key (sc e b) = key b"
    and cov: "key ` set es \<subseteq> key ` set T"
  shows "length (upsert_all key sc es T) = length T"
  by (simp add: upsert_all_covered[where key=key and sc=sc, OF K cov])

subsection \<open>Bills\<close>

lemma set_clause_bill_laws:
  "bill_no (set_clause_bill e b) = bill_no b"
  "set_clause_bill e (set_clause_bill e' b) = set_clause_bill e b"
  "set_clause_bill e e = e"
  "last_sync_ts (set_clause_bill e b) = last_sync_ts e"
  "(set_clause_bill e b)\<lparr>last_sync_ts := 0\<rparr>
     = set_clause_bill (e\<lparr>last_sync_ts := 0\<rparr>) (b\<lparr>last_sync_ts := 0\<rparr>)"
  by (simp_all add: set_clause_bill_def)

lemma varchar_Some: "varchar n s = Some t \<Longrightarrow> t = s"
  by (simp add: varchar_def split: if_splits)

lemma proposed_bill_Some:
  "proposed_bill now row = Some e \<Longrightarrow>
     rb_bill_no row = Some (bill_no e) \<and> rb_bill_date row = Some (bill_date e)
     \<and> rb_party_name row = Some (party_name e)
     \<and> Option.bind (rb_amount row) decimal_15_2 = Some (amount e)
     \<and> last_sync_ts e = now \<and> created_at e = now"
  by (auto simp: proposed_bill_def bind_eq_Some_conv split: option.splits dest: varchar_Some)

lemma proposed_bill_None_iff:
  "proposed_bill t1 row = None \<longleftrightarrow> proposed_bill t2 row = None"
  by (auto simp: proposed_bill_def split: option.splits)

lemma syncBills_Some:
  "syncBills (Some rows) now db =
     (if rows = [] then (Inr 0, db)
      else if \<forall>row \<in> set rows. proposed_bill now row \<noteq> None
      then (Inr (length rows),
            db\<lparr>bill_tbl := upsert_all bill_no set_clause_bill (proposed_bills now rows) (bill_tbl db)\<rparr>)
      else (Inl RolledBack, db))"
proof -
  have u: "upsert_bill now =
      (\<lambda>row tbl. map_option (\<lambda>e. insert_on_conflict_update bill_no set_clause_bill e tbl)
         (proposed_bill now row))"
    by (intro ext) (simp add: upsert_bill_def)
  show ?thesis
    unfolding syncBills_def u upsert_loop_all proposed_bills_def by auto
qed

lemma proposed_bills_rel:
  assumes "\<forall>row \<in> set rows. proposed_bill t1 row \<noteq> None"
  shows "list_all2 (\<lambda>e e'. bill_no e = bill_no e'
            \<and> set_clause_bill (e\<lparr>last_sync_ts := 0\<rparr>) = set_clause_bill (e'\<lparr>last_sync_ts := 0\<rparr>))
           (proposed_bills t2 rows) (proposed_bills t1 rows)"
  using assms
proof (induction rows)
  case Nil
  then show ?case by (simp add: proposed_bills_def)
next
  case (Cons row rows)
  from Cons.prems obtain e1 where e1: "proposed_bill t1 row = Some e1" by auto
  then obtain e2 where e2: "proposed_bill t2 row = Some e2"
    using proposed_bill_None_iff[of t2 row t1] by (cases "proposed_bill t2 row") auto
  have "bill_no e2 = bill_no e1"
    using proposed_bill_Some[OF e1] proposed_bill_Some[OF e2] by simp
  moreover have "set_clause_bill (e2\<lparr>last_sync_ts := 0\<rparr>) = set_clause_bill (e1\<lparr>last_sync_ts := 0\<rparr>)"
    using proposed_bill_Some[OF e1] proposed_bill_Some[OF e2]
    by (intro ext) (simp add: set_clause_bill_def)
  ultimately show ?case
    using Cons e1 e2 by (simp add: proposed_bills_def)
qed

lemma bills_twice:
  assumes v: "\<forall>row \<in> set rows. proposed_bill t1 row \<noteq> None"
  shows "bills_but_sync_ts (upsert_all bill_no set_clause_bill (proposed_bills t2 rows)
            (upsert_all bill_no set_clause_bill (proposed_bills t1 rows) T))
         = bills_but_sync_ts (upsert_all bill_no set_clause_bill (proposed_bills t1 rows) T)"
  unfolding bills_but_sync_ts_def
  by (rule upsert_all_twice[where key=bill_no and sc=set_clause_bill
        and z="\<lambda>b. b\<lparr>last_sync_ts := 0\<rparr>", OF _ _ _ _ _ proposed_bills_rel[OF v]])
     (simp_all add: set_clause_bill_laws)

lemma keys_proposed_bills:
  assumes v: "\<forall>row \<in> set rows. proposed_bill now row \<noteq> None"
  shows "Some ` bill_no ` set (proposed_bills now rows) = rb_bill_no ` set rows"
  using v
proof (induction rows)
  case Nil
  then show ?case by (simp add: proposed_bills_def)
next
  case (Cons row rows)
  from Cons.prems obtain e where e: "proposed_bill now row = Some e" by auto
  from Cons.prems have "Some ` bill_no ` set (proposed_bills now rows) = rb_bill_no ` set rows"
    by (intro Cons.IH) simp
  then show ?case
    using proposed_bill_Some[OF e] e by (simp add: proposed_bills_def)
qed

lemma stamp_proposed_bills:
  assumes v: "\<forall>row \<in> set rows. proposed_bill now row \<noteq> None"
  shows "last_sync_ts ` set (proposed_bills now rows) \<subseteq> {now}"
  using v
proof (induction rows)
  case Nil
  then show ?case by (simp add: proposed_bills_def)
next
  case (Cons row rows)
  from Cons.prems obtain e where e: "proposed_bill now row = Some e" by auto
  from Cons.prems have "last_sync_ts ` set (proposed_bills now rows) \<subseteq> {now}"
    by (intro Cons.IH) simp
  then show ?case
    using proposed_bill_Some[OF e] e by (simp add: proposed_bills_def)
qed

lemma syncBills_twice:
  "fst (syncBills result t2 (snd (syncBills result t1 db))) = fst (syncBills result t1 db)
   \<and> bills_but_sync_ts (bill_tbl (snd (syncBills result t2 (snd (syncBills result t1 db)))))
       = bills_but_sync_ts (bill_tbl (snd (syncBills result t1 db)))
   \<and> length (bill_tbl (snd (syncBills result t2 (snd (syncBills result t1 db)))))
       = length (bill_tbl (snd (syncBills result t1 db)))
   \<and> receipt_tbl (snd (syncBills result t2 (snd (syncBills result t1 db)))) = receipt_tbl db"
proof (cases result)
  case None
  then show ?thesis by (simp add: syncBills_def)
next
  case (Some rows)
  show ?thesis
  proof (cases "rows \<noteq> [] \<and> (\<forall>row \<in> set rows. proposed_bill t1 row \<noteq> None)")
    case False
    then show ?thesis
      using proposed_bill_None_iff[of t1 _ t2] unfolding Some syncBills_Some by auto
  next
    case True
    then have v1: "\<forall>row \<in> set rows. proposed_bill t1 row \<noteq> None"
      and v2: "\<forall>row \<in> set rows. proposed_bill t2 row \<noteq> None"
      using proposed_bill_None_iff[of t1 _ t2] by auto
    let ?T1 = "upsert_all bill_no set_clause_bill (proposed_bills t1 rows) (bill_tbl db)"
    have "bill_no ` set (proposed_bills t2 rows) = bill_no ` set (proposed_bills t1 rows)"
      using keys_proposed_bills[OF v1] keys_proposed_bills[OF v2]
      by (metis inj_Some inj_image_eq_iff)
    then have cov: "bill_no ` set (proposed_bills t2 rows) \<subseteq> bill_no ` set ?T1"
      by (simp add: keys_upsert_all[where key=bill_no and sc=set_clause_bill]
          set_clause_bill_laws)
    have len: "length (upsert_all bill_no set_clause_bill (proposed_bills t2 rows) ?T1) = length ?T1"
      by (rule length_upsert_all_covered[where key=bill_no and sc=set_clause_bill, OF _ cov])
         (simp add: set_clause_bill_laws)
    show ?thesis
      using True v1 v2 bills_twice[OF v1, of t2 "bill_tbl db"] len
      unfolding Some syncBills_Some by simp
  qed
qed


lemma syncBills_distinct:
  assumes d: "distinct (map bill_no (bill_tbl db))"
  shows "distinct (map bill_no (bill_tbl (snd (syncBills result now db))))"
proof (cases result)
  case None
  with d show ?thesis by (simp add: syncBills_def)
next
  case (Some rows)
  have "distinct (map bill_no
      (upsert_all bill_no set_clause_bill (proposed_bills now rows) (bill_tbl db)))"
    by (rule distinct_upsert_all[where key=bill_no and sc=set_clause_bill, OF _ d])
       (simp add: set_clause_bill_laws)
  with d show ?thesis
    unfolding Some syncBills_Some by simp
qed

lemma syncBills_stamp:
  assumes ok: "fst (syncBills (Some rows) now db) = Inr n"
    and b: "b \<in> set (bill_tbl (snd (syncBills (Some rows) now db)))"
    and k: "Some (bill_no b) \<in> rb_bill_no ` set rows"
  shows "last_sync_ts b = now"
proof -
  from k have ne: "rows \<noteq> []" by auto
  with ok have v: "\<forall>row \<in> set rows. proposed_bill now row \<noteq> None"
    unfolding syncBills_Some by (auto split: if_splits)
  from b ne v have b': "b \<in> set (upsert_all bill_no set_clause_bill
      (proposed_bills now rows) (bill_tbl db))"
    unfolding syncBills_Some by simp
  from k have k': "bill_no b \<in> bill_no ` set (proposed_bills now rows)"
    unfolding keys_proposed_bills[OF v, symmetric] by (simp add: inj_image_mem_iff)
  have "last_sync_ts b \<in> last_sync_ts ` set (proposed_bills now rows)"
    by (rule upsert_all_stamp[where key=bill_no and sc=set_clause_bill
          and f=last_sync_ts, OF _ _ b' k'])
       (simp_all add: set_clause_bill_laws)
  with stamp_proposed_bills[OF v] show ?thesis by auto
qed

subsection \<open>Receipts\<close>

lemma set_clause_receipt_laws:
  "receipt_id (set_clause_receipt e b) = receipt_id b"
  "set_clause_receipt e (set_clause_receipt e' b) = set_clause_receipt e b"
  "set_clause_receipt e e = e"
  "r_last_sync_ts (set_clause_receipt e b) = r_last_sync_ts e"
  "(set_clause_receipt e b)\<lparr>r_last_sync_ts := 0\<rparr>
     = set_clause_receipt (e\<lparr>r_last_sync_ts := 0\<rparr>) (b\<lparr>r_last_sync_ts := 0\<rparr>)"
  by (simp_all add: set_clause_receipt_def)

lemma proposed_receipt_Some:
  "proposed_receipt now row = Some e \<Longrightarrow>
     rr_receipt_id row = Some (receipt_id e) \<and> rr_receipt_date row = Some (receipt_date e)
     \<and> rr_party_name row = Some (r_party_name e)
     \<and> Option.bind (rr_amount row) decimal_15_2 = Some (r_amount e)
     \<and> rr_mode row = Some (mode e) \<and> rr_ref_text row = ref_text e
     \<and> rr_bill_reference row = bill_reference e
     \<and> r_last_sync_ts e = now \<and> r_created_at e = now"
  by (auto simp: proposed_receipt_def bind_eq_Some_conv split: option.splits
        dest: varchar_Some)

lemma proposed_receipt_None_iff:
  "proposed_receipt t1 row = None \<longleftrightarrow> proposed_receipt t2 row = None"
  by (auto simp: proposed_receipt_def split: option.splits)

lemma syncReceipts_Some:
  "syncReceipts (Some rows) now db =
     (if rows = [] then (Inr 0, db)
      else if \<forall>row \<in> set rows. proposed_receipt now row \<noteq> None
      then (Inr (length rows),
            db\<lparr>receipt_tbl := upsert_all receipt_id set_clause_receipt (proposed_receipts now rows) (receipt_tbl db)\<rparr>)
      else (Inl RolledBack, db))"
proof -
  have u: "upsert_receipt now =
      (\<lambda>row tbl. map_option (\<lambda>e. insert_on_conflict_update receipt_id set_clause_receipt e tbl)
         (proposed_receipt now row))"
    by (intro ext) (simp add: upsert_receipt_def)
  show ?thesis
    unfolding syncReceipts_def u upsert_loop_all proposed_receipts_def by auto
qed

lemma proposed_receipts_rel:
  assumes "\<forall>row \<in> set rows. proposed_receipt t1 row \<noteq> None"
  shows "list_all2 (\<lambda>e e'. receipt_id e = receipt_id e'
            \<and> set_clause_receipt (e\<lparr>r_last_sync_ts := 0\<rparr>) = set_clause_receipt (e'\<lparr>r_last_sync_ts := 0\<rparr>))
           (proposed_receipts t2 rows) (proposed_receipts t1 rows)"
  using assms
proof (induction rows)
  case Nil
  then show ?case by (simp add: proposed_receipts_def)
next
  case (Cons row rows)
  from Cons.prems obtain e1 where e1: "proposed_receipt t1 row = Some e1" by auto
  then obtain e2 where e2: "proposed_receipt t2 row = Some e2"
    using proposed_receipt_None_iff[of t2 row t1] by (cases "proposed_receipt t2 row") auto
  have "receipt_id e2 = receipt_id e1"
    using proposed_receipt_Some[OF e1] proposed_receipt_Some[OF e2] by simp
  moreover have "set_clause_receipt (e2\<lparr>r_last_sync_ts := 0\<rparr>) = set_clause_receipt (e1\<lparr>r_last_sync_ts := 0\<rparr>)"
    using proposed_receipt_Some[OF e1] proposed_receipt_Some[OF e2]
    by (intro ext) (simp add: set_clause_receipt_def)
  ultimately show ?case
    using Cons e1 e2 by (simp add: proposed_receipts_def)
qed

lemma receipts_twice:
  assumes v: "\<forall>row \<in> set rows. proposed_receipt t1 row \<noteq> None"
  shows "receipts_but_sync_ts (upsert_all receipt_id set_clause_receipt (proposed_receipts t2 rows)
            (upsert_all receipt_id set_clause_receipt (proposed_receipts t1 rows) T))
         = receipts_but_sync_ts (upsert_all receipt_id set_clause_receipt (proposed_receipts t1 rows) T)"
  unfolding receipts_but_sync_ts_def
  by (rule upsert_all_twice[where key=receipt_id and sc=set_clause_receipt
        and z="\<lambda>b. b\<lparr>r_last_sync_ts := 0\<rparr>", OF _ _ _ _ _ proposed_receipts_rel[OF v]])
     (simp_all add: set_clause_receipt_laws)

lemma keys_proposed_receipts:
  assumes v: "\<forall>row \<in> set rows. proposed_receipt now row \<noteq> None"
  shows "Some ` receipt_id ` set (proposed_receipts now rows) = rr_receipt_id ` set rows"
  using v
proof (induction rows)
  case Nil
  then show ?case by (simp add: proposed_receipts_def)
next
  case (Cons row rows)
  from Cons.prems obtain e where e: "proposed_receipt now row = Some e" by auto
  from Cons.prems have "Some ` receipt_id ` set (proposed_receipts now rows) = rr_receipt_id ` set rows"
    by (intro Cons.IH) simp
  then show ?case
    using proposed_receipt_Some[OF e] e by (simp add: proposed_receipts_def)
qed

lemma stamp_proposed_receipts:
  assumes v: "\<forall>row \<in> set rows. proposed_receipt now row \<noteq> None"
  shows "r_last_sync_ts ` set (proposed_receipts now rows) \<subseteq> {now}"
  using v
proof (induction rows)
  case Nil
  then show ?case by (simp add: proposed_receipts_def)
next
  case (Cons row rows)
  from Cons.prems obtain e where e: "proposed_receipt now row = Some e" by auto
  from Cons.prems have "r_last_sync_ts ` set (proposed_receipts now rows) \<subseteq> {now}"
    by (intro Cons.IH) simp
  then show ?case
    using proposed_receipt_Some[OF e] e by (simp add: proposed_receipts_def)
qed

lemma syncReceipts_twice:
  "fst (syncReceipts result t2 (snd (syncReceipts result t1 db))) = fst (syncReceipts result t1 db)
   \<and> receipts_but_sync_ts (receipt_tbl (snd (syncReceipts result t2 (snd (syncReceipts result t1 db)))))
       = receipts_but_sync_ts (receipt_tbl (snd (syncReceipts result t1 db)))
   \<and> length (receipt_tbl (snd (syncReceipts result t2 (snd (syncReceipts result t1 db)))))
       = length (receipt_tbl (snd (syncReceipts result t1 db)))
   \<and> bill_tbl (snd (syncReceipts result t2 (snd (syncReceipts result t1 db)))) = bill_tbl db"
proof (cases result)
  case None
  then show ?thesis by (simp add: syncReceipts_def)
next
  case (Some rows)
  show ?thesis
  proof (cases "rows \<noteq> [] \<and> (\<forall>row \<in> set rows. proposed_receipt t1 row \<noteq> None)")
    case False
    then show ?thesis
      using proposed_receipt_None_iff[of t1 _ t2] unfolding Some syncReceipts_Some by auto
  next
    case True
    then have v1: "\<forall>row \<in> set rows. proposed_receipt t1 row \<noteq> None"
      and v2: "\<forall>row \<in> set rows. proposed_receipt t2 row \<noteq> None"
      using proposed_receipt_None_iff[of t1 _ t2] by auto
    let ?T1 = "upsert_all receipt_id set_clause_receipt (proposed_receipts t1 rows) (receipt_tbl db)"
    have "receipt_id ` set (proposed_receipts t2 rows) = receipt_id ` set (proposed_receipts t1 rows)"
      using keys_proposed_receipts[OF v1] keys_proposed_receipts[OF v2]
      by (metis inj_Some inj_image_eq_iff)
    then have cov: "receipt_id ` set (proposed_receipts t2 rows) \<subseteq> receipt_id ` set ?T1"
      by (simp add: keys_upsert_all[where key=receipt_id and sc=set_clause_receipt]
          set_clause_receipt_laws)
    have len: "length (upsert_all receipt_id set_clause_receipt (proposed_receipts t2 rows) ?T1) = length ?T1"
      by (rule length_upsert_all_covered[where key=receipt_id and sc=set_clause_receipt, OF _ cov])
         (simp add: set_clause_receipt_laws)
    show ?thesis
      using True v1 v2 receipts_twice[OF v1, of t2 "receipt_tbl db"] len
      unfolding Some syncReceipts_Some by simp
  qed
qed


lemma syncReceipts_distinct:
  assumes d: "distinct (map receipt_id (receipt_tbl db))"
  shows "distinct (map receipt_id (receipt_tbl (snd (syncReceipts result now db))))"
proof (cases result)
  case None
  with d show ?thesis by (simp add: syncReceipts_def)
next
  case (Some rows)
  have "distinct (map receipt_id
      (upsert_all receipt_id set_clause_receipt (proposed_receipts now rows) (receipt_tbl db)))"
    by (rule distinct_upsert_all[where key=receipt_id and sc=set_clause_receipt, OF _ d])
       (simp add: set_clause_receipt_laws)
  with d show ?thesis
    unfolding Some syncReceipts_Some by simp
qed

lemma syncReceipts_stamp:
  assumes ok: "fst (syncReceipts (Some rows) now db) = Inr n"
    and b: "b \<in> set (receipt_tbl (snd (syncReceipts (Some rows) now db)))"
    and k: "Some (receipt_id b) \<in> rr_receipt_id ` set rows"
  shows "r_last_sync_ts b = now"
proof -
  from k have ne: "rows \<noteq> []" by auto
  with ok have v: "\<forall>row \<in> set rows. proposed_receipt now row \<noteq> None"
    unfolding syncReceipts_Some by (auto split: if_splits)
  from b ne v have b': "b \<in> set (upsert_all receipt_id set_clause_receipt
      (proposed_receipts now rows) (receipt_tbl db))"
    unfolding syncReceipts_Some by simp
  from k have k': "receipt_id b \<in> receipt_id ` set (proposed_receipts now rows)"
    unfolding keys_proposed_receipts[OF v, symmetric] by (simp add: inj_image_mem_iff)
  have "r_last_sync_ts b \<in> r_last_sync_ts ` set (proposed_receipts now rows)"
    by (rule upsert_all_stamp[where key=receipt_id and sc=set_clause_receipt
          and f=r_last_sync_ts, OF _ _ b' k'])
       (simp_all add: set_clause_receipt_laws)
  with stamp_proposed_receipts[OF v] show ?thesis by auto
qed

subsection \<open>The two sync methods run twice\<close>

text \<open>
  C7. Run \<open>syncBills\<close> on an upstream answer and then once more on the same answer: the
  second run ends as the first did (the same count, or the same error), and leaves the
  bill table with the same rows in the same places, equal in every column but
  \<open>last_sync_ts\<close>; no row is added, voucher numbers that were distinct stay distinct, the
  receipt table is not touched, and after a successful run every row whose voucher number
  is in the answer carries the time of the second run. The same holds for
  \<open>syncReceipts\<close> and the receipt table.
\<close>

theorem upsert_idempotent:
  "(case twice (syncBills bills) t t' db of
      ((r\<^sub>1, db\<^sub>1), (r\<^sub>2, db\<^sub>2)) \<Rightarrow>
        r\<^sub>2 = r\<^sub>1
        \<and> bills_but_sync_ts (bill_tbl db\<^sub>2) = bills_but_sync_ts (bill_tbl db\<^sub>1)
        \<and> length (bill_tbl db\<^sub>2) = length (bill_tbl db\<^sub>1)
        \<and> receipt_tbl db\<^sub>2 = receipt_tbl db
        \<and> (distinct (map bill_no (bill_tbl db)) \<longrightarrow> distinct (map bill_no (bill_tbl db\<^sub>2)))
        \<and> (\<forall>rows n b. bills = Some rows \<and> r\<^sub>2 = Inr n \<and> b \<in> set (bill_tbl db\<^sub>2)
               \<and> Some (bill_no b) \<in> rb_bill_no ` set rows \<longrightarrow> last_sync_ts b = t'))
   \<and> (case twice (syncReceipts receipts) t t' db of
      ((r\<^sub>1, db\<^sub>1), (r\<^sub>2, db\<^sub>2)) \<Rightarrow>
        r\<^sub>2 = r\<^sub>1
        \<and> receipts_but_sync_ts (receipt_tbl db\<^sub>2) = receipts_but_sync_ts (receipt_tbl db\<^sub>1)
        \<and> length (receipt_tbl db\<^sub>2) = length (receipt_tbl db\<^sub>1)
        \<and> bill_tbl db\<^sub>2 = bill_tbl db
        \<and> (distinct (map receipt_id (receipt_tbl db))
             \<longrightarrow> distinct (map receipt_id (receipt_tbl db\<^sub>2)))
        \<and> (\<forall>rows n r. receipts = Some rows \<and> r\<^sub>2 = Inr n \<and> r \<in> set (receipt_tbl db\<^sub>2)
               \<and> Some (receipt_id r) \<in> rr_receipt_id ` set rows \<longrightarrow> r_last_sync_ts r = t'))"
proof -
  have bills_part: "(case twice (syncBills bills) t t' db of
      ((r\<^sub>1, db\<^sub>1), (r\<^sub>2, db\<^sub>2)) \<Rightarrow>
        r\<^sub>2 = r\<^sub>1
        \<and> bills_but_sync_ts (bill_tbl db\<^sub>2) = bills_but_sync_ts (bill_tbl db\<^sub>1)
        \<and> length (bill_tbl db\<^sub>2) = length (bill_tbl db\<^sub>1)
        \<and> receipt_tbl db\<^sub>2 = receipt_tbl db
        \<and> (distinct (map bill_no (bill_tbl db)) \<longrightarrow> distinct (map bill_no (bill_tbl db\<^sub>2)))
        \<and> (\<forall>rows n b. bills = Some rows \<and> r\<^sub>2 = Inr n \<and> b \<in> set (bill_tbl db\<^sub>2)
               \<and> Some (bill_no b) \<in> rb_bill_no ` set rows \<longrightarrow> last_sync_ts b = t'))"
  proof -
    obtain r\<^sub>1 db\<^sub>1 where f: "syncBills bills t db = (r\<^sub>1, db\<^sub>1)"
      by (cases "syncBills bills t db")
    obtain r\<^sub>2 db\<^sub>2 where g: "syncBills bills t' db\<^sub>1 = (r\<^sub>2, db\<^sub>2)"
      by (cases "syncBills bills t' db\<^sub>1")
    have d: "distinct (map bill_no (bill_tbl db\<^sub>2))" if "distinct (map bill_no (bill_tbl db))"
    proof -
      from that have "distinct (map bill_no (bill_tbl db\<^sub>1))"
        using syncBills_distinct[where db=db and result=bills and now=t] f by simp
      then show ?thesis
        using syncBills_distinct[where db=db\<^sub>1 and result=bills and now=t'] g by simp
    qed
    have st: "last_sync_ts b = t'"
      if "bills = Some rows" "r\<^sub>2 = Inr n" "b \<in> set (bill_tbl db\<^sub>2)"
        "Some (bill_no b) \<in> rb_bill_no ` set rows" for rows n b
      using syncBills_stamp[where rows=rows and now=t' and db=db\<^sub>1 and n=n and b=b] that g
      by simp
    from syncBills_twice[where result=bills and ?t1.0=t and ?t2.0=t' and db=db] d st
    show ?thesis
      by (auto simp: twice_def f g)
  qed
  have receipts_part: "(case twice (syncReceipts receipts) t t' db of
      ((r\<^sub>1, db\<^sub>1), (r\<^sub>2, db\<^sub>2)) \<Rightarrow>
        r\<^sub>2 = r\<^sub>1
        \<and> receipts_but_sync_ts (receipt_tbl db\<^sub>2) = receipts_but_sync_ts (receipt_tbl db\<^sub>1)
        \<and> length (receipt_tbl db\<^sub>2) = length (receipt_tbl db\<^sub>1)
        \<and> bill_tbl db\<^sub>2 = bill_tbl db
        \<and> (distinct (map receipt_id (receipt_tbl db))
             \<longrightarrow> distinct (map receipt_id (receipt_tbl db\<^sub>2)))
        \<and> (\<forall>rows n r. receipts = Some rows \<and> r\<^sub>2 = Inr n \<and> r \<in> set (receipt_tbl db\<^sub>2)
               \<and> Some (receipt_id r) \<in> rr_receipt_id ` set rows \<longrightarrow> r_last_sync_ts r = t'))"
  proof -
    obtain r\<^sub>1 db\<^sub>1 where f: "syncReceipts receipts t db = (r\<^sub>1, db\<^sub>1)"
      by (cases "syncReceipts receipts t db")
    obtain r\<^sub>2 db\<^sub>2 where g: "syncReceipts receipts t' db\<^sub>1 = (r\<^sub>2, db\<^sub>2)"
      by (cases "syncReceipts receipts t' db\<^sub>1")
    have d: "distinct (map receipt_id (receipt_tbl db\<^sub>2))"
      if "distinct (map receipt_id (receipt_tbl db))"
    proof -
      from that have "distinct (map receipt_id (receipt_tbl db\<^sub>1))"
        using syncReceipts_distinct[where db=db and result=receipts and now=t] f by simp
      then show ?thesis
        using syncReceipts_distinct[where db=db\<^sub>1 and result=receipts and now=t'] g by simp
    qed
    have st: "r_last_sync_ts r = t'"
      if "receipts = Some rows" "r\<^sub>2 = Inr n" "r \<in> set (receipt_tbl db\<^sub>2)"
        "Some (receipt_id r) \<in> rr_receipt_id ` set rows" for rows n r
      using syncReceipts_stamp[where rows=rows and now=t' and db=db\<^sub>1 and n=n and b=r] that g
      by simp
    from syncReceipts_twice[where result=receipts and ?t1.0=t and ?t2.0=t' and db=db] d st
    show ?thesis
      by (auto simp: twice_def f g)
  qed
  from bills_part receipts_part show ?thesis by (rule conjI)
qed

lemmas sync_defs =
  twice_def syncBills_def syncReceipts_def upsert_bill_def upsert_receipt_def
  proposed_bill_def proposed_receipt_def insert_on_conflict_update_def
  set_clause_bill_def set_clause_receipt_def a_bill_def a_receipt_def
  varchar_def decimal_15_2_def hundredths_def floor_divide_numeral_rat

theorem upsert_idempotent_witness:
  "distinct (map bill_no [a_bill ''B0'' 1 ''P'' 100])
   \<and> twice (syncBills (Some
        [\<lparr>rb_bill_no = Some ''B1'', rb_bill_date = Some 5, rb_party_name = Some ''Q'',
          rb_amount = Some 700\<rparr>,
         \<lparr>rb_bill_no = Some ''B0'', rb_bill_date = Some 2, rb_party_name = Some ''P'',
          rb_amount = Some 150\<rparr>,
         \<lparr>rb_bill_no = Some ''B1'', rb_bill_date = Some 5, rb_party_name = Some ''Q'',
          rb_amount = Some 750\<rparr>])) 10 20
        \<lparr>bill_tbl = [a_bill ''B0'' 1 ''P'' 100], receipt_tbl = []\<rparr>
     = ((Inr 3, \<lparr>bill_tbl =
           [\<lparr>bill_no = ''B0'', bill_date = 2, party_name = ''P'', amount = 150,
             last_sync_ts = 10, created_at = 0\<rparr>,
            \<lparr>bill_no = ''B1'', bill_date = 5, party_name = ''Q'', amount = 750,
             last_sync_ts = 10, created_at = 10\<rparr>], receipt_tbl = []\<rparr>),
        (Inr 3, \<lparr>bill_tbl =
           [\<lparr>bill_no = ''B0'', bill_date = 2, party_name = ''P'', amount = 150,
             last_sync_ts = 20, created_at = 0\<rparr>,
            \<lparr>bill_no = ''B1'', bill_date = 5, party_name = ''Q'', amount = 750,
             last_sync_ts = 20, created_at = 10\<rparr>], receipt_tbl = []\<rparr>))
   \<and> twice (syncReceipts (Some
        [\<lparr>rr_receipt_id = Some ''R1'', rr_receipt_date = Some 6, rr_party_name = Some ''Q'',
          rr_amount = Some 700, rr_mode = Some CASH, rr_ref_text = Some ''cash'',
          rr_bill_reference = None\<rparr>])) 10 20
        \<lparr>bill_tbl = [a_bill ''B0'' 1 ''P'' 100], receipt_tbl = []\<rparr>
     = ((Inr 1, \<lparr>bill_tbl = [a_bill ''B0'' 1 ''P'' 100], receipt_tbl =
           [\<lparr>receipt_id = ''R1'', receipt_date = 6, r_party_name = ''Q'', r_amount = 700,
             mode = CASH, ref_text = Some ''cash'', bill_reference = None,
             r_last_sync_ts = 10, r_created_at = 10\<rparr>]\<rparr>),
        (Inr 1, \<lparr>bill_tbl = [a_bill ''B0'' 1 ''P'' 100], receipt_tbl =
           [\<lparr>receipt_id = ''R1'', receipt_date = 6, r_party_name = ''Q'', r_amount = 700,
             mode = CASH, ref_text = Some ''cash'', bill_reference = None,
             r_last_sync_ts = 20, r_created_at = 10\<rparr>]\<rparr>))"
  using upsert_idempotent[where
      bills = "Some [\<lparr>rb_bill_no = Some ''B1'', rb_bill_date = Some 5, rb_party_name = Some ''Q'',
          rb_amount = Some 700\<rparr>,
         \<lparr>rb_bill_no = Some ''B0'', rb_bill_date = Some 2, rb_party_name = Some ''P'',
          rb_amount = Some 150\<rparr>,
         \<lparr>rb_bill_no = Some ''B1'', rb_bill_date = Some 5, rb_party_name = Some ''Q'',
          rb_amount = Some 750\<rparr>]" and t = 10 and t' = 20
      and db = "\<lparr>bill_tbl = [a_bill ''B0'' 1 ''P'' 100], receipt_tbl = []\<rparr>"
      and receipts = "Some [\<lparr>rr_receipt_id = Some ''R1'', rr_receipt_date = Some 6,
          rr_party_name = Some ''Q'', rr_amount = Some 700, rr_mode = Some CASH,
          rr_ref_text = Some ''cash'', rr_bill_reference = None\<rparr>]"]
  by (simp add: sync_defs)

section \<open>Malformed vouchers\<close>

lemma parseVouchersFromXML_filter:
  "parseVouchersFromXML pf today vs = (map (pushed_bill pf today) (filter all_four_truthy vs), [])"
  by (induction vs) simp_all

lemma pool_connect_free:
  "checked_out pool < max_clients pool \<Longrightarrow> pool_connect pool \<noteq> None"
  by (simp add: pool_connect_def)

lemma xml_syncBills_as_syncBills:
  assumes "checked_out pool < max_clients pool"
  shows "xml_syncBills pf pg_date today (Some vs) now pool db =
     Some (syncBills
        (Some (map (xml_insert_values pg_date) (fst (parseVouchersFromXML pf today vs)))) now db)"
  using pool_connect_free[OF assms]
  by (auto simp: xml_syncBills_def syncBills_def Let_def split: option.splits)

lemma proposed_bill_None:
  "rb_bill_no row = None \<or> rb_bill_date row = None \<or> rb_party_name row = None \<or> rb_amount row = None
   \<Longrightarrow> proposed_bill now row = None"
  by (auto simp: proposed_bill_def split: option.splits)

lemma syncBills_malformed:
  assumes "row \<in> set rows"
    and "rb_bill_no row = None \<or> rb_bill_date row = None \<or> rb_party_name row = None \<or> rb_amount row = None"
  shows "syncBills (Some rows) now db = (Inl RolledBack, db)"
proof -
  from assms have "rows \<noteq> []" by auto
  moreover from assms have "\<not> (\<forall>row \<in> set rows. proposed_bill now row \<noteq> None)"
    using proposed_bill_None by blast
  ultimately show ?thesis unfolding syncBills_Some by simp
qed

lemma runETL_malformed:
  assumes "\<not> isRunning svc" "connect_ok up" "bills_result up = Some rows" "row \<in> set rows"
    and "rb_bill_no row = None \<or> rb_bill_date row = None \<or> rb_party_name row = None \<or> rb_amount row = None"
    and free: "checked_out pool < max_clients pool"
  shows "runETL up tb tr svc pool db
           = (Some Undefined, [Info_starting, Error_cycle_failed RolledBack], svc, db, pool)"
proof -
  have "svc\<lparr>isRunning := False\<rparr> = svc" using assms(1) by (cases svc) simp
  then show ?thesis
    using assms(1-3) syncBills_malformed[OF assms(4,5), of tb db] pool_connect_free[OF free]
    by (simp add: runETL_def)
qed

text \<open>The row the table takes from a bill of the XML parser.\<close>

lemma proposed_xml_bill:
  assumes "pg_date (xb_bill_date b) = Some d" "length (xb_bill_no b) \<le> 50"
    "length (xb_party_name b) \<le> 200" "decimal_15_2 (xb_amount b) = Some a"
  shows "proposed_bill now (xml_insert_values pg_date b) =
     Some \<lparr>bill_no = xb_bill_no b, bill_date = d, party_name = xb_party_name b,
           amount = a, last_sync_ts = now, created_at = now\<rparr>"
  using assms by (simp add: proposed_bill_def xml_insert_values_def varchar_def)

lemma xml_syncBills_wellformed:
  assumes fits: "\<forall>v \<in> set vs. all_four_truthy v
      \<longrightarrow> pg_date (formatTallyDate today (date_text v)) \<noteq> None
          \<and> length (voucherNumber v) \<le> 50 \<and> length (partyName v) \<le> 200
          \<and> decimal_15_2 (xb_amount (pushed_bill pf today v)) \<noteq> None"
    and free: "checked_out pool < max_clients pool"
  shows "\<exists>db'. xml_syncBills pf pg_date today (Some vs) now pool db
                 = Some (Inr (length (filter all_four_truthy vs)), db')
            \<and> (\<forall>v \<in> set vs. all_four_truthy v \<longrightarrow> voucherNumber v \<in> bill_no ` set (bill_tbl db'))
            \<and> receipt_tbl db' = receipt_tbl db"
proof -
  let ?kept = "filter all_four_truthy vs"
  let ?rows = "map (xml_insert_values pg_date) (map (pushed_bill pf today) ?kept)"
  have x: "xml_syncBills pf pg_date today (Some vs) now pool db = Some (syncBills (Some ?rows) now db)"
    by (simp add: xml_syncBills_as_syncBills[OF free] parseVouchersFromXML_filter)
  have valid: "\<forall>row \<in> set ?rows. proposed_bill now row \<noteq> None"
  proof
    fix row assume "row \<in> set ?rows"
    then obtain v where v: "v \<in> set vs" "all_four_truthy v"
      and row: "row = xml_insert_values pg_date (pushed_bill pf today v)"
      by auto
    from fits v obtain d a where
      f: "pg_date (xb_bill_date (pushed_bill pf today v)) = Some d"
      "length (xb_bill_no (pushed_bill pf today v)) \<le> 50"
      "length (xb_party_name (pushed_bill pf today v)) \<le> 200"
      "decimal_15_2 (xb_amount (pushed_bill pf today v)) = Some a"
      by (auto simp: pushed_bill_def)
    have "proposed_bill now (xml_insert_values pg_date (pushed_bill pf today v)) \<noteq> None"
      using proposed_xml_bill[where pg_date = pg_date and b = "pushed_bill pf today v"
          and d = d and a = a and now = now] f
      by simp
    then show "proposed_bill now row \<noteq> None"
      unfolding row .
  qed
  have keys: "bill_no ` set (proposed_bills now ?rows) = voucherNumber ` set ?kept"
  proof -
    have "Some ` bill_no ` set (proposed_bills now ?rows) = rb_bill_no ` set ?rows"
      by (rule keys_proposed_bills[OF valid])
    also have "\<dots> = Some ` voucherNumber ` set ?kept"
      by (simp add: image_image xml_insert_values_def pushed_bill_def del: set_filter)
    finally show ?thesis by (metis inj_Some inj_image_eq_iff)
  qed
  have uk: "bill_no ` set (upsert_all bill_no set_clause_bill (proposed_bills now ?rows) (bill_tbl db))
      = voucherNumber ` set ?kept \<union> bill_no ` set (bill_tbl db)"
    unfolding keys[symmetric]
    by (rule keys_upsert_all[where key=bill_no and sc=set_clause_bill])
       (simp add: set_clause_bill_laws)
  let ?db' = "snd (syncBills (Some ?rows) now db)"
  have r: "fst (syncBills (Some ?rows) now db) = Inr (length ?kept)"
    unfolding syncBills_Some using valid by simp
  have rc: "receipt_tbl ?db' = receipt_tbl db"
    unfolding syncBills_Some by simp
  have ks: "\<forall>v \<in> set vs. all_four_truthy v \<longrightarrow> voucherNumber v \<in> bill_no ` set (bill_tbl ?db')"
  proof (intro ballI impI)
    fix v assume v: "v \<in> set vs" "all_four_truthy v"
    then have ne: "?rows \<noteq> []" by (auto simp: filter_empty_conv)
    have "bill_tbl ?db'
        = upsert_all bill_no set_clause_bill (proposed_bills now ?rows) (bill_tbl db)"
      unfolding syncBills_Some using ne valid by simp
    moreover have "voucherNumber v \<in> voucherNumber ` set ?kept" using v by simp
    ultimately show "voucherNumber v \<in> bill_no ` set (bill_tbl ?db')"
      using uk by simp
  qed
  have "xml_syncBills pf pg_date today (Some vs) now pool db = Some (Inr (length ?kept), ?db')"
    unfolding x using r by (metis prod.collapse)
  with ks rc show ?thesis by blast
qed

text \<open>
  C9, as amended. In the XML service, \<open>parseVouchersFromXML\<close> skips a voucher when any
  of voucher number, date, party or amount is empty, without a warning, and keeps the
  others in order. When every kept voucher is one the bill table takes (PostgreSQL reads
  its date, the number has at most 50 characters, the party at most 200, and the amount
  rounded has at most 13 digits before the point) and the pool has a client, \<open>syncBills\<close>
  upserts every one of them and returns their number. In \<open>TallyETL\<close> there is no such
  filter: a row of the ODBC answer that lacks one of the four makes its insert fail, the
  transaction is rolled back, so that no row of the answer is stored, \<open>syncBills\<close>
  rejects, and \<open>runETL\<close>, given a client of the pool, logs the failed cycle without syncing
  receipts or mapping.
\<close>

theorem malformed_voucher_handling:
  "parseVouchersFromXML pf today vs = (map (pushed_bill pf today) (filter all_four_truthy vs), [])
   \<and> ((\<forall>v \<in> set vs. all_four_truthy v
          \<longrightarrow> pg_date (formatTallyDate today (date_text v)) \<noteq> None
              \<and> length (voucherNumber v) \<le> 50 \<and> length (partyName v) \<le> 200
              \<and> decimal_15_2 (xb_amount (pushed_bill pf today v)) \<noteq> None)
        \<and> checked_out pool < max_clients pool
       \<longrightarrow> (\<exists>db'. xml_syncBills pf pg_date today (Some vs) now pool db
                     = Some (Inr (length (filter all_four_truthy vs)), db')
                \<and> (\<forall>v \<in> set vs. all_four_truthy v
                      \<longrightarrow> voucherNumber v \<in> bill_no ` set (bill_tbl db'))
                \<and> receipt_tbl db' = receipt_tbl db))
   \<and> (row \<in> set rows
        \<and> (rb_bill_no row = None \<or> rb_bill_date row = None \<or> rb_party_name row = None
             \<or> rb_amount row = None)
       \<longrightarrow> syncBills (Some rows) now db = (Inl RolledBack, db)
           \<and> (\<not> isRunning svc \<and> connect_ok up \<and> bills_result up = Some rows
                \<and> checked_out pool < max_clients pool
                \<longrightarrow> runETL up t\<^sub>b t\<^sub>r svc pool db
                      = (Some Undefined, [Info_starting, Error_cycle_failed RolledBack],
                         svc, db, pool)))"
proof (intro conjI impI)
  show "parseVouchersFromXML pf today vs
          = (map (pushed_bill pf today) (filter all_four_truthy vs), [])"
    by (rule parseVouchersFromXML_filter)
next
  assume "(\<forall>v \<in> set vs. all_four_truthy v
          \<longrightarrow> pg_date (formatTallyDate today (date_text v)) \<noteq> None
              \<and> length (voucherNumber v) \<le> 50 \<and> length (partyName v) \<le> 200
              \<and> decimal_15_2 (xb_amount (pushed_bill pf today v)) \<noteq> None)
        \<and> checked_out pool < max_clients pool"
  then show "\<exists>db'. xml_syncBills pf pg_date today (Some vs) now pool db
                     = Some (Inr (length (filter all_four_truthy vs)), db')
                \<and> (\<forall>v \<in> set vs. all_four_truthy v
                      \<longrightarrow> voucherNumber v \<in> bill_no ` set (bill_tbl db'))
                \<and> receipt_tbl db' = receipt_tbl db"
    using xml_syncBills_wellformed[of vs pg_date today pf pool now db] by blast
next
  assume m: "row \<in> set rows
        \<and> (rb_bill_no row = None \<or> rb_bill_date row = None \<or> rb_party_name row = None
             \<or> rb_amount row = None)"
  then show "syncBills (Some rows) now db = (Inl RolledBack, db)"
    using syncBills_malformed[of row rows now db] by blast
  assume "\<not> isRunning svc \<and> connect_ok up \<and> bills_result up = Some rows
                \<and> checked_out pool < max_clients pool"
  with m show "runETL up t\<^sub>b t\<^sub>r svc pool db
                      = (Some Undefined, [Info_starting, Error_cycle_failed RolledBack],
                         svc, db, pool)"
    using runETL_malformed[of svc up rows row pool t\<^sub>b t\<^sub>r db] by blast
qed

lemmas xml_defs =
  xml_syncBills_def all_four_truthy_def pushed_bill_def formatTallyDate_def amount_chars_def
  xml_insert_values_def pool_connect_def fresh_pool_def

theorem malformed_voucher_handling_witness:
  "xml_syncBills (\<lambda>s. if s = ''1500.00'' then Some 1500 else None)
      (\<lambda>s. if s = ''2024-01-15'' then Some 19737 else None) ''2024-02-01''
      (Some [\<lparr>voucherNumber = ''S-1'', date_text = ''20240115'', partyName = ''Acme'',
              amount_text = ''Rs 1500.00''\<rparr>,
             \<lparr>voucherNumber = ''S-2'', date_text = ''20240115'', partyName = [],
              amount_text = ''700''\<rparr>,
             \<lparr>voucherNumber = ''S-3'', date_text = ''15-01-2024'', partyName = ''Bolt'',
              amount_text = ''n/a''\<rparr>])
      7 fresh_pool \<lparr>bill_tbl = [], receipt_tbl = []\<rparr>
    = Some (Inr 2, \<lparr>bill_tbl =
         [\<lparr>bill_no = ''S-1'', bill_date = 19737, party_name = ''Acme'', amount = 1500,
           last_sync_ts = 7, created_at = 7\<rparr>,
          \<lparr>bill_no = ''S-3'', bill_date = 19737, party_name = ''Bolt'', amount = 0,
           last_sync_ts = 7, created_at = 7\<rparr>], receipt_tbl = []\<rparr>)
   \<and> syncBills (Some
        [\<lparr>rb_bill_no = Some ''S-1'', rb_bill_date = Some 19737, rb_party_name = Some ''Acme'',
          rb_amount = Some 1500\<rparr>,
         \<lparr>rb_bill_no = Some ''S-2'', rb_bill_date = Some 19737, rb_party_name = None,
          rb_amount = Some 700\<rparr>])
      7 \<lparr>bill_tbl = [], receipt_tbl = []\<rparr>
    = (Inl RolledBack, \<lparr>bill_tbl = [], receipt_tbl = []\<rparr>)"
proof -
  have odbc: "syncBills (Some
        [\<lparr>rb_bill_no = Some ''S-1'', rb_bill_date = Some 19737, rb_party_name = Some ''Acme'',
          rb_amount = Some 1500\<rparr>,
         \<lparr>rb_bill_no = Some ''S-2'', rb_bill_date = Some 19737, rb_party_name = None,
          rb_amount = Some 700\<rparr>])
      7 \<lparr>bill_tbl = [], receipt_tbl = []\<rparr>
    = (Inl RolledBack, \<lparr>bill_tbl = [], receipt_tbl = []\<rparr>)"
    using malformed_voucher_handling[where rows = "[\<lparr>rb_bill_no = Some ''S-1'', rb_bill_date = Some 19737, rb_party_name = Some ''Acme'',
          rb_amount = Some 1500\<rparr>,
         \<lparr>rb_bill_no = Some ''S-2'', rb_bill_date = Some 19737, rb_party_name = None,
          rb_amount = Some 700\<rparr>]"
        and row = "\<lparr>rb_bill_no = Some ''S-2'', rb_bill_date = Some 19737, rb_party_name = None,
          rb_amount = Some 700\<rparr>"
        and now = 7 and db = "\<lparr>bill_tbl = [], receipt_tbl = []\<rparr>"]
    by simp
  have xml: "xml_syncBills (\<lambda>s. if s = ''1500.00'' then Some 1500 else None)
      (\<lambda>s. if s = ''2024-01-15'' then Some 19737 else None) ''2024-02-01''
      (Some [\<lparr>voucherNumber = ''S-1'', date_text = ''20240115'', partyName = ''Acme'',
              amount_text = ''Rs 1500.00''\<rparr>,
             \<lparr>voucherNumber = ''S-2'', date_text = ''20240115'', partyName = [],
              amount_text = ''700''\<rparr>,
             \<lparr>voucherNumber = ''S-3'', date_text = ''15-01-2024'', partyName = ''Bolt'',
              amount_text = ''n/a''\<rparr>])
      7 fresh_pool \<lparr>bill_tbl = [], receipt_tbl = []\<rparr>
    = Some (Inr 2, \<lparr>bill_tbl =
         [\<lparr>bill_no = ''S-1'', bill_date = 19737, party_name = ''Acme'', amount = 1500,
           last_sync_ts = 7, created_at = 7\<rparr>,
          \<lparr>bill_no = ''S-3'', bill_date = 19737, party_name = ''Bolt'', amount = 0,
           last_sync_ts = 7, created_at = 7\<rparr>], receipt_tbl = []\<rparr>)"
    by (simp add: xml_defs sync_defs)
  from xml odbc show ?thesis by (rule conjI)
qed

text \<open>
  The claim as stated fails for \<open>TallyETL.syncBills\<close>: with a well-formed voucher and one
  without a party, nothing is upserted, the method rejects, and the cycle stops there (the
  receipt of the same answer is never synced).
\<close>

theorem malformed_voucher_fatal_counterexample:
  "syncBills (Some
        [\<lparr>rb_bill_no = Some ''S-1'', rb_bill_date = Some 19737, rb_party_name = Some ''Acme'',
          rb_amount = Some 1500\<rparr>,
         \<lparr>rb_bill_no = Some ''S-2'', rb_bill_date = Some 19737, rb_party_name = None,
          rb_amount = Some 700\<rparr>])
      7 \<lparr>bill_tbl = [], receipt_tbl = []\<rparr>
    = (Inl RolledBack, \<lparr>bill_tbl = [], receipt_tbl = []\<rparr>)
   \<and> runETL
      \<lparr>connect_ok = True,
       bills_result = Some
        [\<lparr>rb_bill_no = Some ''S-1'', rb_bill_date = Some 19737, rb_party_name = Some ''Acme'',
          rb_amount = Some 1500\<rparr>,
         \<lparr>rb_bill_no = Some ''S-2'', rb_bill_date = Some 19737, rb_party_name = None,
          rb_amount = Some 700\<rparr>],
       receipts_result = Some
        [\<lparr>rr_receipt_id = Some ''R-1'', rr_receipt_date = Some 19738,
          rr_party_name = Some ''Acme'', rr_amount = Some 1500, rr_mode = Some CASH,
          rr_ref_text = None, rr_bill_reference = None\<rparr>]\<rparr>
      7 8 \<lparr>isRunning = False\<rparr> fresh_pool \<lparr>bill_tbl = [], receipt_tbl = []\<rparr>
    = (Some Undefined, [Info_starting, Error_cycle_failed RolledBack], \<lparr>isRunning = False\<rparr>,
       \<lparr>bill_tbl = [], receipt_tbl = []\<rparr>, fresh_pool)"
  by (simp add: runETL_def takes_client_def pool_connect_def fresh_pool_def sync_defs)

section \<open>The cycle\<close>

lemma runETL_never_stats: "fst (runETL up t\<^sub>b t\<^sub>r svc pool db) \<noteq> Some (Stats b r m)"
  by (simp add: runETL_def split: prod.splits sum.splits option.splits)

lemma autoMapReceipts_etl_all_mapped:
  assumes "\<forall>r \<in> set (receipt_tbl db). bill_reference r \<noteq> None"
    and "checked_out pool < max_clients pool"
  shows "autoMapReceipts_etl pool db
           = Some ((db, 0), pool\<lparr>checked_out := checked_out pool + 1\<rparr>)"
  using assms
  by (simp add: autoMapReceipts_etl_def unmappedReceipts_etl_def filter_empty_conv
        pool_connect_def)

lemma autoMapReceipts_etl_free:
  assumes "checked_out pool < max_clients pool"
  shows "\<exists>db' n pool'. autoMapReceipts_etl pool db = Some ((db', n), pool')"
  using assms
  by (cases "map_loop_etl (unmappedReceipts_etl db) db 0")
     (simp add: autoMapReceipts_etl_def pool_connect_def Let_def)

text \<open>
  What the early return does to the pool: a cycle with nothing to sync and nothing to map
  keeps its client, and once every client is kept the next cycle waits for one for ever,
  with the flag set.
\<close>

lemma empty_cycle_keeps_client:
  assumes "\<not> isRunning svc" "connect_ok up" "bills_result up = Some []"
    "receipts_result up = Some []" "\<forall>r \<in> set (receipt_tbl db). bill_reference r \<noteq> None"
    "checked_out pool < max_clients pool"
  shows "runETL up t\<^sub>b t\<^sub>r svc pool db
           = (Some Undefined, [Info_starting, Info_cycle_completed 0 0 0], svc, db,
              pool\<lparr>checked_out := checked_out pool + 1\<rparr>)"
proof -
  have s: "svc\<lparr>isRunning := False\<rparr> = svc" using assms(1) by (cases svc) simp
  show ?thesis
    using assms(1-4) s autoMapReceipts_etl_all_mapped[OF assms(5,6)]
    by (simp add: runETL_def syncBills_def syncReceipts_def takes_client_def)
qed

lemma exhausted_pool_cycle_waits:
  assumes "\<not> isRunning svc" "connect_ok up" "bills_result up = Some []"
    "receipts_result up = Some []" "\<not> checked_out pool < max_clients pool"
  shows "runETL up t\<^sub>b t\<^sub>r svc pool db = (None, [Info_starting], svc\<lparr>isRunning := True\<rparr>, db, pool)"
  using assms
  by (simp add: runETL_def syncBills_def syncReceipts_def takes_client_def
        autoMapReceipts_etl_def pool_connect_def)

text \<open>
  C10, as amended. \<open>runETL\<close> never resolves to a statistics object: it has no \<open>return\<close>
  with a value, and the counts are written to the log only. With a source that connects
  and returns no bill and no receipt voucher, no cycle in progress and a client left in the
  pool, the cycle completes without error, resolves to \<open>undefined\<close>, logs 0 bills,
  0 receipts and the number of receipts the mapping pass links in the store as it is, and
  clears the flag; that number is 0, and the store unchanged, when the store holds no
  unmapped receipt.
\<close>

theorem empty_cycle:
  "fst (runETL up t\<^sub>b t\<^sub>r svc pool db) \<noteq> Some (Stats b r m)
   \<and> (\<not> isRunning svc \<and> connect_ok up \<and> bills_result up = Some [] \<and> receipts_result up = Some []
        \<and> checked_out pool < max_clients pool
      \<longrightarrow> (\<exists>db' n pool'. autoMapReceipts_etl pool db = Some ((db', n), pool')
              \<and> runETL up t\<^sub>b t\<^sub>r svc pool db
                  = (Some Undefined, [Info_starting, Info_cycle_completed 0 0 n], svc, db', pool'))
          \<and> ((\<forall>r \<in> set (receipt_tbl db). bill_reference r \<noteq> None)
              \<longrightarrow> (\<exists>pool'. runETL up t\<^sub>b t\<^sub>r svc pool db
                    = (Some Undefined, [Info_starting, Info_cycle_completed 0 0 0], svc, db,
                       pool'))))"
proof (intro conjI impI)
  show "fst (runETL up t\<^sub>b t\<^sub>r svc pool db) \<noteq> Some (Stats b r m)"
    by (rule runETL_never_stats)
next
  assume a: "\<not> isRunning svc \<and> connect_ok up \<and> bills_result up = Some []
      \<and> receipts_result up = Some [] \<and> checked_out pool < max_clients pool"
  then have s: "svc\<lparr>isRunning := False\<rparr> = svc" by (cases svc) simp
  from a autoMapReceipts_etl_free[of pool db] obtain db' n pool'
    where m: "autoMapReceipts_etl pool db = Some ((db', n), pool')" by blast
  have "runETL up t\<^sub>b t\<^sub>r svc pool db
          = (Some Undefined, [Info_starting, Info_cycle_completed 0 0 n], svc, db', pool')"
    using a s m by (simp add: runETL_def syncBills_def syncReceipts_def takes_client_def)
  with m show "\<exists>db' n pool'. autoMapReceipts_etl pool db = Some ((db', n), pool')
              \<and> runETL up t\<^sub>b t\<^sub>r svc pool db
                  = (Some Undefined, [Info_starting, Info_cycle_completed 0 0 n], svc, db', pool')"
    by blast
  assume "\<forall>r \<in> set (receipt_tbl db). bill_reference r \<noteq> None"
  with a show "\<exists>pool'. runETL up t\<^sub>b t\<^sub>r svc pool db
                    = (Some Undefined, [Info_starting, Info_cycle_completed 0 0 0], svc, db,
                       pool')"
    using empty_cycle_keeps_client[of svc up db pool t\<^sub>b t\<^sub>r] by blast
qed

theorem empty_cycle_witness:
  "fst (runETL \<lparr>connect_ok = True, bills_result = Some [], receipts_result = Some []\<rparr> 7 8
      \<lparr>isRunning = False\<rparr> fresh_pool
      \<lparr>bill_tbl = [a_bill ''B1'' 1 ''P'' 500],
       receipt_tbl = [a_receipt ''R1'' 2 ''P'' 500 (Some ''B1'')]\<rparr>) = Some Undefined
   \<and> (\<exists>pool'. runETL \<lparr>connect_ok = True, bills_result = Some [], receipts_result = Some []\<rparr> 7 8
      \<lparr>isRunning = False\<rparr> fresh_pool
      \<lparr>bill_tbl = [a_bill ''B1'' 1 ''P'' 500],
       receipt_tbl = [a_receipt ''R1'' 2 ''P'' 500 (Some ''B1'')]\<rparr>
    = (Some Undefined, [Info_starting, Info_cycle_completed 0 0 0], \<lparr>isRunning = False\<rparr>,
       \<lparr>bill_tbl = [a_bill ''B1'' 1 ''P'' 500],
        receipt_tbl = [a_receipt ''R1'' 2 ''P'' 500 (Some ''B1'')]\<rparr>, pool'))"
proof -
  have h: "\<not> isRunning \<lparr>isRunning = False\<rparr>
      \<and> connect_ok \<lparr>connect_ok = True, bills_result = Some [], receipts_result = Some []\<rparr>
      \<and> bills_result \<lparr>connect_ok = True, bills_result = Some [], receipts_result = Some []\<rparr>
          = Some []
      \<and> receipts_result \<lparr>connect_ok = True, bills_result = Some [], receipts_result = Some []\<rparr>
          = Some []
      \<and> checked_out fresh_pool < max_clients fresh_pool"
    by (simp add: fresh_pool_def)
  have m: "\<forall>r \<in> set (receipt_tbl \<lparr>bill_tbl = [a_bill ''B1'' 1 ''P'' 500],
         receipt_tbl = [a_receipt ''R1'' 2 ''P'' 500 (Some ''B1'')]\<rparr>). bill_reference r \<noteq> None"
    by (simp add: a_receipt_def)
  from empty_cycle[THEN conjunct2, THEN mp, OF h, THEN conjunct2, THEN mp, OF m]
  obtain pool' where r: "runETL \<lparr>connect_ok = True, bills_result = Some [], receipts_result = Some []\<rparr> 7 8
      \<lparr>isRunning = False\<rparr> fresh_pool
      \<lparr>bill_tbl = [a_bill ''B1'' 1 ''P'' 500],
       receipt_tbl = [a_receipt ''R1'' 2 ''P'' 500 (Some ''B1'')]\<rparr>
    = (Some Undefined, [Info_starting, Info_cycle_completed 0 0 0], \<lparr>isRunning = False\<rparr>,
       \<lparr>bill_tbl = [a_bill ''B1'' 1 ''P'' 500],
        receipt_tbl = [a_receipt ''R1'' 2 ''P'' 500 (Some ''B1'')]\<rparr>, pool')"
    by blast
  then show ?thesis by (intro conjI exI[of _ pool']) simp_all
qed

text \<open>
  The claim as stated fails: on an empty store the cycle does not return the object with
  three zeros, and on a store where an earlier pass has used up the oldest bill, the cycle
  with no upstream voucher links one receipt, so the logged \<open>mappedCount\<close> is 1.
\<close>

theorem empty_cycle_stats_counterexample:
  "fst (runETL \<lparr>connect_ok = True, bills_result = Some [], receipts_result = Some []\<rparr> 7 8
      \<lparr>isRunning = False\<rparr> fresh_pool \<lparr>bill_tbl = [], receipt_tbl = []\<rparr>) = Some Undefined
   \<and> runETL \<lparr>connect_ok = True, bills_result = Some [], receipts_result = Some []\<rparr> 7 8
      \<lparr>isRunning = False\<rparr> fresh_pool
      \<lparr>bill_tbl = [a_bill ''B1'' 1 ''P'' 300, a_bill ''B2'' 2 ''P'' 500],
       receipt_tbl = [a_receipt ''R1'' 3 ''P'' 500 None, a_receipt ''R2'' 4 ''P'' 300 (Some ''B1'')]\<rparr>
    = (Some Undefined, [Info_starting, Info_cycle_completed 0 0 1], \<lparr>isRunning = False\<rparr>,
       \<lparr>bill_tbl = [a_bill ''B1'' 1 ''P'' 300, a_bill ''B2'' 2 ''P'' 500],
        receipt_tbl = [a_receipt ''R1'' 3 ''P'' 500 (Some ''B2''),
                       a_receipt ''R2'' 4 ''P'' 300 (Some ''B1'')]\<rparr>, fresh_pool)"
  by (simp add: runETL_def syncBills_def syncReceipts_def takes_client_def mapping_defs
        numeric_text_eval)

section \<open>Release attempts\<close>

subsection \<open>What every attempt does\<close>

lemma destructured_bill_no_params:
  "destructured_bill_no (req\<lparr>params := Some Map.empty\<rparr>) = None"
  by (simp add: destructured_bill_no_def)

lemma validateRelease_no_bill_no:
  assumes "destructured_bill_no req = None"
  shows "validateRelease db req = Respond (Reply 404 ''Bill not found'')"
  unfolding validateRelease_def using assms by simp

lemma release_route_no_bill_no:
  assumes "destructured_bill_no req = None"
  shows "release_route compare now v db req = (db, Reply 404 ''Bill not found'')"
  unfolding release_route_def unlocked_checks_def
  by (simp add: validateRelease_no_bill_no[OF assms])

text \<open>
  In a database set up from the SQL schema the audit trigger fails every insert into a
  release table, so that no attempt of any shape leaves a release record.
\<close>

lemma insert_release_self_raises:
  "audit_triggers db \<Longrightarrow> insert_release_self now db req approvedBy = None"
  unfolding insert_release_self_def audit_trigger_def release_self_columns_def
  by (simp split: option.splits prod.splits)

lemma insert_release_transporter_raises:
  "audit_triggers db \<Longrightarrow> insert_release_transporter now db req approvedBy = None"
  unfolding insert_release_transporter_def audit_trigger_def release_transporter_columns_def
  by (simp split: option.splits prod.splits)

lemma release_handler_inserts_nothing:
  "audit_triggers db \<Longrightarrow> fst (release_handler compare now v db req billData) = db"
  unfolding release_handler_def
  by (simp add: insert_release_self_raises insert_release_transporter_raises
        split: middleware_result.splits variant.splits)

lemma release_route_inserts_nothing:
  "audit_triggers db \<Longrightarrow> fst (release_route compare now v db req) = db"
  unfolding release_route_def locked_section_def
  by (simp add: release_handler_inserts_nothing split: middleware_result.splits)

lemma release_attempts_insert_nothing:
  "audit_triggers db \<Longrightarrow> fst (release_attempts compare db attempts) = db"
proof (induction attempts arbitrary: db)
  case Nil
  show ?case by simp
next
  case (Cons a attempts)
  obtain now v req where a: "a = (now, v, req)" by (cases a) auto
  obtain db' r where r: "release_route compare now v db req = (db', r)" by fastforce
  have "db' = db"
    using release_route_inserts_nothing[OF Cons.prems, of compare now v req] r by simp
  then show ?case using Cons.IH[of db] Cons.prems a r by (auto split: prod.splits)
qed

lemma release_attempts_params:
  "release_attempts compare db
     (map (\<lambda>(now, v, req). (now, v, req\<lparr>params := Some Map.empty\<rparr>)) attempts)
   = (db, map (\<lambda>_. Reply 404 ''Bill not found'') attempts)"
proof (induction attempts)
  case Nil
  show ?case by simp
next
  case (Cons a attempts)
  obtain now v req where a: "a = (now, v, req)" by (cases a) auto
  show ?case
    using Cons.IH
    by (simp add: a release_route_no_bill_no[OF destructured_bill_no_params])
qed

subsection \<open>What the checks do when the bill number is read\<close>

lemma bs_bill_no_bill_status_of: "bs_bill_no (bill_status_of r b) = bill_no b"
  by (simp add: bill_status_of_def Let_def)

lemma bill_status_db_rows:
  "filter (\<lambda>bs. bs_bill_no bs = k) (bill_status_db db)
     = map (bill_status_of (receipt_totals (receipt_tbl db)))
         (filter (\<lambda>b. bill_no b = k) (bill_tbl db))"
  unfolding bill_status_db_def bill_status_view_def
  by (simp add: filter_map comp_def bs_bill_no_bill_status_of)

lemma validateRelease_already_released:
  assumes "destructured_bill_no req = Some k"
    and "k \<in> bill_no ` set (bill_tbl db)"
    and "0 < releases_of_bill db (Some k)"
  shows "validateRelease db req = Respond (Reply 400 ''Bill already released'')"
proof -
  have "filter (\<lambda>b. bill_no b = k) (bill_tbl db) \<noteq> []"
    using assms(2) by (auto simp: filter_empty_conv)
  then obtain b bs where "filter (\<lambda>b. bill_no b = k) (bill_tbl db) = b # bs"
    by (cases "filter (\<lambda>b. bill_no b = k) (bill_tbl db)") auto
  then show ?thesis
    unfolding validateRelease_def using assms(1,3) by (simp add: bill_status_db_rows)
qed

lemma release_route_already_released:
  assumes "destructured_bill_no req = Some k"
    and "k \<in> bill_no ` set (bill_tbl db)"
    and "0 < releases_of_bill db (Some k)"
  shows "release_route compare now v db req = (db, Reply 400 ''Bill already released'')"
  unfolding release_route_def unlocked_checks_def
  by (simp add: validateRelease_already_released[OF assms])

lemma locked_section_already_released:
  assumes "0 < releases_of_bill db (destructured_bill_no req)"
  shows "locked_section compare now v db req billData
           = (db, Reply 400 ''Bill already has a release record'')"
  unfolding locked_section_def enforceUniqueRelease_def using assms by simp

lemma validateRelease_approval_required:
  assumes "filter (\<lambda>bs. Some (bs_bill_no bs) = destructured_bill_no req) (bill_status_db db)
             = bill # rest"
    and "releases_of_bill db (destructured_bill_no req) = 0"
    and "0 < remaining_due bill"
    and "\<not> truthy (manager_pin req)" and "\<not> otp_verified req"
  shows "validateRelease db req
           = Respond (Reply 400 ''Outstanding due requires manager PIN or customer OTP'')"
  unfolding validateRelease_def using assms by simp

lemma validateRelease_no_due:
  assumes "filter (\<lambda>bs. Some (bs_bill_no bs) = destructured_bill_no req) (bill_status_db db)
             = bill # rest"
    and "releases_of_bill db (destructured_bill_no req) = 0"
    and "remaining_due bill \<le> 0"
  shows "validateRelease db req = Next bill"
  unfolding validateRelease_def using assms by simp

lemma approval_no_due:
  assumes "remaining_due billData \<le> 0"
  shows "approval compare db req billData = Next None"
  unfolding approval_def using assms by simp

lemma approval_invalid_pin:
  assumes "0 < remaining_due billData" and "truthy (manager_pin req)"
    and "approving_manager compare db (the (manager_pin req)) = None"
  shows "approval compare db req billData = Respond (Reply 400 ''Invalid manager PIN'')"
  unfolding approval_def using assms by simp

lemma release_route_gatepass_in_use:
  assumes "validateRelease db req = Next billData"
    and "0 < releases_with_gatepass db (gatepass_id req)"
  shows "release_route compare now v db req = (db, Reply 400 ''Gatepass ID already used'')"
  unfolding release_route_def unlocked_checks_def validateGatepassId_def using assms by simp

lemma locked_section_never_gatepass:
  "snd (locked_section compare now v db req billData) \<noteq> Reply 400 ''Gatepass ID already used''"
  unfolding locked_section_def enforceUniqueRelease_def release_handler_def approval_def
  by (simp split: option.splits variant.splits)

lemma enforceUniqueRelease_gatepass:
  "enforceUniqueRelease db (req\<lparr>gatepass_id := g\<rparr>) = enforceUniqueRelease db req"
  by (simp add: enforceUniqueRelease_def destructured_bill_no_def split: option.splits)

lemmas release_defs =
  release_route_def unlocked_checks_def locked_section_def release_handler_def
  validateRelease_def validateGatepassId_def enforceUniqueRelease_def approval_def
  approving_manager_def destructured_bill_no_def truthy_def releases_of_bill_def
  releases_with_gatepass_def insert_release_self_def insert_release_transporter_def
  bill_no_insertable_def audit_trigger_def release_self_columns_def
  release_transporter_columns_def bill_status_db_def bill_status_view_def bill_status_of_def
  receipt_totals_def
  empty_database_def a_bill_def a_receipt_def a_release_request_def a_release_self_def
  paid_bills_def due_bill_def

subsection \<open>At most one release\<close>

text \<open>
  With the body read, an attempt on a bill that has a release record is turned away as the
  claim says, by \<open>validateRelease\<close> (\<open>release_route_already_released\<close>) or, when the record
  appeared after that check, under the lock (\<open>locked_section_already_released\<close>). A first
  attempt on a paid bill releases it in a database without the audit triggers, and fails
  on the trigger in one set up from the SQL schema.
\<close>

lemma release_of_released_bill_body_read:
  "release_route compare 30 Self (paid_bills\<lparr>release_self := [a_release_self ''B1'' ''GP-1'']\<rparr>)
     (a_release_request None ''B1'' ''GP-2'')
   = (paid_bills\<lparr>release_self := [a_release_self ''B1'' ''GP-1'']\<rparr>,
      Reply 400 ''Bill already released'')"
  by (simp add: release_defs)

lemma release_of_paid_bill_body_read:
  "release_route compare 20 Self paid_bills (a_release_request None ''B1'' ''GP-1'')
   = (paid_bills, Reply 500 ''Failed to release bill'')"
  "release_route compare 20 Self (paid_bills\<lparr>audit_triggers := False\<rparr>)
     (a_release_request None ''B1'' ''GP-1'')
   = (paid_bills\<lparr>audit_triggers := False,
                 release_self := [(a_release_self ''B1'' ''GP-1'')\<lparr>released_ts := 20\<rparr>]\<rparr>,
      Reply 200 ''Bill released to customer successfully'')"
  by (simp_all add: release_defs)

text \<open>
  C1. For every bill number at most one release record, of either variant, exists: an
  attempt on a bill that has one is rejected as already released and inserts nothing, and a
  sequence of attempts on one bill leaves exactly one record, every later attempt rejected.

  The routes miss this. \<open>/release/self\<close> and \<open>/release/transporter\<close> have no path
  parameter, so Express hands the middlewares the empty object as \<open>req.params\<close>; it is
  truthy, \<open>req.params || req.body\<close> never reaches the body, and \<open>bill_no\<close> is \<open>undefined\<close>
  in \<open>validateRelease\<close> (and in \<open>enforceUniqueRelease\<close>), while the handlers read
  \<open>req.body.bill_no\<close>. Every attempt of every sequence is answered 404 \<open>Bill not found\<close>
  and the store stays as it was: two attempts on the paid bill B1 release nothing, and an
  attempt on B1 once it has a release record is not told that it is released.
\<close>

theorem release_at_most_once_on_the_routes:
  "release_attempts compare db
     (map (\<lambda>(now, v, req). (now, v, req\<lparr>params := Some Map.empty\<rparr>)) attempts)
   = (db, map (\<lambda>_. Reply 404 ''Bill not found'') attempts)
   \<and> release_attempts compare paid_bills
       [(20, Self, a_release_request (Some Map.empty) ''B1'' ''GP-1''),
        (30, Transporter, a_release_request (Some Map.empty) ''B1'' ''GP-2'')]
     = (paid_bills, [Reply 404 ''Bill not found'', Reply 404 ''Bill not found''])
   \<and> release_route compare 30 Self
       (paid_bills\<lparr>release_self := [a_release_self ''B1'' ''GP-1'']\<rparr>)
       (a_release_request (Some Map.empty) ''B1'' ''GP-2'')
     = (paid_bills\<lparr>release_self := [a_release_self ''B1'' ''GP-1'']\<rparr>,
        Reply 404 ''Bill not found'')"
proof (intro conjI)
  show "release_attempts compare db
     (map (\<lambda>(now, v, req). (now, v, req\<lparr>params := Some Map.empty\<rparr>)) attempts)
   = (db, map (\<lambda>_. Reply 404 ''Bill not found'') attempts)"
    by (rule release_attempts_params)
  show "release_attempts compare paid_bills
       [(20, Self, a_release_request (Some Map.empty) ''B1'' ''GP-1''),
        (30, Transporter, a_release_request (Some Map.empty) ''B1'' ''GP-2'')]
     = (paid_bills, [Reply 404 ''Bill not found'', Reply 404 ''Bill not found''])"
    by (simp add: release_route_no_bill_no destructured_bill_no_def a_release_request_def)
  show "release_route compare 30 Self
       (paid_bills\<lparr>release_self := [a_release_self ''B1'' ''GP-1'']\<rparr>)
       (a_release_request (Some Map.empty) ''B1'' ''GP-2'')
     = (paid_bills\<lparr>release_self := [a_release_self ''B1'' ''GP-1'']\<rparr>,
        Reply 404 ''Bill not found'')"
    by (simp add: release_route_no_bill_no destructured_bill_no_def a_release_request_def)
qed

subsection \<open>The gatepass check\<close>

text \<open>
  With the body read, \<open>validateGatepassId\<close> turns away an attempt whose gatepass is in use
  (\<open>release_route_gatepass_in_use\<close>). It is the only place where the gatepass is looked
  up: under the lock \<open>enforceUniqueRelease\<close> looks at the release records of the bill
  alone (\<open>enforceUniqueRelease_gatepass\<close>, \<open>locked_section_never_gatepass\<close>).
\<close>

lemma gatepass_in_use_body_read:
  "release_route compare 30 Self (paid_bills\<lparr>release_self := [a_release_self ''B1'' ''GP-1'']\<rparr>)
     (a_release_request None ''B2'' ''GP-1'')
   = (paid_bills\<lparr>release_self := [a_release_self ''B1'' ''GP-1'']\<rparr>,
      Reply 400 ''Gatepass ID already used'')"
  by (simp add: release_defs)

text \<open>
  C2. A release attempt whose gatepass ID is already in \<open>release_self\<close> or
  \<open>release_transporter\<close> is rejected as using a gatepass that is in use, also when the
  earlier release is of another bill, and inserts nothing; the check is made again under
  the row lock.

  The routes miss this. The release of B1 holds gatepass GP-1, and the attempt on the paid
  bill B2 asks for GP-1. \<open>validateGatepassId\<close> would turn it away, but it stands behind
  \<open>validateRelease\<close>, which reads \<open>bill_no\<close> from \<open>req.params\<close>, the empty object on
  these routes, and answers 404 \<open>Bill not found\<close> to every attempt before the gatepass is
  looked up.
\<close>

theorem gatepass_in_use_on_the_routes:
  "release_route compare now v db (req\<lparr>params := Some Map.empty\<rparr>)
     = (db, Reply 404 ''Bill not found'')
   \<and> releases_with_gatepass (paid_bills\<lparr>release_self := [a_release_self ''B1'' ''GP-1'']\<rparr>)
        (gatepass_id (a_release_request (Some Map.empty) ''B2'' ''GP-1'')) = 1
   \<and> validateGatepassId (paid_bills\<lparr>release_self := [a_release_self ''B1'' ''GP-1'']\<rparr>)
        (a_release_request (Some Map.empty) ''B2'' ''GP-1'')
     = Respond (Reply 400 ''Gatepass ID already used'')
   \<and> release_route compare 30 Self
        (paid_bills\<lparr>release_self := [a_release_self ''B1'' ''GP-1'']\<rparr>)
        (a_release_request (Some Map.empty) ''B2'' ''GP-1'')
     = (paid_bills\<lparr>release_self := [a_release_self ''B1'' ''GP-1'']\<rparr>,
        Reply 404 ''Bill not found'')"
proof (intro conjI)
  show "release_route compare now v db (req\<lparr>params := Some Map.empty\<rparr>)
     = (db, Reply 404 ''Bill not found'')"
    by (rule release_route_no_bill_no[OF destructured_bill_no_params])
  show "releases_with_gatepass (paid_bills\<lparr>release_self := [a_release_self ''B1'' ''GP-1'']\<rparr>)
        (gatepass_id (a_release_request (Some Map.empty) ''B2'' ''GP-1'')) = 1"
    by (simp add: releases_with_gatepass_def paid_bills_def empty_database_def
          a_release_request_def a_release_self_def)
  show "validateGatepassId (paid_bills\<lparr>release_self := [a_release_self ''B1'' ''GP-1'']\<rparr>)
        (a_release_request (Some Map.empty) ''B2'' ''GP-1'')
     = Respond (Reply 400 ''Gatepass ID already used'')"
    by (simp add: validateGatepassId_def releases_with_gatepass_def paid_bills_def
          empty_database_def a_release_request_def a_release_self_def)
  show "release_route compare 30 Self
        (paid_bills\<lparr>release_self := [a_release_self ''B1'' ''GP-1'']\<rparr>)
        (a_release_request (Some Map.empty) ''B2'' ''GP-1'')
     = (paid_bills\<lparr>release_self := [a_release_self ''B1'' ''GP-1'']\<rparr>,
        Reply 404 ''Bill not found'')"
    by (simp add: release_route_no_bill_no destructured_bill_no_def a_release_request_def)
qed

subsection \<open>Approval\<close>

text \<open>
  C3. An attempt on a bill with \<open>remaining_due > 0\<close> that brings neither a manager PIN nor
  a verified OTP is rejected as needing approval and inserts nothing; a bill with
  \<open>remaining_due \<le> 0\<close> needs neither.

  With the body read, \<open>validateRelease\<close> does that for a bill that exists and has no release
  record (\<open>validateRelease_approval_required\<close>, \<open>validateRelease_no_due\<close>), and the handlers
  ask for nothing when nothing is due (\<open>approval_no_due\<close>). On the routes, where
  \<open>req.params\<close> is the empty object, the test for the due is never reached: the attempt
  without credentials on the unpaid bill B1 is answered 404 \<open>Bill not found\<close>, not that
  approval is required, and so is the attempt on the paid bill B1, which does not proceed.
\<close>

theorem approval_on_the_routes:
  "validateRelease db (req\<lparr>params := Some Map.empty\<rparr>) = Respond (Reply 404 ''Bill not found'')
   \<and> validateRelease due_bill (a_release_request (Some Map.empty) ''B1'' ''GP-1'')
     = Respond (Reply 404 ''Bill not found'')
   \<and> validateRelease due_bill (a_release_request None ''B1'' ''GP-1'')
     = Respond (Reply 400 ''Outstanding due requires manager PIN or customer OTP'')
   \<and> release_route compare 20 Self paid_bills (a_release_request (Some Map.empty) ''B1'' ''GP-1'')
     = (paid_bills, Reply 404 ''Bill not found'')
   \<and> validateRelease paid_bills (a_release_request None ''B1'' ''GP-1'')
     = Next \<lparr>bs_bill_no = ''B1'', bs_bill_date = 1, bs_party_name = ''P'', bill_amount = 500,
             receipt_total = 500, remaining_due = 0, status = PAID\<rparr>"
proof (intro conjI)
  show "validateRelease db (req\<lparr>params := Some Map.empty\<rparr>)
          = Respond (Reply 404 ''Bill not found'')"
    by (rule validateRelease_no_bill_no[OF destructured_bill_no_params])
  show "validateRelease due_bill (a_release_request (Some Map.empty) ''B1'' ''GP-1'')
     = Respond (Reply 404 ''Bill not found'')"
    by (simp add: validateRelease_no_bill_no destructured_bill_no_def a_release_request_def)
  show "validateRelease due_bill (a_release_request None ''B1'' ''GP-1'')
     = Respond (Reply 400 ''Outstanding due requires manager PIN or customer OTP'')"
    by (simp add: release_defs)
  show "release_route compare 20 Self paid_bills
          (a_release_request (Some Map.empty) ''B1'' ''GP-1'')
     = (paid_bills, Reply 404 ''Bill not found'')"
    by (simp add: release_route_no_bill_no destructured_bill_no_def a_release_request_def)
  show "validateRelease paid_bills (a_release_request None ''B1'' ''GP-1'')
     = Next \<lparr>bs_bill_no = ''B1'', bs_bill_date = 1, bs_party_name = ''P'', bill_amount = 500,
             receipt_total = 500, remaining_due = 0, status = PAID\<rparr>"
    by (simp add: release_defs)
qed

section \<open>Closing a session\<close>

lemma uuid_in_session_1: "uuid_in session_1 = Some session_1"
  unfolding session_1_def by code_simp

lemma double_examples:
  "double 2500 = 2500" "double (- 500) = - 500" "double 1000 = 1000" "double 50 = 50"
  by code_simp+

lemmas close_defs =
  close_session_def validateSessionClose_def validateCashVariance_def parsed_expected_cash_def
  varianceThreshold_def calculate_expected_cash_def close_handler_def
  types_deduced_def update_parameter_types_def
  unreleasedPaid_def bill_status_db_def bill_status_view_def bill_status_of_def
  receipt_totals_def releases_of_bill_def
  empty_database_def a_session_def a_hint_def a_close_def a_bill_def
  uuid_in_session_1 double_examples

text \<open>
  The variance and the flag as the middleware computes them, in doubles: with an expected
  cash that the function returns, the flag is raised exactly when the double of counted
  minus expected is beyond the threshold.
\<close>

lemma validateCashVariance_flag:
  assumes "uuid_in (session_id_param req) = Some session_id"
    and "parsed_expected_cash conflict now db session_id = Inr expected"
    and "counted_cash_field req = Some counted"
  shows "validateCashVariance conflict threshold_env now db req =
           (if \<bar>double (counted - expected)\<bar> > varianceThreshold threshold_env
            then Next (Some (double (counted - expected), expected)) else Next None)"
  using assms by (simp add: validateCashVariance_def Let_def)

text \<open>
  Doubles are not decimals: counted 128.02 against expected 28.02 is a variance of more
  than 100 and is flagged at the threshold 100.
\<close>

lemma variance_in_doubles:
  "\<bar>double (double (12802 / 100) - double (2802 / 100))\<bar> > varianceThreshold None"
  unfolding varianceThreshold_def by code_simp

text \<open>The handler's \<open>UPDATE\<close> is refused whatever the request is.\<close>

lemma close_handler_fails:
  "close_handler now db req flagged = (db, Close_failed (Reply 500 ''Failed to close session''))"
  by (simp add: close_handler_def types_deduced_def update_parameter_types_def)

lemma close_session_fails:
  "\<exists>r. close_session conflict threshold_env now db req = (db, Close_failed r)"
  by (simp add: close_session_def close_handler_fails split: middleware_result.splits)

text \<open>
  C8. Every close stores the session as \<open>CLOSED\<close> with variance = counted cash - expected
  cash, the expected cash being the opening float plus the cash of the cashier's payment
  hints in the session's window, minus petty cash, plus net till adjustments; the close is
  flagged for approval exactly when the variance is beyond the threshold (100 by default).

  The route misses this: no close is ever stored. In the example of the claim, a float of
  1000, one cash hint of 1500 and 2000 counted, the middleware finds the expected cash
  2500 and the variance -500 and raises the flag, when \<open>calculate_expected_cash\<close> returns
  at all; then PostgreSQL refuses the handler's \<open>UPDATE\<close>, in which \<open>$3\<close> stands for a
  numeric column and inside \<open>ABS\<close>, and the answer is 500. With the server's default for
  name conflicts the function raises before that, and the answer is 500 from the
  middleware. The session stays \<open>ACTIVE\<close> in every case.
\<close>

theorem session_close_on_the_route:
  "fst (close_session conflict threshold_env now db req) = db
   \<and> snd (close_session conflict threshold_env now db req) \<noteq> Session_closed v e flagged
   \<and> validateCashVariance use_variable None 20
       (empty_database\<lparr>bill_tbl := [a_bill ''B1'' 1 ''P'' 2000],
          cashier_session_tbl := [a_session session_1 cashier_1 10 1000],
          payment_hint_tbl := [a_hint ''B1'' 1500 cashier_1 15]\<rparr>)
       (a_close session_1 cashier_1 2000)
     = Next (Some (- 500, 2500))
   \<and> close_session use_variable None 20
       (empty_database\<lparr>bill_tbl := [a_bill ''B1'' 1 ''P'' 2000],
          cashier_session_tbl := [a_session session_1 cashier_1 10 1000],
          payment_hint_tbl := [a_hint ''B1'' 1500 cashier_1 15]\<rparr>)
       (a_close session_1 cashier_1 2000)
     = (empty_database\<lparr>bill_tbl := [a_bill ''B1'' 1 ''P'' 2000],
          cashier_session_tbl := [a_session session_1 cashier_1 10 1000],
          payment_hint_tbl := [a_hint ''B1'' 1500 cashier_1 15]\<rparr>,
        Close_failed (Reply 500 ''Failed to close session''))
   \<and> close_session raise_error None 20
       (empty_database\<lparr>bill_tbl := [a_bill ''B1'' 1 ''P'' 2000],
          cashier_session_tbl := [a_session session_1 cashier_1 10 1000],
          payment_hint_tbl := [a_hint ''B1'' 1500 cashier_1 15]\<rparr>)
       (a_close session_1 cashier_1 2000)
     = (empty_database\<lparr>bill_tbl := [a_bill ''B1'' 1 ''P'' 2000],
          cashier_session_tbl := [a_session session_1 cashier_1 10 1000],
          payment_hint_tbl := [a_hint ''B1'' 1500 cashier_1 15]\<rparr>,
        Close_failed (Reply 500 ''Variance validation failed''))"
proof (intro conjI)
  obtain r where r: "close_session conflict threshold_env now db req = (db, Close_failed r)"
    using close_session_fails by blast
  show "fst (close_session conflict threshold_env now db req) = db"
    by (simp add: r)
  show "snd (close_session conflict threshold_env now db req) \<noteq> Session_closed v e flagged"
    by (simp add: r)
  show "validateCashVariance use_variable None 20
       (empty_database\<lparr>bill_tbl := [a_bill ''B1'' 1 ''P'' 2000],
          cashier_session_tbl := [a_session session_1 cashier_1 10 1000],
          payment_hint_tbl := [a_hint ''B1'' 1500 cashier_1 15]\<rparr>)
       (a_close session_1 cashier_1 2000)
     = Next (Some (- 500, 2500))"
    by (simp add: close_defs)
  show "close_session use_variable None 20
       (empty_database\<lparr>bill_tbl := [a_bill ''B1'' 1 ''P'' 2000],
          cashier_session_tbl := [a_session session_1 cashier_1 10 1000],
          payment_hint_tbl := [a_hint ''B1'' 1500 cashier_1 15]\<rparr>)
       (a_close session_1 cashier_1 2000)
     = (empty_database\<lparr>bill_tbl := [a_bill ''B1'' 1 ''P'' 2000],
          cashier_session_tbl := [a_session session_1 cashier_1 10 1000],
          payment_hint_tbl := [a_hint ''B1'' 1500 cashier_1 15]\<rparr>,
        Close_failed (Reply 500 ''Failed to close session''))"
    by (simp add: close_defs)
  show "close_session raise_error None 20
       (empty_database\<lparr>bill_tbl := [a_bill ''B1'' 1 ''P'' 2000],
          cashier_session_tbl := [a_session session_1 cashier_1 10 1000],
          payment_hint_tbl := [a_hint ''B1'' 1500 cashier_1 15]\<rparr>)
       (a_close session_1 cashier_1 2000)
     = (empty_database\<lparr>bill_tbl := [a_bill ''B1'' 1 ''P'' 2000],
          cashier_session_tbl := [a_session session_1 cashier_1 10 1000],
          payment_hint_tbl := [a_hint ''B1'' 1500 cashier_1 15]\<rparr>,
        Close_failed (Reply 500 ''Variance validation failed''))"
    by (simp add: close_defs)
qed

end
